(* ===== verification/Prelude.thy ===== *)
theory Prelude
  imports Main
begin

section \<open>Prelude: time, durations and the collections the components share\<close>

text \<open>
  The names every component uses: instants and durations in nanoseconds as the Go standard
  library counts them, the saturating difference of two instants, and the collections of
  lemmas the component proofs refer to. Go's \<open>int\<close> and \<open>int64\<close> counters are modelled as
  \<open>int\<close>; where the width of a value is observable (the difference of two instants
  saturates at 64 bits) the bound is written out.
\<close>

named_theorems breaker_defs \<open>definitions of the circuit breaker operations\<close>
named_theorems breaker_simps \<open>frame facts of the circuit breaker operations\<close>
named_theorems pool_defs \<open>definitions of the connection pool operations\<close>
named_theorems pool_simps \<open>frame facts of the connection pool operations\<close>
named_theorems config_defs \<open>constants and loaders of the configuration\<close>
named_theorems client_defs \<open>definitions of the pooled client operations\<close>

subsection \<open>Instants and durations\<close>

type_synonym time = int \<comment> \<open>nanoseconds since Go's zero instant, January 1 of year 1\<close>
type_synonym duration = int \<comment> \<open>nanoseconds, the value of a \<open>time.Duration\<close>\<close>

definition zero_time :: time where
  "zero_time = 0"

definition max_duration :: duration where
  "max_duration = 2 ^ 63 - 1"

definition min_duration :: duration where
  "min_duration = - (2 ^ 63)"

text \<open>\<open>Time.Sub\<close>: the difference of two instants, saturated to the range of a duration.\<close>

definition time_Sub :: "time \<Rightarrow> time \<Rightarrow> duration" where
  "time_Sub t u = max min_duration (min max_duration (t - u))"

definition second :: duration where
  "second = 1000000000"

definition millisecond :: duration where
  "millisecond = 1000000"

definition minute :: duration where
  "minute = 60 * second"

definition hour :: duration where
  "hour = 60 * minute"

text \<open>Signed 64-bit arithmetic keeps the low 64 bits.\<close>

definition wrap64 :: "int \<Rightarrow> int" where
  "wrap64 n = (n + 2 ^ 63) mod 2 ^ 64 - 2 ^ 63"

lemma wrap64_id: "- (2 ^ 63) \<le> n \<Longrightarrow> n < 2 ^ 63 \<Longrightarrow> wrap64 n = n"
  by (simp add: wrap64_def)

lemma wrap64_bounds: "min_duration \<le> wrap64 n" "wrap64 n \<le> max_duration"
  by (simp_all add: wrap64_def min_duration_def max_duration_def)

lemma time_Sub_ge_iff:
  "min_duration < d \<Longrightarrow> d \<le> max_duration \<Longrightarrow> d \<le> time_Sub t u \<longleftrightarrow> d \<le> t - u"
  by (auto simp: time_Sub_def)

lemma time_Sub_gt_iff:
  "min_duration \<le> d \<Longrightarrow> d < max_duration \<Longrightarrow> d < time_Sub t u \<longleftrightarrow> d < t - u"
  by (auto simp: time_Sub_def)

lemma time_Sub_self [simp]: "time_Sub t t = 0"
  by (simp add: time_Sub_def min_duration_def max_duration_def)

lemma time_Sub_mono: "t \<le> t' \<Longrightarrow> time_Sub t u \<le> time_Sub t' u"
  by (auto simp: time_Sub_def)

subsection \<open>Lists\<close>

text \<open>Removing the element at an index: how a finished goroutine leaves a list of them.\<close>

definition remove_at :: "nat \<Rightarrow> 'a list \<Rightarrow> 'a list" where
  "remove_at i xs = take i xs @ drop (Suc i) xs"

lemma length_remove_at: "i < length xs \<Longrightarrow> length (remove_at i xs) = length xs - 1"
  by (simp add: remove_at_def)

lemma sum_list_update_int:
  fixes f :: "'a \<Rightarrow> int"
  assumes "i < length xs"
  shows "sum_list (map f (xs[i := x])) = sum_list (map f xs) - f (xs ! i) + f x"
  using assms by (induction xs arbitrary: i) (auto simp: nth_Cons split: nat.splits)

lemma sum_list_nonneg_member:
  fixes f :: "'a \<Rightarrow> int"
  assumes "\<And>y. 0 \<le> f y" and "x \<in> set xs"
  shows "f x \<le> sum_list (map f xs)"
  using assms(2)
proof (induction xs)
  case Nil
  then show ?case by simp
next
  case (Cons a xs)
  have "0 \<le> sum_list (map f xs)"
    by (intro sum_list_nonneg) (auto simp: assms(1))
  with Cons show ?case using assms(1) [of a] by auto
qed

subsection \<open>State machines\<close>

text \<open>
  The components are state machines: an operation maps a state to the next one. Their contracts
  are stated once, for any machine, and interpreted on the operations of each component.
  \<open>history\<close> runs operations that can fail, \<open>work_done\<close> counts the ones that change the state.
\<close>

definition history :: "('e \<Rightarrow> 's \<Rightarrow> 's option) \<Rightarrow> 'e list \<Rightarrow> 's \<Rightarrow> 's option" where
  "history step es s = fold (\<lambda>e r. Option.bind r (step e)) es (Some s)"

lemma history_Nil [simp]: "history step [] s = Some s"
  by (simp add: history_def)

lemma history_Cons [simp]:
  "history step (e # es) s = (case step e s of None \<Rightarrow> None | Some t \<Rightarrow> history step es t)"
proof -
  have "fold (\<lambda>e r. Option.bind r (step e)) es None = None" by (induction es) simp_all
  then show ?thesis by (simp add: history_def split: option.split)
qed

fun work_done :: "('e \<Rightarrow> 's \<Rightarrow> 's) \<Rightarrow> 'e list \<Rightarrow> 's \<Rightarrow> nat" where
  "work_done f [] s = 0"
| "work_done f (e # es) s = (if f e s = s then 0 else 1) + work_done f es (f e s)"

text \<open>Every operation a caller may ask for keeps the invariant.\<close>

locale guarded_machine =
  fixes step :: "'e \<Rightarrow> 's \<Rightarrow> 's" and allowed :: "'e \<Rightarrow> bool" and inv :: "'s \<Rightarrow> bool"
  assumes step_inv: "allowed e \<Longrightarrow> inv s \<Longrightarrow> inv (step e s)"
begin

lemma run_inv: "list_all allowed es \<Longrightarrow> inv s \<Longrightarrow> inv (fold step es s)"
  by (induction es arbitrary: s) (simp_all add: step_inv)

end

text \<open>Every operation that changes the state uses up some of the work left: any schedule ends.\<close>

locale working_machine = guarded_machine +
  fixes work :: "'s \<Rightarrow> int"
  assumes work_nonneg: "inv s \<Longrightarrow> 0 \<le> work s"
    and work_step: "inv s \<Longrightarrow> step e s \<noteq> s \<Longrightarrow> work (step e s) < work s"
begin

lemma work_bound: "list_all allowed es \<Longrightarrow> inv s \<Longrightarrow> int (work_done step es s) \<le> work s"
proof (induction es arbitrary: s)
  case (Cons e es)
  then have "int (work_done step es (step e s)) \<le> work (step e s)" by (simp add: step_inv)
  then show ?case using work_step [OF Cons.prems(2), of e] by (cases "step e s = s") auto
qed (simp add: work_nonneg)

end

text \<open>The operations implement those of an abstract machine.\<close>

locale refining_machine = guarded_machine +
  fixes spec_step :: "'e \<Rightarrow> 'a \<Rightarrow> 'a" and abs :: "'s \<Rightarrow> 'a"
  assumes abs_step: "allowed e \<Longrightarrow> inv s \<Longrightarrow> abs (step e s) = spec_step e (abs s)"
begin

lemma abs_run: "list_all allowed es \<Longrightarrow> inv s \<Longrightarrow> abs (fold step es s) = fold spec_step es (abs s)"
  by (induction es arbitrary: s) (simp_all add: step_inv abs_step)

end

text \<open>Operations that can fail keep the invariant whenever they return.\<close>

locale fallible_machine =
  fixes step :: "'e \<Rightarrow> 's \<Rightarrow> 's option" and allowed :: "'e \<Rightarrow> bool" and inv :: "'s \<Rightarrow> bool"
  assumes step_inv: "allowed e \<Longrightarrow> inv s \<Longrightarrow> step e s = Some t \<Longrightarrow> inv t"

sublocale fallible_machine \<subseteq> total: guarded_machine "\<lambda>e r. Option.bind r (step e)" allowed "\<lambda>r. \<forall>s. r = Some s \<longrightarrow> inv s"
proof unfold_locales
  fix e r
  assume a: "allowed e" "\<forall>s. r = Some s \<longrightarrow> inv s"
  show "\<forall>t. Option.bind r (step e) = Some t \<longrightarrow> inv t"
  proof (cases r)
    case (Some s)
    have "inv s" using a(2) Some by blast
    note keeps = step_inv [OF a(1) this]
    show ?thesis
    proof (intro allI impI)
      fix t
      assume "Option.bind r (step e) = Some t"
      then have "step e s = Some t" by (simp only: Some Option.bind.bind_lunit)
      then show "inv t" by (rule keeps)
    qed
  next
    case None
    then show ?thesis by (simp only: Option.bind.bind_lzero option.distinct simp_thms)
  qed
qed

context fallible_machine
begin

lemma history_inv:
  assumes "history step es s = Some t" "list_all allowed es" "inv s"
  shows "inv t"
proof -
  have "\<forall>u. Some s = Some u \<longrightarrow> inv u" using assms(3) by blast
  from total.run_inv [OF assms(2) this] show ?thesis using assms(1) unfolding history_def by blast
qed

end

lemmas time_defs = second_def minute_def hour_def millisecond_def

end
