(* ===== verification/CircuitBreaker.thy ===== *)
theory CircuitBreaker
  imports Prelude
begin

section \<open>The circuit breaker (pkg/circuitbreaker/circuitbreaker.go)\<close>

text \<open>
  The breaker's fields are the record \<open>CircuitBreaker\<close>, its methods functions on it. Every
  method runs under the breaker's mutex, so each is one atomic step; only the protected
  function runs outside it, between \<open>checkCanExecute\<close> and \<open>recordResult\<close>. The wall clock is an
  argument of the operations that read it. A state change callback runs in a goroutine of
  its own: the model records the launched callbacks in order in \<open>launched\<close>. Logging is not
  modelled.
\<close>

subsection \<open>State and configuration\<close>

datatype State = StateClosed | StateOpen | StateHalfOpen

fun State_code :: "State \<Rightarrow> int" where
  "State_code StateClosed = 0"
| "State_code StateOpen = 1"
| "State_code StateHalfOpen = 2"

fun State_String :: "State \<Rightarrow> string" where
  "State_String StateClosed = ''CLOSED''"
| "State_String StateOpen = ''OPEN''"
| "State_String StateHalfOpen = ''HALF_OPEN''"

record CircuitBreakerConfig =
  MaxFailures :: int
  Timeout :: duration
  ResetTimeout :: duration
  SuccessThreshold :: int

definition DefaultCircuitBreakerConfig :: CircuitBreakerConfig where
  "DefaultCircuitBreakerConfig =
     \<lparr>MaxFailures = 5, Timeout = 30 * second, ResetTimeout = 10 * second, SuccessThreshold = 2\<rparr>"

record CircuitBreaker =
  cbConfig :: CircuitBreakerConfig
  cbState :: State
  failures :: int
  successes :: int
  lastFailureTime :: time
  halfOpenInFlight :: int
  onStateChange :: bool \<comment> \<open>whether a callback is installed\<close>
  launched :: "(State \<times> State) list" \<comment> \<open>callback goroutines started, in order\<close>
  totalRequests :: int
  failedRequests :: int
  blockedRequests :: int
  stateChanges :: int

definition NewCircuitBreaker :: "CircuitBreakerConfig \<Rightarrow> CircuitBreaker" where
  "NewCircuitBreaker config =
     (let c1 = (if MaxFailures config \<le> 0 then config\<lparr>MaxFailures := 5\<rparr> else config);
          c2 = (if Timeout c1 \<le> 0 then c1\<lparr>Timeout := 30 * second\<rparr> else c1);
          c3 = (if ResetTimeout c2 \<le> 0 then c2\<lparr>ResetTimeout := 10 * second\<rparr> else c2);
          c4 = (if SuccessThreshold c3 \<le> 0 then c3\<lparr>SuccessThreshold := 2\<rparr> else c3)
      in \<lparr>cbConfig = c4, cbState = StateClosed, failures = 0, successes = 0,
          lastFailureTime = zero_time, halfOpenInFlight = 0, onStateChange = False,
          launched = [], totalRequests = 0, failedRequests = 0, blockedRequests = 0,
          stateChanges = 0\<rparr>)"

definition SetStateChangeCallback :: "CircuitBreaker \<Rightarrow> CircuitBreaker" where
  "SetStateChangeCallback cb = cb\<lparr>onStateChange := True\<rparr>"

subsection \<open>State changes\<close>

definition startCallback :: "State \<Rightarrow> State \<Rightarrow> CircuitBreaker \<Rightarrow> CircuitBreaker" where
  "startCallback oldState newState cb =
     (if onStateChange cb then cb\<lparr>launched := launched cb @ [(oldState, newState)]\<rparr> else cb)"

definition setStateUnsafe :: "State \<Rightarrow> CircuitBreaker \<Rightarrow> CircuitBreaker" where
  "setStateUnsafe newState cb =
     (let oldState = cbState cb;
          cb1 = cb\<lparr>cbState := newState, stateChanges := stateChanges cb + 1\<rparr>;
          cb2 = (if oldState = StateHalfOpen \<and> newState \<noteq> StateHalfOpen
                 then cb1\<lparr>halfOpenInFlight := 0\<rparr> else cb1)
      in startCallback oldState newState cb2)"

subsection \<open>Admission\<close>

fun canExecuteUnsafe :: "time \<Rightarrow> CircuitBreaker \<Rightarrow> bool \<times> CircuitBreaker" where
  "canExecuteUnsafe now cb =
     (case cbState cb of
        StateClosed \<Rightarrow>
          (True, if failures cb > 0 \<and> time_Sub now (lastFailureTime cb) \<ge> Timeout (cbConfig cb)
                 then cb\<lparr>failures := 0\<rparr> else cb)
      | StateOpen \<Rightarrow>
          (if time_Sub now (lastFailureTime cb) \<ge> Timeout (cbConfig cb)
           then (True, (setStateUnsafe StateHalfOpen cb)\<lparr>halfOpenInFlight := 1\<rparr>)
           else (False, cb))
      | StateHalfOpen \<Rightarrow>
          (if halfOpenInFlight cb \<ge> SuccessThreshold (cbConfig cb) then (False, cb)
           else (True, cb\<lparr>halfOpenInFlight := halfOpenInFlight cb + 1\<rparr>)))"

datatype 'e cb_error =
    ErrCircuitBreakerOpen
  | ErrFunctionCannotBeNil
  | FunctionError 'e

text \<open>\<open>True\<close> is a nil error (the request is admitted), \<open>False\<close> is \<open>ErrCircuitBreakerOpen\<close>.\<close>

definition checkCanExecute :: "time \<Rightarrow> CircuitBreaker \<Rightarrow> bool \<times> CircuitBreaker" where
  "checkCanExecute now cb =
     (let cb1 = cb\<lparr>totalRequests := totalRequests cb + 1\<rparr>;
          (ok, cb2) = canExecuteUnsafe now cb1
      in if \<not> ok then (False, cb2\<lparr>blockedRequests := blockedRequests cb2 + 1\<rparr>) else (True, cb2))"

subsection \<open>Results\<close>

definition onFailure :: "time \<Rightarrow> CircuitBreaker \<Rightarrow> CircuitBreaker" where
  "onFailure now cb =
     (let cb1 = cb\<lparr>failures := failures cb + 1, failedRequests := failedRequests cb + 1,
                    successes := 0, lastFailureTime := now\<rparr>
      in case cbState cb1 of
           StateClosed \<Rightarrow>
             (if failures cb1 \<ge> MaxFailures (cbConfig cb1) then setStateUnsafe StateOpen cb1 else cb1)
         | StateHalfOpen \<Rightarrow> setStateUnsafe StateOpen cb1
         | StateOpen \<Rightarrow> cb1)"

definition onSuccess :: "CircuitBreaker \<Rightarrow> CircuitBreaker" where
  "onSuccess cb =
     (case cbState cb of
        StateClosed \<Rightarrow> (if failures cb > 0 then cb\<lparr>failures := 0\<rparr> else cb)
      | StateHalfOpen \<Rightarrow>
          (let cb1 = cb\<lparr>successes := successes cb + 1\<rparr>
           in if successes cb1 \<ge> SuccessThreshold (cbConfig cb1)
              then (setStateUnsafe StateClosed cb1)\<lparr>failures := 0\<rparr> else cb1)
      | StateOpen \<Rightarrow> cb)"

definition recordResult :: "time \<Rightarrow> 'e option \<Rightarrow> CircuitBreaker \<Rightarrow> CircuitBreaker" where
  "recordResult now err cb =
     (let cb1 = (if cbState cb = StateHalfOpen \<and> halfOpenInFlight cb > 0
                 then cb\<lparr>halfOpenInFlight := halfOpenInFlight cb - 1\<rparr> else cb)
      in if err \<noteq> None then onFailure now cb1 else onSuccess cb1)"

text \<open>
  \<open>Call\<close>: the protected function is a state transformer on the rest of the program's state
  \<open>'w\<close> that returns its error, or \<open>None\<close> for a nil function; \<open>clk\<close> reads the clock of that
  state, once before the function runs and once after.
\<close>

definition Call ::
  "('w \<Rightarrow> time) \<Rightarrow> ('w \<Rightarrow> 'e option \<times> 'w) option \<Rightarrow> CircuitBreaker \<Rightarrow> 'w
     \<Rightarrow> 'e cb_error option \<times> CircuitBreaker \<times> 'w" where
  "Call clk fn cb w =
     (case fn of
        None \<Rightarrow> (Some ErrFunctionCannotBeNil, cb, w)
      | Some f \<Rightarrow>
          (let (ok, cb1) = checkCanExecute (clk w) cb
           in if \<not> ok then (Some ErrCircuitBreakerOpen, cb1, w)
              else let (err, w1) = f w
                   in (map_option FunctionError err, recordResult (clk w1) err cb1, w1)))"

subsection \<open>Manual control and inspection\<close>

definition Reset :: "CircuitBreaker \<Rightarrow> CircuitBreaker" where
  "Reset cb =
     startCallback (cbState cb) StateClosed
       (cb\<lparr>cbState := StateClosed, failures := 0, successes := 0,
           stateChanges := stateChanges cb + 1\<rparr>)"

definition ForceOpen :: "CircuitBreaker \<Rightarrow> CircuitBreaker" where
  "ForceOpen cb =
     (if cbState cb \<noteq> StateOpen
      then startCallback (cbState cb) StateOpen
             (cb\<lparr>cbState := StateOpen, stateChanges := stateChanges cb + 1\<rparr>)
      else cb)"

definition GetState :: "CircuitBreaker \<Rightarrow> State" where
  "GetState cb = cbState cb"

definition IsHealthy :: "CircuitBreaker \<Rightarrow> bool" where
  "IsHealthy cb \<longleftrightarrow> cbState cb \<noteq> StateOpen"

record CircuitBreakerStats =
  st_state :: string
  st_failures :: int
  st_successes :: int
  st_total_requests :: int
  st_failed_requests :: int
  st_blocked_requests :: int
  st_state_changes :: int
  st_last_failure_time :: time

definition GetStats :: "CircuitBreaker \<Rightarrow> CircuitBreakerStats" where
  "GetStats cb =
     \<lparr>st_state = State_String (cbState cb), st_failures = failures cb,
      st_successes = successes cb, st_total_requests = totalRequests cb,
      st_failed_requests = failedRequests cb, st_blocked_requests = blockedRequests cb,
      st_state_changes = stateChanges cb, st_last_failure_time = lastFailureTime cb\<rparr>"

lemmas breaker_op_defs [breaker_defs] =
  checkCanExecute_def onFailure_def onSuccess_def recordResult_def setStateUnsafe_def
  startCallback_def Reset_def ForceOpen_def

declare canExecuteUnsafe.simps [breaker_defs]
declare canExecuteUnsafe.simps [simp del]


subsection \<open>Configuration and the invariant\<close>

definition config_ok :: "CircuitBreakerConfig \<Rightarrow> bool" where
  "config_ok c \<longleftrightarrow> 0 < MaxFailures c \<and> 0 < Timeout c \<and> Timeout c \<le> max_duration
     \<and> 0 < ResetTimeout c \<and> 0 < SuccessThreshold c"

definition breaker_inv :: "CircuitBreaker \<Rightarrow> bool" where
  "breaker_inv cb \<longleftrightarrow> config_ok (cbConfig cb)
     \<and> 0 \<le> failures cb \<and> 0 \<le> successes cb
     \<and> 0 \<le> halfOpenInFlight cb \<and> halfOpenInFlight cb \<le> SuccessThreshold (cbConfig cb)
     \<and> (cbState cb = StateClosed \<longrightarrow> failures cb < MaxFailures (cbConfig cb))
     \<and> 0 \<le> failedRequests cb \<and> 0 \<le> blockedRequests cb
     \<and> blockedRequests cb \<le> totalRequests cb"

lemma config_ok_New:
  "Timeout c \<le> max_duration \<Longrightarrow> config_ok (cbConfig (NewCircuitBreaker c))"
  by (simp add: NewCircuitBreaker_def config_ok_def Let_def second_def max_duration_def)

lemma New_inv: "Timeout c \<le> max_duration \<Longrightarrow> breaker_inv (NewCircuitBreaker c)"
  using config_ok_New [of c]
  by (simp add: breaker_inv_def) (simp add: NewCircuitBreaker_def Let_def config_ok_def)

lemma setStateUnsafe_simps [breaker_simps]:
  "cbConfig (setStateUnsafe s cb) = cbConfig cb"
  "cbState (setStateUnsafe s cb) = s"
  "failures (setStateUnsafe s cb) = failures cb"
  "successes (setStateUnsafe s cb) = successes cb"
  "lastFailureTime (setStateUnsafe s cb) = lastFailureTime cb"
  "totalRequests (setStateUnsafe s cb) = totalRequests cb"
  "failedRequests (setStateUnsafe s cb) = failedRequests cb"
  "blockedRequests (setStateUnsafe s cb) = blockedRequests cb"
  "stateChanges (setStateUnsafe s cb) = stateChanges cb + 1"
  "halfOpenInFlight (setStateUnsafe s cb) =
     (if cbState cb = StateHalfOpen \<and> s \<noteq> StateHalfOpen then 0 else halfOpenInFlight cb)"
  "onStateChange (setStateUnsafe s cb) = onStateChange cb"
  "launched (setStateUnsafe s cb) =
     launched cb @ (if onStateChange cb then [(cbState cb, s)] else [])"
  by (auto simp: setStateUnsafe_def startCallback_def Let_def)

declare setStateUnsafe_simps [simp]

lemma startCallback_simps [simp]:
  "cbConfig (startCallback a b cb) = cbConfig cb"
  "cbState (startCallback a b cb) = cbState cb"
  "failures (startCallback a b cb) = failures cb"
  "successes (startCallback a b cb) = successes cb"
  "lastFailureTime (startCallback a b cb) = lastFailureTime cb"
  "halfOpenInFlight (startCallback a b cb) = halfOpenInFlight cb"
  "totalRequests (startCallback a b cb) = totalRequests cb"
  "failedRequests (startCallback a b cb) = failedRequests cb"
  "blockedRequests (startCallback a b cb) = blockedRequests cb"
  "stateChanges (startCallback a b cb) = stateChanges cb"
  by (simp_all add: startCallback_def)

lemma checkCanExecute_inv:
  "breaker_inv cb \<Longrightarrow> breaker_inv (snd (checkCanExecute now cb))"
  by (cases "cbState cb")
    (auto simp: checkCanExecute_def canExecuteUnsafe.simps breaker_inv_def config_ok_def
      Let_def split: prod.splits)

lemma onFailure_inv: "breaker_inv cb \<Longrightarrow> breaker_inv (onFailure now cb)"
  by (cases "cbState cb") (auto simp: onFailure_def breaker_inv_def Let_def)

lemma onSuccess_inv: "breaker_inv cb \<Longrightarrow> breaker_inv (onSuccess cb)"
  by (cases "cbState cb")
    (auto simp: onSuccess_def breaker_inv_def config_ok_def Let_def)

lemma release_slot_inv:
  "breaker_inv cb \<Longrightarrow> 0 < halfOpenInFlight cb
     \<Longrightarrow> breaker_inv (cb\<lparr>halfOpenInFlight := halfOpenInFlight cb - 1\<rparr>)"
  by (auto simp: breaker_inv_def)

lemma recordResult_inv: "breaker_inv cb \<Longrightarrow> breaker_inv (recordResult now err cb)"
  by (auto simp: recordResult_def Let_def intro!: onFailure_inv onSuccess_inv release_slot_inv)

lemma Reset_inv: "breaker_inv cb \<Longrightarrow> breaker_inv (Reset cb)"
  by (auto simp: Reset_def breaker_inv_def config_ok_def)

lemma ForceOpen_inv: "breaker_inv cb \<Longrightarrow> breaker_inv (ForceOpen cb)"
  by (auto simp: ForceOpen_def breaker_inv_def)

lemmas breaker_inv_ops = checkCanExecute_inv recordResult_inv Reset_inv ForceOpen_inv

subsection \<open>The behaviour of each operation, branch by branch\<close>

lemma checkCanExecute_closed:
  "cbState cb = StateClosed \<Longrightarrow> checkCanExecute now cb =
     (True, cb\<lparr>totalRequests := totalRequests cb + 1,
               failures := (if 0 < failures cb
                              \<and> Timeout (cbConfig cb) \<le> time_Sub now (lastFailureTime cb)
                            then 0 else failures cb)\<rparr>)"
  by (simp add: checkCanExecute_def canExecuteUnsafe.simps Let_def)

lemma checkCanExecute_open_early:
  "cbState cb = StateOpen \<Longrightarrow> time_Sub now (lastFailureTime cb) < Timeout (cbConfig cb)
     \<Longrightarrow> checkCanExecute now cb =
       (False, cb\<lparr>totalRequests := totalRequests cb + 1,
                  blockedRequests := blockedRequests cb + 1\<rparr>)"
  by (simp add: checkCanExecute_def canExecuteUnsafe.simps Let_def)

lemma checkCanExecute_open_late:
  "cbState cb = StateOpen \<Longrightarrow> Timeout (cbConfig cb) \<le> time_Sub now (lastFailureTime cb)
     \<Longrightarrow> checkCanExecute now cb =
       (True, (setStateUnsafe StateHalfOpen (cb\<lparr>totalRequests := totalRequests cb + 1\<rparr>))
                \<lparr>halfOpenInFlight := 1\<rparr>)"
  by (simp add: checkCanExecute_def canExecuteUnsafe.simps Let_def)

lemma checkCanExecute_half_full:
  "cbState cb = StateHalfOpen \<Longrightarrow> SuccessThreshold (cbConfig cb) \<le> halfOpenInFlight cb
     \<Longrightarrow> checkCanExecute now cb =
       (False, cb\<lparr>totalRequests := totalRequests cb + 1,
                  blockedRequests := blockedRequests cb + 1\<rparr>)"
  by (simp add: checkCanExecute_def canExecuteUnsafe.simps Let_def)

lemma checkCanExecute_half_free:
  "cbState cb = StateHalfOpen \<Longrightarrow> halfOpenInFlight cb < SuccessThreshold (cbConfig cb)
     \<Longrightarrow> checkCanExecute now cb =
       (True, cb\<lparr>totalRequests := totalRequests cb + 1,
                 halfOpenInFlight := halfOpenInFlight cb + 1\<rparr>)"
  by (simp add: checkCanExecute_def canExecuteUnsafe.simps Let_def)

lemmas checkCanExecute_cases =
  checkCanExecute_closed checkCanExecute_open_early checkCanExecute_open_late
  checkCanExecute_half_full checkCanExecute_half_free

subsection \<open>Sequential calls\<close>

text \<open>
  One whole call at a time: admission at \<open>t\<close>, and, if admitted, the result recorded at the
  same instant. This is \<open>Call\<close> of a function that takes no time and does not touch the
  breaker, and it is how one collector drives it.
\<close>

definition breaker_call :: "time \<times> bool \<Rightarrow> CircuitBreaker \<Rightarrow> CircuitBreaker" where
  "breaker_call ev cb =
     (case ev of (t, good) \<Rightarrow>
        (case checkCanExecute t cb of
           (False, cb1) \<Rightarrow> cb1
         | (True, cb1) \<Rightarrow> recordResult t (if good then None else Some ()) cb1))"

definition breaker_calls :: "(time \<times> bool) list \<Rightarrow> CircuitBreaker \<Rightarrow> CircuitBreaker" where
  "breaker_calls evs cb = fold breaker_call evs cb"

lemma breaker_calls_simps [simp]:
  "breaker_calls [] cb = cb"
  "breaker_calls (ev # evs) cb = breaker_calls evs (breaker_call ev cb)"
  by (simp_all add: breaker_calls_def)

lemma breaker_calls_append:
  "breaker_calls (xs @ ys) cb = breaker_calls ys (breaker_calls xs cb)"
  by (simp add: breaker_calls_def)

lemma breaker_call_Call:
  "Call (\<lambda>_. t) (Some (\<lambda>w. (if good then None else Some (), w))) cb w =
     (if fst (checkCanExecute t cb) then (if good then None else Some (FunctionError ()))
      else Some ErrCircuitBreakerOpen, breaker_call (t, good) cb, w)"
  by (auto simp: Call_def breaker_call_def split: prod.splits)

lemma breaker_call_inv: "breaker_inv cb \<Longrightarrow> breaker_inv (breaker_call ev cb)"
  using checkCanExecute_inv [of cb "fst ev"]
  by (auto simp: breaker_call_def intro!: recordResult_inv split: prod.splits bool.splits)

interpretation bc: guarded_machine breaker_call "\<lambda>_. True" breaker_inv
  by unfold_locales (rule breaker_call_inv)

lemma breaker_calls_inv: "breaker_inv cb \<Longrightarrow> breaker_inv (breaker_calls evs cb)"
  by (simp add: breaker_calls_def bc.run_inv list.pred_True)

subsection \<open>The contract: a failure counter, an open window, a run of probes\<close>

text \<open>
  What the breaker promises a sequential caller, without its bookkeeping. \<open>Up k tf\<close>: closed,
  \<open>k\<close> failures in a row, the last at \<open>tf\<close>; \<open>Down tf\<close>: open since the failure at \<open>tf\<close>;
  \<open>Probing s tf\<close>: half-open with \<open>s\<close> successful probes.
\<close>

datatype breaker_spec = Up int time | Down time | Probing int time

fun spec_admits :: "CircuitBreakerConfig \<Rightarrow> time \<Rightarrow> breaker_spec \<Rightarrow> bool" where
  "spec_admits c t (Down tf) = (Timeout c \<le> time_Sub t tf)"
| "spec_admits c t _ = True"

fun spec_call :: "CircuitBreakerConfig \<Rightarrow> time \<times> bool \<Rightarrow> breaker_spec \<Rightarrow> breaker_spec" where
  "spec_call c (t, good) (Up k tf) =
     (if good then Up 0 tf
      else let k' = (if 0 < k \<and> Timeout c \<le> time_Sub t tf then 0 else k) + 1
           in if MaxFailures c \<le> k' then Down t else Up k' t)"
| "spec_call c (t, good) (Down tf) =
     (if time_Sub t tf < Timeout c then Down tf
      else if \<not> good then Down t
      else if SuccessThreshold c \<le> 1 then Up 0 tf else Probing 1 tf)"
| "spec_call c (t, good) (Probing s tf) =
     (if \<not> good then Down t
      else if SuccessThreshold c \<le> s + 1 then Up 0 tf else Probing (s + 1) tf)"

definition spec_abs :: "CircuitBreaker \<Rightarrow> breaker_spec" where
  "spec_abs cb =
     (case cbState cb of
        StateClosed \<Rightarrow> Up (failures cb) (lastFailureTime cb)
      | StateOpen \<Rightarrow> Down (lastFailureTime cb)
      | StateHalfOpen \<Rightarrow> Probing (successes cb) (lastFailureTime cb))"

text \<open>What holds between sequential calls beside the invariant of all interleavings.\<close>

definition quiescent :: "CircuitBreaker \<Rightarrow> bool" where
  "quiescent cb \<longleftrightarrow> breaker_inv cb
     \<and> (cbState cb = StateHalfOpen \<longrightarrow> halfOpenInFlight cb = 0
          \<and> successes cb < SuccessThreshold (cbConfig cb))
     \<and> (cbState cb = StateOpen \<longrightarrow> successes cb = 0)"

lemma New_quiescent: "Timeout c \<le> max_duration \<Longrightarrow> quiescent (NewCircuitBreaker c)"
  using New_inv [of c] by (simp add: quiescent_def) (simp add: NewCircuitBreaker_def Let_def)

lemma breaker_call_config [simp]: "cbConfig (breaker_call ev cb) = cbConfig cb"
  by (cases "cbState cb")
    (auto simp: breaker_call_def checkCanExecute_def canExecuteUnsafe.simps recordResult_def
      onFailure_def onSuccess_def Let_def split: prod.splits bool.splits State.splits)

lemma breaker_calls_config [simp]: "cbConfig (breaker_calls evs cb) = cbConfig cb"
  by (induction evs arbitrary: cb) auto

lemma breaker_call_blocked:
  "cbState cb = StateOpen \<Longrightarrow> time_Sub t (lastFailureTime cb) < Timeout (cbConfig cb)
     \<Longrightarrow> breaker_call (t, good) cb =
       cb\<lparr>totalRequests := totalRequests cb + 1, blockedRequests := blockedRequests cb + 1\<rparr>"
  by (simp add: breaker_call_def checkCanExecute_open_early)

lemma breaker_call_quiescent:
  assumes "quiescent cb"
  shows "quiescent (breaker_call ev cb)"
proof -
  obtain t good where ev: "ev = (t, good)" by (cases ev)
  have inv: "breaker_inv (breaker_call ev cb)"
    using assms by (auto simp: quiescent_def intro: breaker_call_inv)
  moreover have "cbState (breaker_call ev cb) = StateHalfOpen \<Longrightarrow>
      halfOpenInFlight (breaker_call ev cb) = 0
        \<and> successes (breaker_call ev cb) < SuccessThreshold (cbConfig cb)"
    using assms unfolding ev
    by (cases "cbState cb")
      (auto simp: quiescent_def breaker_inv_def config_ok_def breaker_call_def
        checkCanExecute_def canExecuteUnsafe.simps recordResult_def onFailure_def onSuccess_def
        Let_def split: if_splits)
  moreover have "cbState (breaker_call ev cb) = StateOpen \<Longrightarrow> successes (breaker_call ev cb) = 0"
    using assms unfolding ev
    by (cases "cbState cb")
      (auto simp: quiescent_def breaker_inv_def config_ok_def breaker_call_def
        checkCanExecute_def canExecuteUnsafe.simps recordResult_def onFailure_def onSuccess_def
        Let_def split: if_splits)
  ultimately show ?thesis by (simp add: quiescent_def)
qed

lemma breaker_call_refines:
  assumes "quiescent cb"
  shows "spec_abs (breaker_call ev cb) = spec_call (cbConfig cb) ev (spec_abs cb)"
    and "fst (checkCanExecute (fst ev) cb) = spec_admits (cbConfig cb) (fst ev) (spec_abs cb)"
proof -
  obtain t good where ev: "ev = (t, good)" by (cases ev)
  show "spec_abs (breaker_call ev cb) = spec_call (cbConfig cb) ev (spec_abs cb)"
    using assms unfolding ev
    by (cases "cbState cb")
      (auto simp: quiescent_def breaker_inv_def config_ok_def breaker_call_def spec_abs_def
        checkCanExecute_def canExecuteUnsafe.simps recordResult_def onFailure_def onSuccess_def
        Let_def split: if_splits)
  show "fst (checkCanExecute (fst ev) cb) = spec_admits (cbConfig cb) (fst ev) (spec_abs cb)"
    using assms unfolding ev
    by (cases "cbState cb")
      (auto simp: quiescent_def breaker_inv_def config_ok_def spec_abs_def
        checkCanExecute_def canExecuteUnsafe.simps Let_def split: if_splits)
qed

interpretation sp: refining_machine breaker_call "\<lambda>_. True" "\<lambda>cb. quiescent cb \<and> cbConfig cb = c" "spec_call c" spec_abs for c
  by unfold_locales (auto simp: breaker_call_quiescent breaker_call_refines)

lemma breaker_calls_quiescent: "quiescent cb \<Longrightarrow> quiescent (breaker_calls evs cb)"
  using sp.run_inv [of evs cb "cbConfig cb"] by (simp add: breaker_calls_def list.pred_True)

lemma breaker_calls_refines:
  "quiescent cb \<Longrightarrow>
     spec_abs (breaker_calls evs cb) = fold (spec_call (cbConfig cb)) evs (spec_abs cb)"
  using sp.abs_run [of evs cb "cbConfig cb"] by (simp add: breaker_calls_def list.pred_True)

subsection \<open>Runs of the contract\<close>

fun close_together :: "duration \<Rightarrow> time list \<Rightarrow> bool" where
  "close_together d (t # u # ts) = (time_Sub u t < d \<and> close_together d (u # ts))"
| "close_together d _ = True"

fun far_apart :: "duration \<Rightarrow> time list \<Rightarrow> bool" where
  "far_apart d (t # u # ts) = (d \<le> time_Sub u t \<and> far_apart d (u # ts))"
| "far_apart d _ = True"

abbreviation "fails ts \<equiv> map (\<lambda>t. (t, False)) ts"
abbreviation "succeeds ts \<equiv> map (\<lambda>t. (t, True)) ts"

lemma spec_fails_streak:
  "close_together (Timeout c) (tf # ts) \<Longrightarrow> 0 < k \<Longrightarrow> k + int (length ts) \<le> MaxFailures c
     \<Longrightarrow> k < MaxFailures c \<Longrightarrow> fold (spec_call c) (fails ts) (Up k tf) =
       (if k + int (length ts) = MaxFailures c then Down (last (tf # ts))
        else Up (k + int (length ts)) (last (tf # ts)))"
proof (induction ts arbitrary: k tf)
  case Nil
  then show ?case by simp
next
  case (Cons t ts)
  show ?case
  proof (cases "MaxFailures c \<le> k + 1")
    case True
    with Cons.prems have "ts = []" by (cases ts) auto
    with True Cons.prems show ?thesis by simp
  next
    case False
    with Cons.prems Cons.IH [of t "k + 1"] show ?thesis by (simp add: Let_def algebra_simps)
  qed
qed

lemma spec_fails_drip:
  "far_apart (Timeout c) (tf # ts) \<Longrightarrow> 1 < MaxFailures c \<Longrightarrow>
     fold (spec_call c) (fails ts) (Up 1 tf) = Up 1 (last (tf # ts))"
  by (induction ts arbitrary: tf) (auto simp: Let_def)

lemma spec_succeeds_probing:
  "0 < s \<Longrightarrow> s < SuccessThreshold c \<Longrightarrow> s + int (length ts) \<le> SuccessThreshold c \<Longrightarrow>
     fold (spec_call c) (succeeds ts) (Probing s tf) =
       (if s + int (length ts) = SuccessThreshold c then Up 0 tf else Probing (s + int (length ts)) tf)"
proof (induction ts arbitrary: s)
  case Nil
  then show ?case by simp
next
  case (Cons t ts)
  show ?case
  proof (cases "SuccessThreshold c \<le> s + 1")
    case True
    with Cons.prems have "ts = []" by (cases ts) auto
    with True Cons.prems show ?thesis by simp
  next
    case False
    with Cons.prems Cons.IH [of "s + 1"] show ?thesis by (simp add: algebra_simps)
  qed
qed

lemma spec_abs_Up: "spec_abs cb = Up k tf \<Longrightarrow> cbState cb = StateClosed \<and> failures cb = k"
  by (cases "cbState cb") (auto simp: spec_abs_def)

lemma spec_abs_Down: "spec_abs cb = Down tf \<Longrightarrow> cbState cb = StateOpen"
  by (cases "cbState cb") (auto simp: spec_abs_def)

lemma spec_abs_Probing: "spec_abs cb = Probing n tf \<Longrightarrow> cbState cb = StateHalfOpen"
  by (cases "cbState cb") (auto simp: spec_abs_def)

lemma spec_abs_closed [simp]:
  "cbState cb = StateClosed \<Longrightarrow> spec_abs cb = Up (failures cb) (lastFailureTime cb)"
  by (simp add: spec_abs_def)

lemma spec_abs_open [simp]:
  "cbState cb = StateOpen \<Longrightarrow> spec_abs cb = Down (lastFailureTime cb)"
  by (simp add: spec_abs_def)

lemma fails_from_zero:
  assumes "quiescent cb" "cbState cb = StateClosed" "failures cb = 0"
  shows "spec_abs (breaker_calls (fails (t # ts)) cb) =
    fold (spec_call (cbConfig cb)) (fails ts)
      (if MaxFailures (cbConfig cb) \<le> 1 then Down t else Up 1 t)"
  using assms breaker_calls_refines [OF assms(1), of "fails (t # ts)"] by (simp add: Let_def)

subsection \<open>Behaviour independent of a configuration field\<close>

definition set_reset_timeout :: "duration \<Rightarrow> CircuitBreaker \<Rightarrow> CircuitBreaker" where
  "set_reset_timeout d cb = cb\<lparr>cbConfig := (cbConfig cb)\<lparr>ResetTimeout := d\<rparr>\<rparr>"

lemma setStateUnsafe_reset_timeout:
  "setStateUnsafe st (set_reset_timeout d cb) = set_reset_timeout d (setStateUnsafe st cb)"
  by (simp add: set_reset_timeout_def setStateUnsafe_def startCallback_def Let_def)

lemma checkCanExecute_reset_timeout:
  "checkCanExecute t (set_reset_timeout d cb) =
     map_prod id (set_reset_timeout d) (checkCanExecute t cb)"
  by (cases "cbState cb")
    (auto simp: set_reset_timeout_def checkCanExecute_def canExecuteUnsafe.simps
      setStateUnsafe_def startCallback_def Let_def)

lemma onFailure_reset_timeout:
  "onFailure t (set_reset_timeout d cb) = set_reset_timeout d (onFailure t cb)"
  by (cases "cbState cb")
    (auto simp: set_reset_timeout_def onFailure_def setStateUnsafe_def startCallback_def Let_def)

lemma onSuccess_reset_timeout:
  "onSuccess (set_reset_timeout d cb) = set_reset_timeout d (onSuccess cb)"
  by (cases "cbState cb")
    (auto simp: set_reset_timeout_def onSuccess_def setStateUnsafe_def startCallback_def Let_def)

lemma recordResult_reset_timeout:
  "recordResult t err (set_reset_timeout d cb) = set_reset_timeout d (recordResult t err cb)"
proof -
  have "(set_reset_timeout d cb)\<lparr>halfOpenInFlight := n\<rparr>
      = set_reset_timeout d (cb\<lparr>halfOpenInFlight := n\<rparr>)" for n
    by (simp add: set_reset_timeout_def)
  moreover have "cbState (set_reset_timeout d cb) = cbState cb"
    "halfOpenInFlight (set_reset_timeout d cb) = halfOpenInFlight cb"
    by (simp_all add: set_reset_timeout_def)
  ultimately show ?thesis
    by (simp add: recordResult_def onFailure_reset_timeout onSuccess_reset_timeout)
qed

lemma breaker_call_reset_timeout:
  "breaker_call ev (set_reset_timeout d cb) = set_reset_timeout d (breaker_call ev cb)"
  by (cases ev; cases "checkCanExecute (fst ev) cb")
    (auto simp: breaker_call_def checkCanExecute_reset_timeout recordResult_reset_timeout
      split: bool.splits)

subsection \<open>Properties\<close>

text \<open>C1. Every sequential history of calls drives the breaker as its contract says, from the
  freshly built breaker on, and the next call is admitted exactly when the contract admits it.\<close>

theorem breaker_implements_contract:
  assumes "Timeout c \<le> max_duration"
  shows "spec_abs (breaker_calls evs (NewCircuitBreaker c))
      = fold (spec_call (cbConfig (NewCircuitBreaker c))) evs (Up 0 zero_time)
    \<and> fst (checkCanExecute t (breaker_calls evs (NewCircuitBreaker c)))
      = spec_admits (cbConfig (NewCircuitBreaker c)) t
          (spec_abs (breaker_calls evs (NewCircuitBreaker c)))"
proof -
  have q: "quiescent (NewCircuitBreaker c)" using assms by (rule New_quiescent)
  have a: "spec_abs (NewCircuitBreaker c) = Up 0 zero_time"
    by (simp add: spec_abs_def NewCircuitBreaker_def Let_def)
  show ?thesis
    using breaker_calls_refines [OF q, of evs] a
      breaker_call_refines(2) [OF breaker_calls_quiescent [OF q, of evs], of "(t, True)"]
    by simp
qed

theorem breaker_implements_contract_witness:
  "spec_abs (breaker_calls [(7, False), (9, True)] (NewCircuitBreaker DefaultCircuitBreakerConfig))
     = fold (spec_call (cbConfig (NewCircuitBreaker DefaultCircuitBreakerConfig)))
         [(7, False), (9, True)] (Up 0 zero_time)"
  using breaker_implements_contract [of DefaultCircuitBreakerConfig "[(7, False), (9, True)]" 10]
  by (simp add: DefaultCircuitBreakerConfig_def max_duration_def second_def)

text \<open>C27. From a closed breaker with no failure on record, calls that fail within Timeout of
  each other leave it closed until their number reaches MaxFailures, and open it then.\<close>

theorem consecutive_failures_open:
  assumes "quiescent cb" "cbState cb = StateClosed" "failures cb = 0"
    and "close_together (Timeout (cbConfig cb)) ts"
    and "int (length ts) \<le> MaxFailures (cbConfig cb)"
  shows "cbState (breaker_calls (fails ts) cb) =
    (if int (length ts) = MaxFailures (cbConfig cb) then StateOpen else StateClosed)"
proof (cases ts)
  case Nil
  with assms show ?thesis by (auto simp: quiescent_def breaker_inv_def config_ok_def)
next
  case (Cons t us)
  have "0 < MaxFailures (cbConfig cb)"
    using assms(1) by (simp add: quiescent_def breaker_inv_def config_ok_def)
  moreover have "spec_abs (breaker_calls (fails ts) cb) =
      (if int (length ts) = MaxFailures (cbConfig cb) then Down (last ts)
       else Up (int (length ts)) (last ts))"
    using Cons assms calculation fails_from_zero [OF assms(1-3), of t us]
      spec_fails_streak [of "cbConfig cb" t us 1]
    by (cases us) simp_all
  ultimately show ?thesis
    by (auto dest: spec_abs_Up spec_abs_Down split: if_splits)
qed

theorem consecutive_failures_open_witness:
  "cbState (breaker_calls (fails [1, 2, 3, 4, 5]) (NewCircuitBreaker DefaultCircuitBreakerConfig))
     = StateOpen"
proof -
  let ?cb = "NewCircuitBreaker DefaultCircuitBreakerConfig"
  have "quiescent ?cb"
    by (rule New_quiescent) (simp add: DefaultCircuitBreakerConfig_def max_duration_def second_def)
  from consecutive_failures_open [OF this, of "[1, 2, 3, 4, 5]"] show ?thesis
    by (simp add: NewCircuitBreaker_def DefaultCircuitBreakerConfig_def Let_def second_def
        time_Sub_def max_duration_def min_duration_def)
qed

text \<open> A slow drip of failures, each at least Timeout after the one before, never opens the
  breaker, however long it goes on (MaxFailures above 1).\<close>

theorem slow_drip_never_opens:
  assumes "quiescent cb" "cbState cb = StateClosed" "failures cb = 0"
    and "far_apart (Timeout (cbConfig cb)) ts" and "1 < MaxFailures (cbConfig cb)"
  shows "cbState (breaker_calls (fails ts) cb) = StateClosed
    \<and> failures (breaker_calls (fails ts) cb) \<le> 1"
proof (cases ts)
  case Nil
  with assms show ?thesis by simp
next
  case (Cons t us)
  have "spec_abs (breaker_calls (fails ts) cb) = Up 1 (last ts)"
    using Cons assms fails_from_zero [OF assms(1-3), of t us] spec_fails_drip [of "cbConfig cb" t us]
    by simp
  then show ?thesis by (auto dest: spec_abs_Up)
qed

theorem slow_drip_never_opens_witness:
  "cbState (breaker_calls (fails [0, 40000000000, 80000000000])
     (NewCircuitBreaker DefaultCircuitBreakerConfig)) = StateClosed"
proof -
  let ?cb = "NewCircuitBreaker DefaultCircuitBreakerConfig"
  have "quiescent ?cb"
    by (rule New_quiescent) (simp add: DefaultCircuitBreakerConfig_def max_duration_def second_def)
  from slow_drip_never_opens [OF this, of "[0, 40000000000, 80000000000]"] show ?thesis
    by (simp add: NewCircuitBreaker_def DefaultCircuitBreakerConfig_def Let_def second_def
        time_Sub_def max_duration_def min_duration_def)
qed

text \<open>While the breaker is open and Timeout has not passed since the last failure, a call
  returns ErrCircuitBreakerOpen without running the protected function: the program's state is
  untouched and only the request and block counters of the breaker move.\<close>

theorem open_breaker_rejects:
  assumes "cbState cb = StateOpen"
    and "time_Sub (clk w) (lastFailureTime cb) < Timeout (cbConfig cb)"
  shows "Call clk (Some fn) cb w =
    (Some ErrCircuitBreakerOpen,
     cb\<lparr>totalRequests := totalRequests cb + 1, blockedRequests := blockedRequests cb + 1\<rparr>, w)"
  using assms by (simp add: Call_def checkCanExecute_open_early)

theorem open_breaker_rejects_witness:
  "fst (Call (\<lambda>w. w) (Some (\<lambda>w. (None :: string option, w + 1)))
     ((NewCircuitBreaker DefaultCircuitBreakerConfig)
        \<lparr>cbState := StateOpen, lastFailureTime := 100\<rparr>) (200 :: int))
   = Some ErrCircuitBreakerOpen"
  by (subst open_breaker_rejects)
    (simp_all add: NewCircuitBreaker_def DefaultCircuitBreakerConfig_def Let_def second_def
      time_Sub_def max_duration_def min_duration_def)

text \<open>C28. Once Timeout has passed, the open breaker admits probes: it stays half-open while fewer
  than SuccessThreshold have succeeded and closes, with a clean failure count, at that many.\<close>

theorem successful_probes_close:
  assumes "quiescent cb" "cbState cb = StateOpen"
    and "Timeout (cbConfig cb) \<le> time_Sub t (lastFailureTime cb)"
    and "int (length (t # ts)) \<le> SuccessThreshold (cbConfig cb)"
  shows "cbState (breaker_calls (succeeds (t # ts)) cb) =
      (if int (length (t # ts)) = SuccessThreshold (cbConfig cb) then StateClosed else StateHalfOpen)
    \<and> (cbState (breaker_calls (succeeds (t # ts)) cb) = StateClosed
         \<longrightarrow> failures (breaker_calls (succeeds (t # ts)) cb) = 0)"
proof -
  let ?cb = "breaker_calls (succeeds (t # ts)) cb"
  have "spec_abs ?cb = fold (spec_call (cbConfig cb)) (succeeds ts)
      (if SuccessThreshold (cbConfig cb) \<le> 1 then Up 0 (lastFailureTime cb)
       else Probing 1 (lastFailureTime cb))"
    using breaker_calls_refines [OF assms(1), of "succeeds (t # ts)"] assms(2,3) by simp
  with assms(4) have "spec_abs ?cb =
      (if int (length (t # ts)) = SuccessThreshold (cbConfig cb) then Up 0 (lastFailureTime cb)
       else Probing (int (length (t # ts))) (lastFailureTime cb))"
    using spec_succeeds_probing [of 1 "cbConfig cb" ts "lastFailureTime cb"]
    by (cases ts) simp_all
  then show ?thesis
    by (auto dest: spec_abs_Up spec_abs_Probing split: if_splits)
qed

theorem successful_probes_close_witness:
  "cbState (breaker_calls (succeeds [40000000000, 40000000001])
     ((NewCircuitBreaker DefaultCircuitBreakerConfig)\<lparr>cbState := StateOpen, failures := 5,
        lastFailureTime := 3\<rparr>)) = StateClosed"
proof -
  let ?cb = "(NewCircuitBreaker DefaultCircuitBreakerConfig)\<lparr>cbState := StateOpen, failures := 5,
        lastFailureTime := 3\<rparr>"
  have "quiescent ?cb"
    by (simp add: quiescent_def breaker_inv_def config_ok_def NewCircuitBreaker_def
        DefaultCircuitBreakerConfig_def Let_def second_def max_duration_def)
  from successful_probes_close [OF this, of 40000000000 "[40000000001]"] show ?thesis
    by (simp add: NewCircuitBreaker_def DefaultCircuitBreakerConfig_def Let_def second_def
        time_Sub_def max_duration_def min_duration_def)
qed

text \<open> The ResetTimeout setting has no effect: two breakers that differ in it only admit the
  same calls and stay the same, apart from that field, through every history.\<close>

theorem reset_timeout_unused:
  "breaker_calls evs (set_reset_timeout d cb) = set_reset_timeout d (breaker_calls evs cb)
   \<and> fst (checkCanExecute t (breaker_calls evs (set_reset_timeout d cb)))
       = fst (checkCanExecute t (breaker_calls evs cb))"
proof -
  have "breaker_calls evs (set_reset_timeout d cb) = set_reset_timeout d (breaker_calls evs cb)"
    by (induction evs arbitrary: cb) (auto simp: breaker_call_reset_timeout)
  then show ?thesis by (simp add: checkCanExecute_reset_timeout)
qed

text \<open>ForceOpen does not hold the breaker open: on a breaker whose last failure is at least
  Timeout ago, such as one that never failed, the next request is admitted.\<close>

theorem force_open_does_not_hold:
  assumes "Timeout (cbConfig cb) \<le> time_Sub t (lastFailureTime cb)"
    and "cbState cb = StateClosed"
  shows "cbState (ForceOpen cb) = StateOpen
    \<and> fst (checkCanExecute t (ForceOpen cb))
    \<and> cbState (snd (checkCanExecute t (ForceOpen cb))) = StateHalfOpen"
  using assms by (simp add: ForceOpen_def checkCanExecute_open_late)

theorem force_open_does_not_hold_witness:
  "fst (checkCanExecute 63000000000000000000
     (ForceOpen (NewCircuitBreaker DefaultCircuitBreakerConfig)))"
  using force_open_does_not_hold [of "NewCircuitBreaker DefaultCircuitBreakerConfig"
      63000000000000000000]
  by (simp add: NewCircuitBreaker_def DefaultCircuitBreakerConfig_def Let_def second_def
      time_Sub_def max_duration_def min_duration_def zero_time_def)

text \<open> A probe that never reports its result (the protected function panics) keeps its slot: once
  SuccessThreshold slots are lost this way, the half-open breaker rejects every later call, at
  any time, and never leaves the half-open state.\<close>

theorem lost_probes_wedge_breaker:
  assumes "cbState cb = StateHalfOpen"
    and "SuccessThreshold (cbConfig cb) \<le> halfOpenInFlight cb"
  shows "cbState (breaker_calls evs cb) = StateHalfOpen
    \<and> \<not> fst (checkCanExecute t (breaker_calls evs cb))"
proof -
  have "cbState (breaker_calls evs cb) = StateHalfOpen
      \<and> SuccessThreshold (cbConfig (breaker_calls evs cb)) \<le> halfOpenInFlight (breaker_calls evs cb)"
    using assms
  proof (induction evs arbitrary: cb)
    case (Cons ev evs)
    obtain u good where ev: "ev = (u, good)" by (cases ev)
    from Cons.prems have "breaker_call ev cb =
        cb\<lparr>totalRequests := totalRequests cb + 1, blockedRequests := blockedRequests cb + 1\<rparr>"
      by (simp add: ev breaker_call_def checkCanExecute_half_full)
    then show ?case using Cons.IH [of "breaker_call ev cb"] Cons.prems by simp
  qed simp
  then show ?thesis by (simp add: checkCanExecute_half_full)
qed

theorem lost_probes_wedge_breaker_witness:
  "\<not> fst (checkCanExecute 99 (breaker_calls [(5, True)]
     ((NewCircuitBreaker DefaultCircuitBreakerConfig)
        \<lparr>cbState := StateHalfOpen, halfOpenInFlight := 2\<rparr>)))"
  using lost_probes_wedge_breaker [of "(NewCircuitBreaker DefaultCircuitBreakerConfig)
        \<lparr>cbState := StateHalfOpen, halfOpenInFlight := 2\<rparr>" "[(5, True)]" 99]
  by (simp add: NewCircuitBreaker_def DefaultCircuitBreakerConfig_def Let_def)

end
