(* ===== verification/BreakerSystem.thy ===== *)
theory BreakerSystem
  imports CircuitBreaker
begin

section \<open>The breaker under concurrent callers\<close>

text \<open>
  Many goroutines share one breaker. A request is admitted by \<open>checkCanExecute\<close>, runs outside
  the mutex, and reports through \<open>recordResult\<close>, in any order. The state holds the breaker,
  the clock, and for each running request the number of state changes when it was admitted
  (its epoch). Two ghost counters are kept for the statements: \<open>bs_finished\<close>, the requests that
  have reported, and \<open>bs_stale\<close>, the reports of requests of an earlier epoch received in the
  current one.
\<close>

record breaker_sys =
  bs_cb :: CircuitBreaker
  bs_now :: time
  bs_running :: "int list"
  bs_finished :: int
  bs_stale :: int

definition bs_init :: "CircuitBreakerConfig \<Rightarrow> time \<Rightarrow> breaker_sys" where
  "bs_init c t = \<lparr>bs_cb = NewCircuitBreaker c, bs_now = t, bs_running = [],
                  bs_finished = 0, bs_stale = 0\<rparr>"

text \<open>The ghost counter of stale reports restarts whenever the breaker changes state.\<close>

definition bs_set :: "CircuitBreaker \<Rightarrow> int \<Rightarrow> breaker_sys \<Rightarrow> breaker_sys" where
  "bs_set cb' d s =
     s\<lparr>bs_cb := cb',
       bs_stale := (if stateChanges cb' = stateChanges (bs_cb s) then bs_stale s + d else 0)\<rparr>"

inductive breaker_step :: "breaker_sys \<Rightarrow> breaker_sys \<Rightarrow> bool" where
  tick: "bs_now s \<le> t \<Longrightarrow> breaker_step s (s\<lparr>bs_now := t\<rparr>)"
| admit: "checkCanExecute (bs_now s) (bs_cb s) = (True, cb') \<Longrightarrow>
     breaker_step s ((bs_set cb' 0 s)\<lparr>bs_running := bs_running s @ [stateChanges cb']\<rparr>)"
| block: "checkCanExecute (bs_now s) (bs_cb s) = (False, cb') \<Longrightarrow>
     breaker_step s (bs_set cb' 0 s)"
| report: "i < length (bs_running s) \<Longrightarrow> cb' = recordResult (bs_now s) (err :: unit option) (bs_cb s) \<Longrightarrow>
     breaker_step s
       ((bs_set cb' (if bs_running s ! i = stateChanges (bs_cb s) then 0 else 1) s)
          \<lparr>bs_running := remove_at i (bs_running s), bs_finished := bs_finished s + 1\<rparr>)"
| reset: "breaker_step s (bs_set (Reset (bs_cb s)) 0 s)"
| force: "breaker_step s (bs_set (ForceOpen (bs_cb s)) 0 s)"

inductive_cases breaker_stepE: "breaker_step s s'"

inductive breaker_reach :: "CircuitBreakerConfig \<Rightarrow> breaker_sys \<Rightarrow> bool" for c where
  start: "breaker_reach c (bs_init c t)"
| step: "breaker_reach c s \<Longrightarrow> breaker_step s s' \<Longrightarrow> breaker_reach c s'"

text \<open>The probes in flight: running requests admitted in the current epoch.\<close>

definition live :: "breaker_sys \<Rightarrow> int" where
  "live s = int (length (filter (\<lambda>e. e = stateChanges (bs_cb s)) (bs_running s)))"

definition sys_inv :: "breaker_sys \<Rightarrow> bool" where
  "sys_inv s \<longleftrightarrow> breaker_inv (bs_cb s)
     \<and> totalRequests (bs_cb s) = blockedRequests (bs_cb s) + int (length (bs_running s)) + bs_finished s
     \<and> failedRequests (bs_cb s) \<le> bs_finished s
     \<and> 0 \<le> bs_stale s
     \<and> (\<forall>e \<in> set (bs_running s). e \<le> stateChanges (bs_cb s))
     \<and> (cbState (bs_cb s) = StateHalfOpen
          \<longrightarrow> live s \<le> halfOpenInFlight (bs_cb s) + bs_stale s)"

subsection \<open>Counters of a single operation\<close>

lemma checkCanExecute_counts:
  assumes "checkCanExecute now cb = (ok, cb')"
  shows "totalRequests cb' = totalRequests cb + 1"
    and "blockedRequests cb' = blockedRequests cb + (if ok then 0 else 1)"
    and "failedRequests cb' = failedRequests cb"
    and "cbConfig cb' = cbConfig cb"
  using assms
  by (cases "cbState cb"; auto simp: checkCanExecute_def canExecuteUnsafe.simps Let_def
      split: if_splits)+

lemma checkCanExecute_epoch:
  assumes "checkCanExecute now cb = (ok, cb')"
  shows "(stateChanges cb' = stateChanges cb \<and> cbState cb' = cbState cb
            \<and> halfOpenInFlight cb'
                = halfOpenInFlight cb + (if ok \<and> cbState cb = StateHalfOpen then 1 else 0))
      \<or> (ok \<and> stateChanges cb' = stateChanges cb + 1 \<and> cbState cb = StateOpen
            \<and> cbState cb' = StateHalfOpen \<and> halfOpenInFlight cb' = 1)"
  using assms
  by (cases "cbState cb") (auto simp: checkCanExecute_def canExecuteUnsafe.simps Let_def
      split: if_splits)

lemma recordResult_counts:
  "totalRequests (recordResult now err cb) = totalRequests cb"
  "blockedRequests (recordResult now err cb) = blockedRequests cb"
  "failedRequests (recordResult now err cb) = failedRequests cb + (if err = None then 0 else 1)"
  "cbConfig (recordResult now err cb) = cbConfig cb"
  by (cases "cbState cb"; auto simp: recordResult_def onFailure_def onSuccess_def Let_def)+

lemma recordResult_epoch:
  "(stateChanges (recordResult now err cb) = stateChanges cb
      \<and> cbState (recordResult now err cb) = cbState cb
      \<and> (cbState cb = StateHalfOpen \<longrightarrow>
           halfOpenInFlight (recordResult now err cb)
             = (if 0 < halfOpenInFlight cb then halfOpenInFlight cb - 1 else halfOpenInFlight cb)))
   \<or> (stateChanges (recordResult now err cb) = stateChanges cb + 1
      \<and> cbState (recordResult now err cb) \<noteq> StateHalfOpen)"
  by (cases "cbState cb") (auto simp: recordResult_def onFailure_def onSuccess_def Let_def)

lemma manual_counts [simp]:
  "totalRequests (Reset cb) = totalRequests cb" "totalRequests (ForceOpen cb) = totalRequests cb"
  "blockedRequests (Reset cb) = blockedRequests cb" "blockedRequests (ForceOpen cb) = blockedRequests cb"
  "failedRequests (Reset cb) = failedRequests cb" "failedRequests (ForceOpen cb) = failedRequests cb"
  "cbState (Reset cb) = StateClosed" "cbState (ForceOpen cb) = StateOpen"
  "cbConfig (Reset cb) = cbConfig cb" "cbConfig (ForceOpen cb) = cbConfig cb"
  "stateChanges (Reset cb) = stateChanges cb + 1"
  "stateChanges (ForceOpen cb) = (if cbState cb = StateOpen then stateChanges cb else stateChanges cb + 1)"
  by (simp_all add: Reset_def ForceOpen_def)

lemma bs_set_simps [simp]:
  "bs_cb (bs_set cb' d s) = cb'" "bs_now (bs_set cb' d s) = bs_now s"
  "bs_running (bs_set cb' d s) = bs_running s" "bs_finished (bs_set cb' d s) = bs_finished s"
  "bs_stale (bs_set cb' d s)
     = (if stateChanges cb' = stateChanges (bs_cb s) then bs_stale s + d else 0)"
  by (simp_all add: bs_set_def)

lemma set_remove_at: "set (remove_at i xs) \<subseteq> set xs"
  by (auto simp: remove_at_def dest: in_set_takeD in_set_dropD)

lemma length_filter_remove_at:
  assumes "i < length xs"
  shows "int (length (filter P (remove_at i xs)))
           = int (length (filter P xs)) - (if P (xs ! i) then 1 else 0)"
proof -
  have "xs = take i xs @ xs ! i # drop (Suc i) xs"
    using assms by (rule id_take_nth_drop)
  then have "filter P xs = filter P (take i xs) @ filter P (xs ! i # drop (Suc i) xs)"
    by (metis filter_append)
  then show ?thesis by (auto simp: remove_at_def)
qed

lemma no_future_epoch: "\<forall>e\<in>set es. e \<le> (n::int) \<Longrightarrow> filter (\<lambda>e. e = n + 1) es = []"
  by (auto simp: filter_empty_conv)

subsection \<open>Every step keeps the invariant\<close>

lemma sys_inv_admit:
  assumes inv: "sys_inv s" and ok: "checkCanExecute (bs_now s) (bs_cb s) = (True, cb')"
  shows "sys_inv ((bs_set cb' 0 s)\<lparr>bs_running := bs_running s @ [stateChanges cb']\<rparr>)"
proof -
  have "breaker_inv cb'"
    using checkCanExecute_inv [of "bs_cb s" "bs_now s"] inv ok by (simp add: sys_inv_def)
  then show ?thesis
    using inv checkCanExecute_counts [OF ok] checkCanExecute_epoch [OF ok]
      no_future_epoch [of "bs_running s" "stateChanges (bs_cb s)"]
    by (auto simp: sys_inv_def live_def)
qed

lemma sys_inv_block:
  assumes inv: "sys_inv s" and no: "checkCanExecute (bs_now s) (bs_cb s) = (False, cb')"
  shows "sys_inv (bs_set cb' 0 s)"
proof -
  have "breaker_inv cb'"
    using checkCanExecute_inv [of "bs_cb s" "bs_now s"] inv no by (simp add: sys_inv_def)
  then show ?thesis
    using inv checkCanExecute_counts [OF no] checkCanExecute_epoch [OF no]
    by (auto simp: sys_inv_def live_def)
qed

lemma sys_inv_report:
  assumes inv: "sys_inv s" and i: "i < length (bs_running s)"
    and cb': "cb' = recordResult (bs_now s) err (bs_cb s)"
  shows "sys_inv ((bs_set cb' (if bs_running s ! i = stateChanges (bs_cb s) then 0 else 1) s)
           \<lparr>bs_running := remove_at i (bs_running s), bs_finished := bs_finished s + 1\<rparr>)"
proof -
  have b: "breaker_inv cb'"
    using inv cb' recordResult_inv by (auto simp: sys_inv_def)
  have nn: "0 \<le> halfOpenInFlight (bs_cb s)" using inv by (simp add: sys_inv_def breaker_inv_def)
  have nl: "0 \<le> live s" by (simp add: live_def)
  have le: "\<forall>e \<in> set (remove_at i (bs_running s)). e \<le> stateChanges (bs_cb s)"
    using inv set_remove_at [of i "bs_running s"] by (auto simp: sys_inv_def)
  have len: "int (length (remove_at i (bs_running s))) = int (length (bs_running s)) - 1"
    using i by (simp add: length_remove_at)
  show ?thesis
    using inv b nn le len recordResult_counts [of "bs_now s" err "bs_cb s"]
      recordResult_epoch [of "bs_now s" err "bs_cb s"]
      length_filter_remove_at [OF i, of "\<lambda>e. e = stateChanges (bs_cb s)"]
    unfolding cb' [symmetric]
    by (fastforce simp: sys_inv_def live_def)
qed

lemma sys_inv_reset: "sys_inv s \<Longrightarrow> sys_inv (bs_set (Reset (bs_cb s)) 0 s)"
  using Reset_inv [of "bs_cb s"] by (auto simp: sys_inv_def)

lemma sys_inv_force: "sys_inv s \<Longrightarrow> sys_inv (bs_set (ForceOpen (bs_cb s)) 0 s)"
  using ForceOpen_inv [of "bs_cb s"] by (auto simp: sys_inv_def)

lemma breaker_step_inv: "breaker_step s s' \<Longrightarrow> sys_inv s \<Longrightarrow> sys_inv s'"
proof (induction rule: breaker_step.induct)
  case (tick s t)
  then show ?case by (simp add: sys_inv_def live_def)
qed (simp_all only: sys_inv_admit sys_inv_block sys_inv_report sys_inv_reset sys_inv_force)

lemma sys_inv_init: "Timeout c \<le> max_duration \<Longrightarrow> sys_inv (bs_init c t)"
  using New_inv [of c]
  by (simp add: sys_inv_def bs_init_def) (simp add: NewCircuitBreaker_def Let_def)

lemma breaker_reach_inv: "breaker_reach c s \<Longrightarrow> Timeout c \<le> max_duration \<Longrightarrow> sys_inv s"
  by (induction rule: breaker_reach.induct) (auto intro: sys_inv_init breaker_step_inv)

subsection \<open>Executing a schedule\<close>

text \<open>A schedule of events, run on the system: every run is a path of \<open>breaker_step\<close>.\<close>

datatype breaker_event = Wait int | Arrive | Finish nat bool

fun bs_exec :: "breaker_event \<Rightarrow> breaker_sys \<Rightarrow> breaker_sys option" where
  "bs_exec (Wait d) s = (if d < 0 then None else Some (s\<lparr>bs_now := bs_now s + d\<rparr>))"
| "bs_exec Arrive s =
     (case checkCanExecute (bs_now s) (bs_cb s) of
        (True, cb') \<Rightarrow> Some ((bs_set cb' 0 s)\<lparr>bs_running := bs_running s @ [stateChanges cb']\<rparr>)
      | (False, cb') \<Rightarrow> Some (bs_set cb' 0 s))"
| "bs_exec (Finish i good) s =
     (if i < length (bs_running s)
      then Some ((bs_set (recordResult (bs_now s) (if good then None else Some ()) (bs_cb s))
                    (if bs_running s ! i = stateChanges (bs_cb s) then 0 else 1) s)
                   \<lparr>bs_running := remove_at i (bs_running s), bs_finished := bs_finished s + 1\<rparr>)
      else None)"

fun bs_schedule :: "breaker_event list \<Rightarrow> breaker_sys \<Rightarrow> breaker_sys option" where
  "bs_schedule [] s = Some s"
| "bs_schedule (e # es) s = (case bs_exec e s of None \<Rightarrow> None | Some s' \<Rightarrow> bs_schedule es s')"

lemma bs_exec_step: "bs_exec e s = Some s' \<Longrightarrow> breaker_step s s'"
proof (cases e)
  case (Wait d)
  assume "bs_exec e s = Some s'"
  with Wait show ?thesis by (auto intro: breaker_step.tick split: if_splits)
next
  case Arrive
  assume "bs_exec e s = Some s'"
  with Arrive show ?thesis
    by (auto intro: breaker_step.admit breaker_step.block split: prod.splits bool.splits)
next
  case (Finish i good)
  assume "bs_exec e s = Some s'"
  with Finish breaker_step.report [of i s, OF _ refl] show ?thesis
    by (auto split: if_split_asm)
qed

lemma bs_schedule_reach:
  "bs_schedule es s = Some s' \<Longrightarrow> breaker_reach c s \<Longrightarrow> breaker_reach c s'"
proof (induction es arbitrary: s)
  case (Cons e es)
  from Cons.prems(1) obtain s1 where s1: "bs_exec e s = Some s1" "bs_schedule es s1 = Some s'"
    by (auto split: option.splits)
  then show ?case
    using Cons.IH Cons.prems(2) breaker_reach.step bs_exec_step by blast
qed simp

subsection \<open>Properties\<close>

text \<open>C13. Under any interleaving of callers, reports, manual resets and clock ticks: the half-open
  slot counter stays between 0 and SuccessThreshold, a closed breaker has fewer than MaxFailures
  failures on record, every request is counted exactly once (blocked, running or finished), and
  the probes in flight exceed SuccessThreshold by at most the number of reports received in
  this half-open period from requests admitted before it.\<close>

theorem concurrent_breaker_safe:
  assumes "breaker_reach c s" and "Timeout c \<le> max_duration"
  shows "0 \<le> halfOpenInFlight (bs_cb s)
    \<and> halfOpenInFlight (bs_cb s) \<le> SuccessThreshold (cbConfig (bs_cb s))
    \<and> (cbState (bs_cb s) = StateClosed \<longrightarrow> failures (bs_cb s) < MaxFailures (cbConfig (bs_cb s)))
    \<and> totalRequests (bs_cb s)
        = blockedRequests (bs_cb s) + int (length (bs_running s)) + bs_finished s
    \<and> failedRequests (bs_cb s) \<le> bs_finished s
    \<and> (cbState (bs_cb s) = StateHalfOpen \<longrightarrow>
         live s \<le> SuccessThreshold (cbConfig (bs_cb s)) + bs_stale s)"
  using breaker_reach_inv [OF assms] by (auto simp: sys_inv_def breaker_inv_def)

definition small_config :: CircuitBreakerConfig where
  "small_config = \<lparr>MaxFailures = 1, Timeout = 10, ResetTimeout = 1, SuccessThreshold = 2\<rparr>"

text \<open>Two requests are running when one fails and opens the breaker; after the window two
  probes are admitted; the older request then reports and frees a slot, and a third probe
  is admitted.\<close>

definition stale_schedule :: "breaker_event list" where
  "stale_schedule = [Arrive, Arrive, Finish 1 False, Wait 10, Arrive, Arrive, Finish 0 True, Arrive]"

lemma stale_schedule_run:
  "bs_schedule stale_schedule (bs_init small_config 100) = Some s \<Longrightarrow>
     cbState (bs_cb s) = StateHalfOpen \<and> live s = 3
       \<and> SuccessThreshold (cbConfig (bs_cb s)) = 2 \<and> bs_stale s = 1"
  by (auto simp: stale_schedule_def small_config_def bs_init_def NewCircuitBreaker_def Let_def
      checkCanExecute_def canExecuteUnsafe.simps recordResult_def onFailure_def onSuccess_def
      time_Sub_def min_duration_def max_duration_def zero_time_def bs_set_def remove_at_def
      live_def)

lemma stale_schedule_runs: "\<exists>s. bs_schedule stale_schedule (bs_init small_config 100) = Some s"
  by (simp add: stale_schedule_def small_config_def bs_init_def NewCircuitBreaker_def Let_def
      checkCanExecute_def canExecuteUnsafe.simps recordResult_def onFailure_def onSuccess_def
      time_Sub_def min_duration_def max_duration_def zero_time_def bs_set_def remove_at_def)

theorem concurrent_breaker_safe_witness:
  "\<exists>s. breaker_reach small_config s \<and> cbState (bs_cb s) = StateHalfOpen
     \<and> live s \<le> SuccessThreshold (cbConfig (bs_cb s)) + bs_stale s"
proof -
  obtain s where s: "bs_schedule stale_schedule (bs_init small_config 100) = Some s"
    using stale_schedule_runs by blast
  have r: "breaker_reach small_config s"
    by (rule bs_schedule_reach [OF s breaker_reach.start])
  have "Timeout small_config \<le> max_duration" by (simp add: small_config_def max_duration_def)
  with concurrent_breaker_safe [OF r] r stale_schedule_run [OF s] show ?thesis by blast
qed

text \<open>The limit on concurrent half-open probes is not absolute: a request admitted while the
  breaker was still closed, reporting in the half-open period, frees a slot it never held, and
  more than SuccessThreshold probes run at once.\<close>

theorem probe_limit_exceeded:
  "\<exists>s. breaker_reach small_config s \<and> cbState (bs_cb s) = StateHalfOpen
     \<and> live s > SuccessThreshold (cbConfig (bs_cb s))"
proof -
  obtain s where s: "bs_schedule stale_schedule (bs_init small_config 100) = Some s"
    using stale_schedule_runs by blast
  with stale_schedule_run [OF s] bs_schedule_reach [OF s breaker_reach.start] show ?thesis
    by (intro exI [of _ s]) simp
qed

end
