(* ===== verification/Float64.thy ===== *)
theory Float64
  imports Complex_Main "HOL-Library.Log_Nat" Prelude
begin

section \<open>Go's float64\<close>

text \<open>
  The exporter keeps token counts, counter baselines and metric values in \<open>float64\<close>. A finite
  value is the rational it denotes; the arithmetic computes the exact result and rounds it to
  the nearest binary64 value, ties to even, with gradual underflow and overflow to infinity.
  The two zeros are one value (the code never divides by a computed zero nor reads a sign bit).
\<close>

datatype float64 = Fin rat | PosInf | NegInf | NaN

subsection \<open>Rounding\<close>

definition round_even :: "rat \<Rightarrow> int" where
  "round_even x =
     (let f = \<lfloor>x\<rfloor>; r = x - of_int f
      in if r < 1 / 2 then f else if r > 1 / 2 then f + 1 else if even f then f else f + 1)"

text \<open>The binary exponent of a positive rational: \<open>2 ^ e \<le> x < 2 ^ (e + 1)\<close>.\<close>

definition pow2 :: "int \<Rightarrow> rat" where
  "pow2 e = (if 0 \<le> e then 2 ^ nat e else 1 / 2 ^ nat (- e))"

definition exponent :: "rat \<Rightarrow> int" where
  "exponent x =
     (let (n, d) = quotient_of x; e = bitlen n - bitlen d
      in if pow2 e \<le> x then e else e - 1)"

definition ulp_exponent :: "rat \<Rightarrow> int" where
  "ulp_exponent x = max (exponent x) (- 1022) - 52"

definition round_pos :: "rat \<Rightarrow> rat" where
  "round_pos x =
     (if x = 0 then 0
      else of_int (round_even (x / pow2 (ulp_exponent x))) * pow2 (ulp_exponent x))"

definition max_finite :: rat where
  "max_finite = (2 ^ 53 - 1) * 2 ^ 971"

definition round64 :: "rat \<Rightarrow> float64" where
  "round64 x =
     (let r = round_pos \<bar>x\<bar>
      in if r > max_finite then (if x < 0 then NegInf else PosInf)
         else Fin (if x < 0 then - r else r))"

subsection \<open>Arithmetic and comparison\<close>

fun f_neg :: "float64 \<Rightarrow> float64" where
  "f_neg (Fin x) = Fin (- x)"
| "f_neg PosInf = NegInf"
| "f_neg NegInf = PosInf"
| "f_neg NaN = NaN"

fun f_add :: "float64 \<Rightarrow> float64 \<Rightarrow> float64" where
  "f_add (Fin x) (Fin y) = round64 (x + y)"
| "f_add NaN _ = NaN"
| "f_add _ NaN = NaN"
| "f_add PosInf NegInf = NaN"
| "f_add NegInf PosInf = NaN"
| "f_add PosInf _ = PosInf"
| "f_add _ PosInf = PosInf"
| "f_add NegInf _ = NegInf"
| "f_add _ NegInf = NegInf"

definition f_sub :: "float64 \<Rightarrow> float64 \<Rightarrow> float64" where
  "f_sub a b = f_add a (f_neg b)"

fun f_sign :: "float64 \<Rightarrow> int" where
  "f_sign (Fin x) = (if x < 0 then - 1 else if x = 0 then 0 else 1)"
| "f_sign PosInf = 1"
| "f_sign NegInf = - 1"
| "f_sign NaN = 0"

definition f_inf :: "int \<Rightarrow> float64" where
  "f_inf s = (if s > 0 then PosInf else if s < 0 then NegInf else NaN)"

fun f_mul :: "float64 \<Rightarrow> float64 \<Rightarrow> float64" where
  "f_mul (Fin x) (Fin y) = round64 (x * y)"
| "f_mul NaN _ = NaN"
| "f_mul _ NaN = NaN"
| "f_mul a b = f_inf (f_sign a * f_sign b)"

fun f_div :: "float64 \<Rightarrow> float64 \<Rightarrow> float64" where
  "f_div (Fin x) (Fin y) =
     (if y = 0 then f_inf (f_sign (Fin x)) else round64 (x / y))"
| "f_div NaN _ = NaN"
| "f_div _ NaN = NaN"
| "f_div (Fin x) _ = Fin 0"
| "f_div a (Fin y) = f_inf (f_sign a * (if y < 0 then - 1 else 1))"
| "f_div _ _ = NaN"

fun f_lt :: "float64 \<Rightarrow> float64 \<Rightarrow> bool" where
  "f_lt (Fin x) (Fin y) \<longleftrightarrow> x < y"
| "f_lt NaN _ \<longleftrightarrow> False"
| "f_lt _ NaN \<longleftrightarrow> False"
| "f_lt PosInf _ \<longleftrightarrow> False"
| "f_lt _ NegInf \<longleftrightarrow> False"
| "f_lt _ PosInf \<longleftrightarrow> True"
| "f_lt NegInf _ \<longleftrightarrow> True"

definition f_eq :: "float64 \<Rightarrow> float64 \<Rightarrow> bool" where
  "f_eq a b \<longleftrightarrow> a = b \<and> a \<noteq> NaN"

definition f_le :: "float64 \<Rightarrow> float64 \<Rightarrow> bool" where
  "f_le a b \<longleftrightarrow> f_lt a b \<or> f_eq a b"

definition f_of_int :: "int \<Rightarrow> float64" where
  "f_of_int n = round64 (of_int n)"

definition is_nan :: "float64 \<Rightarrow> bool" where
  "is_nan a \<longleftrightarrow> a = NaN"

fun is_finite :: "float64 \<Rightarrow> bool" where
  "is_finite (Fin _) = True"
| "is_finite _ = False"

text \<open>\<open>math.Min\<close>\<close>

definition f_min :: "float64 \<Rightarrow> float64 \<Rightarrow> float64" where
  "f_min a b =
     (if a = NegInf \<or> b = NegInf then NegInf
      else if a = NaN \<or> b = NaN then NaN
      else if f_lt a b then a else b)"

subsection \<open>Rounding is monotone and exact on the integers a double can hold\<close>

lemma round_even_of_int [simp]: "round_even (of_int n) = n"
  by (simp add: round_even_def Let_def)

lemma round_even_bounds: "\<lfloor>x\<rfloor> \<le> round_even x" "round_even x \<le> \<lfloor>x\<rfloor> + 1"
  by (auto simp: round_even_def Let_def)

lemma round_even_mono:
  assumes "x \<le> y" shows "round_even x \<le> round_even y"
proof (cases "\<lfloor>x\<rfloor> = \<lfloor>y\<rfloor>")
  case True
  then show ?thesis using assms by (auto simp: round_even_def Let_def)
next
  case False
  have "\<lfloor>x\<rfloor> \<le> \<lfloor>y\<rfloor>" using assms by (rule floor_mono)
  with False have "\<lfloor>x\<rfloor> + 1 \<le> \<lfloor>y\<rfloor>" by simp
  then show ?thesis using round_even_bounds [of x] round_even_bounds [of y] by simp
qed

lemma pow2_powi: "pow2 e = 2 powi e"
  by (simp add: pow2_def power_int_def inverse_eq_divide power_one_over)

lemma pow2_pos [simp]: "0 < pow2 e"
  by (simp add: pow2_def)

lemma pow2_nonzero [simp]: "pow2 e \<noteq> 0"
  by (metis less_irrefl pow2_pos)

lemma pow2_add: "pow2 (a + b) = pow2 a * pow2 b"
  by (simp add: pow2_powi power_int_add)

lemma pow2_mono: "a \<le> b \<Longrightarrow> pow2 a \<le> pow2 b"
  by (simp add: pow2_powi power_int_increasing)

lemma pow2_strict_mono: "a < b \<Longrightarrow> pow2 a < pow2 b"
  by (simp add: pow2_powi power_int_strict_increasing)

lemma pow2_nat: "pow2 (int n) = 2 ^ n"
  by (simp add: pow2_def)

lemma bitlen_pow_bounds:
  assumes "0 < n"
  shows "pow2 (bitlen n - 1) \<le> of_int n" and "of_int n < pow2 (bitlen n)"
proof -
  have b: "2 ^ nat (bitlen n - 1) \<le> n" "n < 2 ^ nat (bitlen n)"
    using bitlen_bounds [OF assms] by auto
  have l: "1 \<le> bitlen n" using assms by (simp add: bitlen_def floorlog_def)
  have "(2::rat) ^ nat (bitlen n - 1) \<le> of_int n" 
    using of_int_le_iff [of "2 ^ nat (bitlen n - 1)" n, where 'a = rat] b(1) by simp
  then show "pow2 (bitlen n - 1) \<le> of_int n" using l by (simp add: pow2_def)
  have "of_int n < (2::rat) ^ nat (bitlen n)" 
    using of_int_less_iff [of n "2 ^ nat (bitlen n)", where 'a = rat] b(2) by simp
  then show "of_int n < pow2 (bitlen n)" using l by (simp add: pow2_def)
qed

lemma exponent_bounds:
  assumes "0 < x"
  shows "pow2 (exponent x) \<le> x" and "x < pow2 (exponent x + 1)"
proof -
  obtain n d where q: "quotient_of x = (n, d)" by fastforce
  have d: "0 < d" using quotient_of_denom_pos [OF q] .
  have x: "x = of_int n / of_int d" using quotient_of_div [OF q] .
  have n: "0 < n" using assms d x by (simp add: zero_less_divide_iff)
  define e where "e = bitlen n - bitlen d"
  note bn = bitlen_pow_bounds [OF n] and bd = bitlen_pow_bounds [OF d]
  have dr: "0 < (of_int d :: rat)" using d by simp
  have "pow2 (e - 1) * of_int d \<le> pow2 (e - 1) * pow2 (bitlen d)"
    using bd(2) by (intro mult_left_mono) (auto intro: less_imp_le)
  also have "... = pow2 (bitlen n - 1)" by (simp add: e_def pow2_add [symmetric])
  also have "... \<le> of_int n" by (rule bn)
  finally have lo: "pow2 (e - 1) \<le> x" using dr by (simp add: x pos_le_divide_eq)
  have "of_int n < pow2 (bitlen n)" by (rule bn)
  also have "... = pow2 (e + 1) * pow2 (bitlen d - 1)" by (simp add: e_def pow2_add [symmetric])
  also have "... \<le> pow2 (e + 1) * of_int d"
    using bd(1) by (intro mult_left_mono) (auto intro: less_imp_le)
  finally have hi: "x < pow2 (e + 1)" using dr by (simp add: x pos_divide_less_eq)
  have ex: "exponent x = (if pow2 e \<le> x then e else e - 1)"
    by (simp add: exponent_def q e_def)
  show "pow2 (exponent x) \<le> x" using ex lo by auto
  show "x < pow2 (exponent x + 1)" using ex hi by auto
qed

lemma exponent_mono:
  assumes "0 < x" "x \<le> y" shows "exponent x \<le> exponent y"
proof (rule ccontr)
  assume "\<not> exponent x \<le> exponent y"
  then have "exponent y + 1 \<le> exponent x" by simp
  then have "pow2 (exponent y + 1) \<le> pow2 (exponent x)" by (rule pow2_mono)
  with exponent_bounds [of x] exponent_bounds [of y] assms show False by auto
qed

lemma exponent_unique:
  assumes "pow2 e \<le> x" "x < pow2 (e + 1)" shows "exponent x = e"
proof (rule ccontr)
  assume ne: "exponent x \<noteq> e"
  have x: "0 < x" using assms(1) pow2_pos [of e] by linarith
  show False
  proof (cases "exponent x < e")
    case True
    then have "pow2 (exponent x + 1) \<le> pow2 e" by (intro pow2_mono) simp
    with exponent_bounds(2) [OF x] assms show False by simp
  next
    case False
    with ne have "pow2 (e + 1) \<le> pow2 (exponent x)" by (intro pow2_mono) simp
    with exponent_bounds(1) [OF x] assms show False by simp
  qed
qed

lemma round_pos_zero [simp]: "round_pos 0 = 0"
  by (simp add: round_pos_def)

lemma round_even_nonneg: "0 \<le> x \<Longrightarrow> 0 \<le> round_even x"
  using round_even_mono [of 0 x] by (simp add: round_even_def Let_def)

lemma round_pos_nonneg: "0 \<le> x \<Longrightarrow> 0 \<le> round_pos x"
  by (auto simp: round_pos_def less_imp_le intro!: mult_nonneg_nonneg round_even_nonneg)

text \<open>A rounded value stays in its binade.\<close>

lemma round_pos_le_pow2:
  assumes "0 < x" "x \<le> pow2 k" "ulp_exponent x \<le> k"
  shows "round_pos x \<le> pow2 k"
proof -
  define u where "u = ulp_exponent x"
  have p: "pow2 k = pow2 (k - u) * pow2 u" by (simp add: pow2_add [symmetric])
  have "x / pow2 u \<le> pow2 (k - u)" using assms(2) p by (simp add: pos_divide_le_eq)
  also have "pow2 (k - u) = of_int (2 ^ nat (k - u))" using assms(3) by (simp add: pow2_def u_def)
  finally have "round_even (x / pow2 u) \<le> 2 ^ nat (k - u)"
    using round_even_mono [of "x / pow2 u" "of_int (2 ^ nat (k - u))"] by (simp del: of_int_power)
  then have "of_int (round_even (x / pow2 u)) \<le> (of_int (2 ^ nat (k - u)) :: rat)"
    by (simp only: of_int_le_iff)
  then have "of_int (round_even (x / pow2 u)) \<le> pow2 (k - u)"
    using assms(3) by (simp add: pow2_def u_def)
  then show ?thesis using assms(1) p by (simp add: round_pos_def u_def [symmetric] mult_right_mono)
qed

lemma round_pos_ge_pow2:
  assumes "0 < x" "pow2 k \<le> x" "ulp_exponent x \<le> k"
  shows "pow2 k \<le> round_pos x"
proof -
  define u where "u = ulp_exponent x"
  have p: "pow2 k = pow2 (k - u) * pow2 u" by (simp add: pow2_add [symmetric])
  have "pow2 (k - u) = of_int (2 ^ nat (k - u))" using assms(3) by (simp add: pow2_def u_def)
  moreover have "pow2 (k - u) \<le> x / pow2 u" using assms(2) p by (simp add: pos_le_divide_eq)
  ultimately have "2 ^ nat (k - u) \<le> round_even (x / pow2 u)"
    using round_even_mono [of "of_int (2 ^ nat (k - u))" "x / pow2 u"] by (simp del: of_int_power)
  then have "of_int (2 ^ nat (k - u)) \<le> (of_int (round_even (x / pow2 u)) :: rat)"
    by (simp only: of_int_le_iff)
  then have "pow2 (k - u) \<le> of_int (round_even (x / pow2 u))"
    using assms(3) by (simp add: pow2_def u_def)
  then show ?thesis using assms(1) p by (simp add: round_pos_def u_def [symmetric] mult_right_mono)
qed

lemma round_pos_mono:
  assumes "0 \<le> x" "x \<le> y" shows "round_pos x \<le> round_pos y"
proof (cases "x = 0")
  case True
  then show ?thesis using assms by (simp add: round_pos_nonneg)
next
  case False
  with assms have x: "0 < x" "0 < y" by auto
  have em: "exponent x \<le> exponent y" using x assms by (intro exponent_mono)
  show ?thesis
  proof (cases "ulp_exponent x = ulp_exponent y")
    case True
    have "x / pow2 (ulp_exponent y) \<le> y / pow2 (ulp_exponent y)"
      using assms by (simp add: divide_right_mono less_imp_le)
    then have "round_even (x / pow2 (ulp_exponent y)) \<le> round_even (y / pow2 (ulp_exponent y))"
      by (rule round_even_mono)
    then show ?thesis using x True by (simp add: round_pos_def mult_right_mono less_imp_le)
  next
    case False
    then have ey: "max (exponent x) (- 1022) < exponent y" "- 1022 < exponent y"
      using em by (auto simp: ulp_exponent_def max_def split: if_splits)
    have "x \<le> pow2 (exponent x + 1)" using exponent_bounds(2) [OF x(1)] by simp
    also have "... \<le> pow2 (exponent y)" using ey by (intro pow2_mono) simp
    finally have "round_pos x \<le> pow2 (exponent y)"
      using ey x by (intro round_pos_le_pow2) (auto simp: ulp_exponent_def)
    also have "... \<le> round_pos y"
      using exponent_bounds(1) [OF x(2)] ey x by (intro round_pos_ge_pow2) (auto simp: ulp_exponent_def)
    finally show ?thesis .
  qed
qed


text \<open>Integers up to 2 to the 53 are represented exactly.\<close>

lemma round_pos_int:
  assumes "0 \<le> n" "n \<le> 2 ^ 53" shows "round_pos (of_int n) = of_int n"
proof (cases "n = 0 \<or> n = 2 ^ 53")
  case True
  moreover have "round_pos (pow2 53) = pow2 53"
  proof (rule antisym)
    have "exponent (pow2 53) = 53" by (rule exponent_unique) (simp_all add: pow2_def)
    then have u: "ulp_exponent (pow2 53) \<le> 53" by (simp add: ulp_exponent_def)
    show "round_pos (pow2 53) \<le> pow2 53" using u by (intro round_pos_le_pow2) auto
    show "pow2 53 \<le> round_pos (pow2 53)" using u by (intro round_pos_ge_pow2) auto
  qed
  moreover have "pow2 53 = of_int (2 ^ 53)" by (simp add: pow2_def)
  ultimately show ?thesis by auto
next
  case False
  with assms have n: "0 < n" "n < 2 ^ 53" by auto
  then have p: "(0::rat) < of_int n" by simp
  have "(1::rat) \<le> of_int n" using n by simp
  have e0: "0 \<le> exponent (of_int n)"
  proof (rule ccontr)
    assume "\<not> 0 \<le> exponent (of_int n)"
    then have "pow2 (exponent (of_int n) + 1) \<le> pow2 0" by (intro pow2_mono) simp
    with exponent_bounds(2) [OF p] n show False by (simp add: pow2_def)
  qed
  have e1: "exponent (of_int n) \<le> 52"
  proof (rule ccontr)
    assume "\<not> exponent (of_int n) \<le> 52"
    then have "pow2 53 \<le> pow2 (exponent (of_int n))" by (intro pow2_mono) simp
    with exponent_bounds(1) [OF p] have "(2::rat) ^ 53 \<le> of_int n" by (simp add: pow2_def)
    then have "of_int (2 ^ 53) \<le> (of_int n :: rat)" by simp
    then show False using n(2) by (simp only: of_int_le_iff)
  qed
  define u where "u = 52 - exponent (of_int n)"
  have u: "0 \<le> u" "ulp_exponent (of_int n) = - u" using e0 e1 by (auto simp: u_def ulp_exponent_def)
  have "of_int n / pow2 (- u) = of_int (n * 2 ^ nat u)" using u by (cases "u = 0") (auto simp: pow2_def)
  moreover have "(2::rat) ^ nat u * pow2 (- u) = 1" using u by (cases "u = 0") (auto simp: pow2_def)
  ultimately show ?thesis using n u(2)
    by (simp only: round_pos_def round_even_of_int) (simp add: mult.assoc)
qed

definition exact_int :: "int \<Rightarrow> bool" where
  "exact_int n \<longleftrightarrow> \<bar>n\<bar> \<le> 2 ^ 53"

lemma max_finite_ge: "of_int (2 ^ 53) \<le> max_finite"
  by (simp add: max_finite_def)

lemma round64_int:
  assumes "exact_int n" shows "round64 (of_int n) = Fin (of_int n)"
proof -
  have "round_pos (of_int \<bar>n\<bar>) = of_int \<bar>n\<bar>"
    using assms by (intro round_pos_int) (auto simp: exact_int_def)
  moreover have "(of_int \<bar>n\<bar> :: rat) \<le> max_finite"
    using assms max_finite_ge by (simp add: exact_int_def)
  ultimately show ?thesis by (auto simp: round64_def Let_def)
qed

lemma f_of_int_exact [simp]: "exact_int n \<Longrightarrow> f_of_int n = Fin (of_int n)"
  by (simp add: f_of_int_def round64_int)

lemma round64_zero [simp]: "round64 0 = Fin 0"
  using round64_int [of 0] by (simp add: exact_int_def)

text \<open>Rounding a nonnegative value below an exact integer stays finite and below it.\<close>

lemma round64_between:
  assumes "0 \<le> x" "x \<le> of_int n" "exact_int n"
  obtains y where "round64 x = Fin y" "0 \<le> y" "y \<le> of_int n"
proof -
  have n: "0 \<le> n" using assms(1,2) by (metis of_int_0_le_iff order_trans)
  have r: "round_pos x \<le> of_int n"
    using round_pos_mono [OF assms(1,2)] n assms(3) by (simp add: round_pos_int exact_int_def)
  have "of_int n \<le> (of_int (2 ^ 53) :: rat)" using assms(3) n by (simp only: of_int_le_iff exact_int_def)
  then have "round_pos x \<le> max_finite" using r max_finite_ge by linarith
  then have "round64 x = Fin (round_pos x)" using assms(1) by (simp add: round64_def Let_def)
  with r round_pos_nonneg [OF assms(1)] that show ?thesis by blast
qed

text \<open>Rounding is monotone.\<close>

lemma round64_pos: "0 \<le> x \<Longrightarrow> round64 x = (if round_pos x > max_finite then PosInf else Fin (round_pos x))"
  by (auto simp: round64_def Let_def)

lemma round64_neg: "x < 0 \<Longrightarrow> round64 x = (if round_pos (- x) > max_finite then NegInf else Fin (- round_pos (- x)))"
  by (auto simp: round64_def Let_def)

lemma round64_minus: "round64 (- x) = f_neg (round64 x)"
  by (auto simp: round64_def Let_def max_finite_def)

lemma round64_interval:
  assumes "lo \<le> x" "x \<le> hi" "round64 lo = Fin lo'" "round64 hi = Fin hi'"
  shows "\<exists>w. round64 x = Fin w \<and> lo' \<le> w \<and> w \<le> hi'"
proof (cases "0 \<le> x")
  case True
  then have hi: "round_pos hi \<le> max_finite" "hi' = round_pos hi"
    using assms(2,4) by (auto simp: round64_pos split: if_splits)
  have "round_pos x \<le> round_pos hi" using True assms(2) by (rule round_pos_mono)
  moreover have "lo' \<le> round_pos x"
  proof (cases "0 \<le> lo")
    case True
    then show ?thesis using assms(1,3) round_pos_mono [of lo x] by (auto simp: round64_pos split: if_splits)
  next
    case False
    then have "lo' = - round_pos (- lo)" using assms(3) by (auto simp: round64_neg split: if_splits)
    then show ?thesis using round_pos_nonneg [of "- lo"] round_pos_nonneg [OF \<open>0 \<le> x\<close>] False by simp
  qed
  ultimately show ?thesis using hi True by (simp add: round64_pos)
next
  case False
  then have lo: "round_pos (- lo) \<le> max_finite" "lo' = - round_pos (- lo)"
    using assms(1,3) by (auto simp: round64_neg split: if_splits)
  have m: "round_pos (- x) \<le> round_pos (- lo)" using False assms(1) by (intro round_pos_mono) auto
  moreover have "- round_pos (- x) \<le> hi'"
  proof (cases "0 \<le> hi")
    case True
    then have "hi' = round_pos hi" using assms(4) by (auto simp: round64_pos split: if_splits)
    then show ?thesis using round_pos_nonneg [OF True] round_pos_nonneg [of "- x"] False by simp
  next
    case False
    then show ?thesis using assms(2,4) round_pos_mono [of "- hi" "- x"] by (auto simp: round64_neg split: if_splits)
  qed
  ultimately show ?thesis using lo False by (simp add: round64_neg)
qed

end
