(* ===== verification/GoStrings.thy ===== *)
theory GoStrings
  imports Float64 "HOL-Library.Char_ord" "HOL-Library.Sublist"
begin

section \<open>Go strings and the conversions the exporter applies to them\<close>

text \<open>
  A Go string is a list of bytes, here a \<open>string\<close>. The functions below are the ones of the
  packages \<open>strings\<close> and \<open>strconv\<close> the exporter calls, at the arguments it calls them with
  (the separators it splits at are single bytes). Case folding and white space are those of
  ASCII: the protocol words, attribute names and time stamps they are applied to are ASCII.
\<close>

subsection \<open>Searching and trimming\<close>

definition HasPrefix :: "string \<Rightarrow> string \<Rightarrow> bool" where
  "HasPrefix s p \<longleftrightarrow> take (length p) s = p"

definition HasSuffix :: "string \<Rightarrow> string \<Rightarrow> bool" where
  "HasSuffix s p \<longleftrightarrow> length p \<le> length s \<and> drop (length s - length p) s = p"

fun Contains :: "string \<Rightarrow> string \<Rightarrow> bool" where
  "Contains [] sub \<longleftrightarrow> sub = []"
| "Contains (c # s) sub \<longleftrightarrow> HasPrefix (c # s) sub \<or> Contains s sub"

fun IndexByte :: "string \<Rightarrow> char \<Rightarrow> int" where
  "IndexByte [] c = - 1"
| "IndexByte (x # s) c = (if x = c then 0 else let i = IndexByte s c in if i < 0 then - 1 else i + 1)"

definition TrimPrefix :: "string \<Rightarrow> string \<Rightarrow> string" where
  "TrimPrefix s p = (if HasPrefix s p then drop (length p) s else s)"

definition TrimSuffix :: "string \<Rightarrow> string \<Rightarrow> string" where
  "TrimSuffix s p = (if HasSuffix s p then take (length s - length p) s else s)"

definition CutPrefix :: "string \<Rightarrow> string \<Rightarrow> string \<times> bool" where
  "CutPrefix s p = (if HasPrefix s p then (drop (length p) s, True) else (s, False))"

definition trim_left :: "(char \<Rightarrow> bool) \<Rightarrow> string \<Rightarrow> string" where
  "trim_left P s = dropWhile P s"

definition trim_right :: "(char \<Rightarrow> bool) \<Rightarrow> string \<Rightarrow> string" where
  "trim_right P s = rev (dropWhile P (rev s))"

definition is_space :: "char \<Rightarrow> bool" where
  "is_space c \<longleftrightarrow> (let n = of_char c :: nat in n = 32 \<or> 9 \<le> n \<and> n \<le> 13)"

definition TrimSpace :: "string \<Rightarrow> string" where
  "TrimSpace s = trim_left is_space (trim_right is_space s)"

definition Trim :: "string \<Rightarrow> string \<Rightarrow> string" where
  "Trim s cutset = trim_left (\<lambda>c. c \<in> set cutset) (trim_right (\<lambda>c. c \<in> set cutset) s)"

definition TrimRight :: "string \<Rightarrow> string \<Rightarrow> string" where
  "TrimRight s cutset = trim_right (\<lambda>c. c \<in> set cutset) s"

definition ContainsAny :: "string \<Rightarrow> string \<Rightarrow> bool" where
  "ContainsAny s chars \<longleftrightarrow> list_ex (\<lambda>c. c \<in> set chars) s"

subsection \<open>Case\<close>

definition to_lower :: "char \<Rightarrow> char" where
  "to_lower c = (let n = of_char c :: nat in if 65 \<le> n \<and> n \<le> 90 then char_of (n + 32) else c)"

definition to_upper :: "char \<Rightarrow> char" where
  "to_upper c = (let n = of_char c :: nat in if 97 \<le> n \<and> n \<le> 122 then char_of (n - 32) else c)"

definition ToLower :: "string \<Rightarrow> string" where
  "ToLower s = map to_lower s"

definition ToUpper :: "string \<Rightarrow> string" where
  "ToUpper s = map to_upper s"

definition EqualFold :: "string \<Rightarrow> string \<Rightarrow> bool" where
  "EqualFold s t \<longleftrightarrow> ToLower s = ToLower t"

subsection \<open>Splitting and joining\<close>

fun Split :: "string \<Rightarrow> char \<Rightarrow> string list" where
  "Split [] sep = [[]]"
| "Split (c # s) sep =
     (if c = sep then [] # Split s sep
      else case Split s sep of [] \<Rightarrow> [[c]] | p # ps \<Rightarrow> (c # p) # ps)"

fun SplitN :: "string \<Rightarrow> char \<Rightarrow> nat \<Rightarrow> string list" where
  "SplitN s sep 0 = []"
| "SplitN s sep (Suc 0) = [s]"
| "SplitN s sep (Suc (Suc n)) =
     (let a = takeWhile (\<lambda>c. c \<noteq> sep) s; b = dropWhile (\<lambda>c. c \<noteq> sep) s
      in if b = [] then [a] else a # SplitN (tl b) sep (Suc n))"

fun Join :: "string list \<Rightarrow> string \<Rightarrow> string" where
  "Join [] sep = []"
| "Join [x] sep = x"
| "Join (x # y # xs) sep = x @ sep @ Join (y # xs) sep"

text \<open>\<open>strings.Fields\<close>: the maximal runs of bytes that are not white space.\<close>

fun Fields_aux :: "string \<Rightarrow> string \<Rightarrow> string list" where
  "Fields_aux acc [] = (if acc = [] then [] else [rev acc])"
| "Fields_aux acc (c # s) =
     (if is_space c then (if acc = [] then Fields_aux [] s else rev acc # Fields_aux [] s)
      else Fields_aux (c # acc) s)"

definition Fields :: "string \<Rightarrow> string list" where
  "Fields s = Fields_aux [] s"

subsection \<open>Order\<close>

text \<open>The order of Go strings: byte by byte, a proper prefix first.\<close>

fun str_less :: "string \<Rightarrow> string \<Rightarrow> bool" where
  "str_less [] [] \<longleftrightarrow> False"
| "str_less [] (_ # _) \<longleftrightarrow> True"
| "str_less (_ # _) [] \<longleftrightarrow> False"
| "str_less (a # s) (b # t) \<longleftrightarrow>
     (of_char a :: nat) < of_char b \<or> a = b \<and> str_less s t"

definition str_le :: "string \<Rightarrow> string \<Rightarrow> bool" where
  "str_le s t \<longleftrightarrow> str_less s t \<or> s = t"

subsection \<open>Decimal numbers\<close>

definition is_digit :: "char \<Rightarrow> bool" where
  "is_digit c \<longleftrightarrow> (let n = of_char c :: nat in 48 \<le> n \<and> n \<le> 57)"

definition digit_val :: "char \<Rightarrow> int" where
  "digit_val c = int (of_char c) - 48"

definition digits_val :: "string \<Rightarrow> int" where
  "digits_val s = foldl (\<lambda>v c. 10 * v + digit_val c) 0 s"

definition digit_char :: "nat \<Rightarrow> char" where
  "digit_char d = char_of (48 + d)"

fun nat_string :: "nat \<Rightarrow> string" where
  "nat_string n = (if n < 10 then [digit_char n] else nat_string (n div 10) @ [digit_char (n mod 10)])"

declare nat_string.simps [simp del]

definition int_string :: "int \<Rightarrow> string" where
  "int_string n = (if n < 0 then CHR ''-'' # nat_string (nat (- n)) else nat_string (nat n))"

definition in_int64 :: "int \<Rightarrow> bool" where
  "in_int64 n \<longleftrightarrow> - (2 ^ 63) \<le> n \<and> n < 2 ^ 63"

text \<open>\<open>strconv.Atoi\<close> on a 64-bit platform; \<open>None\<close> is any of its errors.\<close>

definition Atoi :: "string \<Rightarrow> int option" where
  "Atoi s =
     (let neg = HasPrefix s ''-'';
          ds = (if neg \<or> HasPrefix s ''+'' then tl s else s);
          v = (if neg then - digits_val ds else digits_val ds)
      in if ds \<noteq> [] \<and> list_all is_digit ds \<and> in_int64 v then Some v else None)"

definition ParseBool :: "string \<Rightarrow> bool option" where
  "ParseBool s =
     (if s \<in> set [''1'', ''t'', ''T'', ''TRUE'', ''true'', ''True''] then Some True
      else if s \<in> set [''0'', ''f'', ''F'', ''FALSE'', ''false'', ''False''] then Some False
      else None)"

text \<open>
  \<open>strconv.ParseFloat (s, 64)\<close>: a decimal number with an optional fraction and exponent, or
  one of the words inf, infinity and nan in any case; \<open>None\<close> is any of its errors, overflow
  included. Hexadecimal floats are not modelled (they are rejected here).
\<close>

definition split_exponent :: "string \<Rightarrow> (string \<times> int) option" where
  "split_exponent s =
     (let m = takeWhile (\<lambda>c. c \<notin> set ''eE'') s; r = dropWhile (\<lambda>c. c \<notin> set ''eE'') s
      in if r = [] then Some (m, 0)
         else let neg = HasPrefix (tl r) ''-'';
                  ds = (if neg \<or> HasPrefix (tl r) ''+'' then tl (tl r) else tl r)
              in if ds \<noteq> [] \<and> list_all is_digit ds
                 then Some (m, if neg then - digits_val ds else digits_val ds) else None)"

definition parse_decimal :: "string \<Rightarrow> rat option" where
  "parse_decimal s =
     (case split_exponent s of
        None \<Rightarrow> None
      | Some (m, e) \<Rightarrow>
          (let i = takeWhile (\<lambda>c. c \<noteq> CHR ''.'') m; r = dropWhile (\<lambda>c. c \<noteq> CHR ''.'') m;
               f = tl r
           in if i @ f \<noteq> [] \<and> list_all is_digit (i @ f)
              then let k = e - int (length f)
                   in Some (if 0 \<le> k then of_int (digits_val (i @ f)) * 10 ^ nat k
                            else of_int (digits_val (i @ f)) / 10 ^ nat (- k))
              else None))"

definition ParseFloat :: "string \<Rightarrow> float64 option" where
  "ParseFloat s =
     (let neg = HasPrefix s ''-'';
          u = (if neg \<or> HasPrefix s ''+'' then tl s else s)
      in if ToLower u = ''inf'' \<or> ToLower u = ''infinity'' then Some (if neg then NegInf else PosInf)
         else if ToLower s = ''nan'' then Some NaN
         else case parse_decimal u of
                None \<Rightarrow> None
              | Some x \<Rightarrow>
                  (case round64 (if neg then - x else x) of
                     Fin y \<Rightarrow> Some (Fin y)
                   | _ \<Rightarrow> None))"

subsection \<open>Durations\<close>

text \<open>
  \<open>time.ParseDuration\<close>: a sign and a sequence of numbers with a fraction and a unit. The
  digits are accumulated with the library's own overflow limits, the fraction through
  \<open>float64\<close>; \<open>None\<close> is any of its errors.
\<close>

fun leadingInt :: "int \<Rightarrow> string \<Rightarrow> (int \<times> string) option" where
  "leadingInt x [] = Some (x, [])"
| "leadingInt x (c # s) =
     (if \<not> is_digit c then Some (x, c # s)
      else if x > 2 ^ 63 div 10 then None
      else if 10 * x + digit_val c > 2 ^ 63 then None
      else leadingInt (10 * x + digit_val c) s)"

fun leadingFraction :: "bool \<Rightarrow> int \<Rightarrow> float64 \<Rightarrow> string \<Rightarrow> int \<times> float64 \<times> string" where
  "leadingFraction ovf x scale [] = (x, scale, [])"
| "leadingFraction ovf x scale (c # s) =
     (if \<not> is_digit c then (x, scale, c # s)
      else if ovf \<or> x > (2 ^ 63 - 1) div 10 \<or> 10 * x + digit_val c > 2 ^ 63
      then leadingFraction True x scale s
      else leadingFraction False (10 * x + digit_val c) (f_mul scale (Fin 10)) s)"

definition unitMap :: "string \<Rightarrow> int option" where
  "unitMap u =
     (if u = ''ns'' then Some 1
      else if u = ''us'' \<or> u = [CHR 0xC2, CHR 0xB5, CHR ''s''] \<or> u = [CHR 0xCE, CHR 0xBC, CHR ''s'']
      then Some 1000
      else if u = ''ms'' then Some millisecond
      else if u = ''s'' then Some second
      else if u = ''m'' then Some minute
      else if u = ''h'' then Some hour else None)"

fun f_trunc :: "float64 \<Rightarrow> int" where
  "f_trunc (Fin x) = (if x < 0 then - \<lfloor>- x\<rfloor> else \<lfloor>x\<rfloor>)"
| "f_trunc _ = 0"

text \<open>One number with its unit: its value in nanoseconds and the rest of the string.\<close>

definition duration_item :: "string \<Rightarrow> (int \<times> string) option" where
  "duration_item s =
     (case leadingInt 0 s of
        None \<Rightarrow> None
      | Some (v, s1) \<Rightarrow>
          (let dot = HasPrefix s1 ''.'';
               (f, scale, s2) = (if dot then leadingFraction False 0 (Fin 1) (tl s1) else (0, Fin 1, s1));
               pre = length s1 \<noteq> length s;
               post = (dot \<and> length s2 \<noteq> length (tl s1));
               isu = (\<lambda>c. c \<noteq> CHR ''.'' \<and> \<not> is_digit c);
               u = takeWhile isu s2; s3 = dropWhile isu s2
           in if \<not> pre \<and> \<not> post \<or> u = [] then None
              else case unitMap u of
                     None \<Rightarrow> None
                   | Some unit \<Rightarrow>
                       (if v > 2 ^ 63 div unit then None
                        else let d = v * unit +
                                     (if f > 0 then f_trunc (f_mul (f_of_int f) (f_div (f_of_int unit) scale)) else 0)
                             in if d > 2 ^ 63 then None else Some (d, s3))))"

lemma dropWhile_shorter: "takeWhile P s \<noteq> [] \<Longrightarrow> length (dropWhile P s) < length s"
  by (cases s) (auto simp: length_dropWhile_le less_Suc_eq_le split: if_splits)

lemma leadingInt_length: "leadingInt x s = Some (v, t) \<Longrightarrow> length t \<le> length s"
  by (induction x s rule: leadingInt.induct) (auto split: if_splits)

lemma leadingFraction_length:
  "leadingFraction ovf x scale s = (f, sc, t) \<Longrightarrow> length t \<le> length s"
  by (induction ovf x scale s rule: leadingFraction.induct) (auto split: if_splits)

lemma duration_item_length:
  "duration_item s = Some (d, t) \<Longrightarrow> length t < length s"
  by (fastforce simp: duration_item_def Let_def split: option.splits prod.splits if_splits
       dest!: leadingInt_length leadingFraction_length dropWhile_shorter)

function duration_sum :: "int \<Rightarrow> string \<Rightarrow> int option" where
  "duration_sum d s =
     (if s = [] then Some d
      else case duration_item s of
             None \<Rightarrow> None
           | Some (v, t) \<Rightarrow> (if d + v > 2 ^ 63 then None else duration_sum (d + v) t))"
  by auto
termination
  by (relation "measure (\<lambda>(d, s). length s)") (auto dest: duration_item_length)

declare duration_sum.simps [simp del]

definition ParseDuration :: "string \<Rightarrow> duration option" where
  "ParseDuration s =
     (let neg = HasPrefix s ''-'';
          s1 = (if neg \<or> HasPrefix s ''+'' then tl s else s)
      in if s1 = ''0'' then Some 0
         else if s1 = [] then None
         else case duration_sum 0 s1 of
                None \<Rightarrow> None
              | Some d \<Rightarrow>
                  (if neg then Some (- d) else if d > 2 ^ 63 - 1 then None else Some d))"

subsection \<open>Facts about strings\<close>

lemma HasPrefix_append [simp]: "HasPrefix (p @ s) p"
  by (simp add: HasPrefix_def)

lemma HasPrefix_iff: "HasPrefix s p \<longleftrightarrow> (\<exists>t. s = p @ t)"
  by (metis HasPrefix_append HasPrefix_def append_take_drop_id)

lemma HasSuffix_iff: "HasSuffix s p \<longleftrightarrow> (\<exists>t. s = t @ p)"
  by (auto simp: HasSuffix_def intro!: exI [of _ "take (length s - length p) s"])
     (metis append_take_drop_id)

lemma Contains_iff: "Contains s sub \<longleftrightarrow> (\<exists>p t. s = p @ sub @ t)"
proof (induction s)
  case Nil
  then show ?case by auto
next
  case (Cons c s)
  have "(\<exists>p t. c # s = p @ sub @ t) \<longleftrightarrow> (\<exists>t. c # s = sub @ t) \<or> (\<exists>p t. s = p @ sub @ t)"
    by (metis append_Cons append_Nil neq_Nil_conv list.inject)
  then show ?case using Cons by (simp add: HasPrefix_iff)
qed

lemma TrimPrefix_append [simp]: "TrimPrefix (p @ s) p = s"
  by (simp add: TrimPrefix_def)

lemma ToLower_append: "ToLower (s @ t) = ToLower s @ ToLower t"
  by (simp add: ToLower_def)

lemma to_lower_idem [simp]: "to_lower (to_lower c) = to_lower c"
  by (simp add: to_lower_def Let_def)

lemma ToLower_idem [simp]: "ToLower (ToLower s) = ToLower s"
  by (simp add: ToLower_def)

lemma ToLower_length [simp]: "length (ToLower s) = length s"
  by (simp add: ToLower_def)

lemma EqualFold_refl [simp]: "EqualFold s s"
  by (simp add: EqualFold_def)

lemma Split_not_Nil [simp]: "Split s sep \<noteq> []"
  by (cases s) (auto split: list.splits)

lemma Join_Split: "Join (Split s sep) [sep] = s"
proof (induction s)
  case (Cons c s)
  obtain q qs where q: "Split s sep = q # qs" by (cases "Split s sep") auto
  with Cons show ?case by (cases qs) auto
qed simp

lemma str_less_irrefl [simp]: "\<not> str_less s s"
  by (induction s) auto

lemma str_less_trans: "str_less a b \<Longrightarrow> str_less b c \<Longrightarrow> str_less a c"
proof (induction a b arbitrary: c rule: str_less.induct)
  case (4 a s b t)
  then show ?case by (cases c) auto
next
  case (2 a s)
  then show ?case by (cases c) auto
qed auto

lemma str_less_linear: "str_less a b \<or> a = b \<or> str_less b a"
proof (induction a b rule: str_less.induct)
  case (4 a s b t)
  then show ?case using of_char_eq_iff [of a b, where 'a = nat] by (auto simp: linorder_neq_iff simp del: of_char_eq_iff)
qed auto

lemma str_less_append: "str_less (p @ s) (p @ t) \<longleftrightarrow> str_less s t"
  by (induction p) auto

subsection \<open>Runes\<close>

text \<open>
  A \<open>range\<close> loop over a string decodes UTF-8. \<open>next_rune\<close> is one step of it: the bytes
  \<open>WriteRune\<close> writes for the decoded rune (the replacement character for an invalid byte) and
  the rest of the string.
\<close>

definition byte_in :: "nat \<Rightarrow> nat \<Rightarrow> char \<Rightarrow> bool" where
  "byte_in lo hi c \<longleftrightarrow> lo \<le> of_char c \<and> of_char c \<le> hi"

definition rune_error :: string where
  "rune_error = [CHR 0xEF, CHR 0xBF, CHR 0xBD]"

fun next_rune :: "string \<Rightarrow> string \<times> string" where
  "next_rune [] = ([], [])"
| "next_rune (a # s) =
     (if byte_in 0x00 0x7F a then ([a], s)
      else case s of
        b # s2 \<Rightarrow>
          (if byte_in 0xC2 0xDF a \<and> byte_in 0x80 0xBF b then ([a, b], s2)
           else case s2 of
             c # s3 \<Rightarrow>
               (if byte_in 0x80 0xBF c \<and>
                   (byte_in 0xE0 0xE0 a \<and> byte_in 0xA0 0xBF b \<or>
                    byte_in 0xE1 0xEC a \<and> byte_in 0x80 0xBF b \<or>
                    byte_in 0xED 0xED a \<and> byte_in 0x80 0x9F b \<or>
                    byte_in 0xEE 0xEF a \<and> byte_in 0x80 0xBF b)
                then ([a, b, c], s3)
                else case s3 of
                  d # s4 \<Rightarrow>
                    (if byte_in 0x80 0xBF c \<and> byte_in 0x80 0xBF d \<and>
                        (byte_in 0xF0 0xF0 a \<and> byte_in 0x90 0xBF b \<or>
                         byte_in 0xF1 0xF3 a \<and> byte_in 0x80 0xBF b \<or>
                         byte_in 0xF4 0xF4 a \<and> byte_in 0x80 0x8F b)
                     then ([a, b, c, d], s4) else (rune_error, s))
                | [] \<Rightarrow> (rune_error, s))
           | [] \<Rightarrow> (rune_error, s))
      | [] \<Rightarrow> (rune_error, s))"

lemma next_rune_shorter: "s \<noteq> [] \<Longrightarrow> length (snd (next_rune s)) < length s"
  by (cases s) (auto split: list.splits)

function runes :: "string \<Rightarrow> string list" where
  "runes s = (if s = [] then [] else fst (next_rune s) # runes (snd (next_rune s)))"
  by auto
termination
  by (relation "measure length") (auto simp: next_rune_shorter)

declare runes.simps [simp del]

text \<open>\<open>unicode.IsControl\<close>: the C0 and C1 controls and DEL.\<close>

definition is_control :: "string \<Rightarrow> bool" where
  "is_control r \<longleftrightarrow>
     (case r of
        [a] \<Rightarrow> of_char a < (32::nat) \<or> of_char a = (127::nat)
      | [a, b] \<Rightarrow> a = CHR 0xC2 \<and> byte_in 0x80 0x9F b
      | _ \<Rightarrow> False)"

end
