(* ===== verification/Ldap.thy ===== *)
theory Ldap
  imports GoStrings
begin

section \<open>The LDAP client library and the runtime as the pool sees them\<close>

text \<open>
  go-ldap, crypto/tls, the file system, the clock and the scheduler are not code of this
  repository. They appear as a record of functions on a state \<open>'w\<close> of the outside world that
  the code calls. An error is the text its \<open>Error()\<close> returns: the code inspects errors by
  their text. A live connection (\<open>*ldap.Conn\<close>) and a client certificate are handles.
\<close>

datatype ctx_err = Canceled | DeadlineExceeded

datatype Scope = ScopeBaseObject | ScopeWholeSubtree

record SearchRequest =
  BaseDN :: string
  scope :: Scope
  SizeLimit :: int
  TimeLimit :: int
  TypesOnly :: bool
  Filter :: string
  Attributes :: "string list"

text \<open>
  An entry of a search result: its name, its list of attributes with their values, which the
  accesslog code walks itself, and the library's accessors.
\<close>

record Entry =
  DN :: string
  EntryAttributes :: "(string \<times> string list) list"
  GetAttributeValue :: "string \<Rightarrow> string"
  GetAttributeValues :: "string \<Rightarrow> string list"

record TLSConfig =
  InsecureSkipVerify :: bool
  MinVersion :: int
  tlsServerName :: string
  RootCAs :: "string option"
  Certificates :: "nat list"

definition VersionTLS12 :: int where
  "VersionTLS12 = 0x0303"

record 'w Env =
  Now :: "'w \<Rightarrow> time \<times> 'w"
  DialURL :: "string \<Rightarrow> TLSConfig option \<Rightarrow> 'w \<Rightarrow> (string + nat option) \<times> 'w"
  SetTimeout :: "nat \<Rightarrow> duration \<Rightarrow> 'w \<Rightarrow> 'w"
  ExternalBind :: "nat \<Rightarrow> 'w \<Rightarrow> string option \<times> 'w"
  Bind :: "nat \<Rightarrow> string \<Rightarrow> string \<Rightarrow> 'w \<Rightarrow> string option \<times> 'w"
  ConnClose :: "nat \<Rightarrow> 'w \<Rightarrow> string option \<times> 'w"
  ConnSearch :: "nat \<Rightarrow> SearchRequest \<Rightarrow> 'w \<Rightarrow> (string + Entry list) \<times> 'w"
  TLSConnectionState :: "nat \<Rightarrow> 'w \<Rightarrow> string list option" \<comment> \<open>the peer's certificates\<close>
  ReadFile :: "string \<Rightarrow> 'w \<Rightarrow> (string + string) \<times> 'w"
  AppendCertsFromPEM :: "string \<Rightarrow> bool"
  LoadX509KeyPair :: "string \<Rightarrow> string \<Rightarrow> 'w \<Rightarrow> (string + nat) \<times> 'w"
  CtxErr :: "'w \<Rightarrow> ctx_err option" \<comment> \<open>the context of the running operation\<close>
  SelectDone :: "'w \<Rightarrow> bool \<times> 'w" \<comment> \<open>which of two ready cases \<open>select\<close> takes: the context's?\<close>
  Sleep :: "duration \<Rightarrow> 'w \<Rightarrow> 'w"

end
