(* ===== verification/Config.thy ===== *)
theory Config
  imports GoStrings
begin

section \<open>Configuration (pkg/config)\<close>

text \<open>
  The configuration record, the credential holder and the loader. The process environment is
  a function from variable names to values (the empty string when unset, as \<open>os.Getenv\<close>
  returns it) and the files read at start-up a function from paths to contents (\<open>None\<close> when
  reading fails). \<open>logger.Fatal\<close> ends the process: it is a result of its own, beside the
  errors \<open>LoadConfig\<close> returns. Log messages are not modelled.
\<close>

subsection \<open>Credentials (secure.go)\<close>

record SecureString =
  sdata :: string

definition NewSecureString :: "string \<Rightarrow> SecureString option" where
  "NewSecureString value = (if value = '''' then None else Some \<lparr>sdata = value\<rparr>)"

text \<open>A nil receiver is \<open>None\<close>.\<close>

definition SecureString_String :: "SecureString option \<Rightarrow> string" where
  "SecureString_String s = (case s of None \<Rightarrow> '''' | Some r \<Rightarrow> sdata r)"

definition SecureString_IsEmpty :: "SecureString option \<Rightarrow> bool" where
  "SecureString_IsEmpty s = (case s of None \<Rightarrow> True | Some r \<Rightarrow> length (sdata r) = 0)"

definition SecureString_Clear :: "SecureString option \<Rightarrow> SecureString option" where
  "SecureString_Clear s = (case s of None \<Rightarrow> None | Some r \<Rightarrow> Some (r\<lparr>sdata := []\<rparr>))"

text \<open>
  \<open>WithPlaintext\<close>: the function receives a copy, may write to it, and the copy is zeroed
  afterwards; the result is the copy left behind (\<open>None\<close> when none was made) and the state
  the function produced.
\<close>

definition WithPlaintext ::
  "SecureString option \<Rightarrow> (string \<Rightarrow> 'w \<Rightarrow> string \<times> 'w) option \<Rightarrow> 'w \<Rightarrow> string option \<times> 'w" where
  "WithPlaintext s fn w =
     (case (s, fn) of
        (Some r, Some f) \<Rightarrow>
          (if length (sdata r) = 0 then (None, snd (f [] w))
           else let (cp, w1) = f (sdata r) w in (Some (map (\<lambda>_. CHR 0x00) cp), w1))
      | _ \<Rightarrow> (None, w))"

subsection \<open>The configuration record and its limits\<close>

datatype EventsRotationMode = EventsRotationNone | EventsRotationDaily

record Config =
  URL :: string
  ServerName :: string
  TLS :: bool
  TLSSkipVerify :: bool
  TLSCA :: string
  TLSCert :: string
  TLSKey :: string
  TLSServerName :: string
  LDAPTimeout :: duration
  UpdateEvery :: duration
  Username :: string
  Password :: "SecureString option"
  MetricsInclude :: "string list"
  MetricsExclude :: "string list"
  DCInclude :: "string list"
  DCExclude :: "string list"
  AuthMethod :: string
  CBMaxFailures :: int
  CBTimeout :: duration
  CBResetTimeout :: duration
  CBSuccessThreshold :: int
  RateLimitEnabled :: bool
  TrustedProxies :: "string list"
  EventsEnabled :: bool
  EventsInterval :: duration
  EventsOutput :: string
  EventsRotation :: EventsRotationMode
  EventsTypes :: "string list"
  ReplicationPollEnabled :: bool
  ReplicationPollInterval :: duration
  ReplicationPeers :: "string list"
  PeerUsername :: string
  PeerPassword :: "SecureString option"
  PeerServerName :: string

definition MinTimeout :: duration where [config_defs]: "MinTimeout = second"
definition MaxTimeout :: duration where [config_defs]: "MaxTimeout = 5 * minute"
definition DefaultTimeout :: duration where [config_defs]: "DefaultTimeout = 10 * second"
definition MinUpdateEvery :: duration where [config_defs]: "MinUpdateEvery = 5 * second"
definition MaxUpdateEvery :: duration where [config_defs]: "MaxUpdateEvery = 10 * minute"
definition DefaultUpdateEvery :: duration where [config_defs]: "DefaultUpdateEvery = 15 * second"
definition MaxServerNameLen :: nat where [config_defs]: "MaxServerNameLen = 128"
definition MinEventsInterval :: duration where [config_defs]: "MinEventsInterval = 5 * second"
definition MaxEventsInterval :: duration where [config_defs]: "MaxEventsInterval = 30 * minute"
definition DefaultEventsInterval :: duration where [config_defs]: "DefaultEventsInterval = 30 * second"
definition DefaultCBMaxFailures :: int where [config_defs]: "DefaultCBMaxFailures = 3"
definition DefaultCBTimeout :: duration where [config_defs]: "DefaultCBTimeout = 60 * second"
definition DefaultCBResetTimeout :: duration where [config_defs]: "DefaultCBResetTimeout = 15 * second"
definition DefaultCBSuccessThreshold :: int where [config_defs]: "DefaultCBSuccessThreshold = 2"
definition MinReplPollInterval :: duration where [config_defs]: "MinReplPollInterval = 5 * second"
definition MaxReplPollInterval :: duration where [config_defs]: "MaxReplPollInterval = 30 * minute"
definition DefaultReplPollInterval :: duration where [config_defs]: "DefaultReplPollInterval = 15 * second"

subsection \<open>Reading the environment\<close>

definition getEnvOrDefault :: "(string \<Rightarrow> string) \<Rightarrow> string \<Rightarrow> string \<Rightarrow> string" where
  "getEnvOrDefault env key dflt = (if env key \<noteq> '''' then env key else dflt)"

definition getEnvBoolOrDefault :: "(string \<Rightarrow> string) \<Rightarrow> string \<Rightarrow> bool \<Rightarrow> bool" where
  "getEnvBoolOrDefault env key dflt =
     (if env key \<noteq> '''' then (case ParseBool (env key) of Some b \<Rightarrow> b | None \<Rightarrow> dflt) else dflt)"

definition getEnvIntOrDefault :: "(string \<Rightarrow> string) \<Rightarrow> string \<Rightarrow> int \<Rightarrow> int" where
  "getEnvIntOrDefault env key dflt =
     (if env key \<noteq> ''''
      then (case Atoi (env key) of Some n \<Rightarrow> (if n > 0 then n else dflt) | None \<Rightarrow> dflt)
      else dflt)"

text \<open>\<open>time.Duration (n) * time.Second\<close>, a product of 64-bit integers.\<close>

definition seconds_env :: "(string \<Rightarrow> string) \<Rightarrow> string \<Rightarrow> int \<Rightarrow> duration" where
  "seconds_env env key dflt = wrap64 (getEnvIntOrDefault env key dflt * second)"

definition parsePollInterval :: "string \<Rightarrow> duration" where
  "parsePollInterval value =
     (let v = TrimSpace value
      in if v = '''' then DefaultReplPollInterval
         else case ParseDuration v of
                None \<Rightarrow> DefaultReplPollInterval
              | Some d \<Rightarrow>
                  (if d < MinReplPollInterval then MinReplPollInterval
                   else if d > MaxReplPollInterval then MaxReplPollInterval else d))"

definition parseEventsInterval :: "string \<Rightarrow> duration" where
  "parseEventsInterval value =
     (let v = TrimSpace value
      in if v = '''' then DefaultEventsInterval
         else case ParseDuration v of
                None \<Rightarrow> DefaultEventsInterval
              | Some d \<Rightarrow>
                  (if d < MinEventsInterval then MinEventsInterval
                   else if d > MaxEventsInterval then MaxEventsInterval else d))"

definition parseEventsRotation :: "string \<Rightarrow> EventsRotationMode" where
  "parseEventsRotation value =
     (let v = ToLower (TrimSpace value)
      in if v = ''none'' \<or> v = '''' then EventsRotationNone
         else if v = ''daily'' then EventsRotationDaily else EventsRotationNone)"

definition parseMetricsList :: "string \<Rightarrow> string list" where
  "parseMetricsList value =
     (if value = '''' then []
      else filter (\<lambda>t. t \<noteq> '''') (map TrimSpace (Split value CHR '','')))"

datatype load_error = Fatal string | LoadError string

definition newlines :: string where
  "newlines = [CHR 0x0A, CHR 0x0D]"

definition loadPassword :: "(string \<Rightarrow> string) \<Rightarrow> (string \<Rightarrow> string option) \<Rightarrow> load_error + string" where
  "loadPassword env files =
     (let filePath = env ''LDAP_PASSWORD_FILE''
      in if filePath \<noteq> ''''
         then (case files filePath of
                 None \<Rightarrow> Inl (Fatal ''Failed to read LDAP_PASSWORD_FILE'')
               | Some d \<Rightarrow>
                   (if TrimRight d newlines = '''' then Inl (Fatal ''LDAP_PASSWORD_FILE is empty'')
                    else Inr (TrimRight d newlines)))
         else Inr (getEnvOrDefault env ''LDAP_PASSWORD'' ''''))"

definition loadPeerPassword :: "(string \<Rightarrow> string) \<Rightarrow> (string \<Rightarrow> string option) \<Rightarrow> load_error + string" where
  "loadPeerPassword env files =
     (let filePath = env ''OPENLDAP_PEER_PASSWORD_FILE''
      in if filePath \<noteq> ''''
         then (case files filePath of
                 None \<Rightarrow> Inl (Fatal ''Failed to read OPENLDAP_PEER_PASSWORD_FILE'')
               | Some d \<Rightarrow> Inr (TrimRight d newlines))
         else Inr (getEnvOrDefault env ''OPENLDAP_PEER_PASSWORD'' ''''))"

subsection \<open>The loader\<close>

definition validateCircuitBreakerConfig :: "Config \<Rightarrow> Config" where
  "validateCircuitBreakerConfig c =
     (let c1 = (if CBMaxFailures c \<le> 0 then c\<lparr>CBMaxFailures := DefaultCBMaxFailures\<rparr> else c);
          c2 = (if CBTimeout c1 \<le> 0 then c1\<lparr>CBTimeout := DefaultCBTimeout\<rparr> else c1);
          c3 = (if CBResetTimeout c2 \<le> 0 then c2\<lparr>CBResetTimeout := DefaultCBResetTimeout\<rparr> else c2);
          c4 = (if CBSuccessThreshold c3 \<le> 0
                then c3\<lparr>CBSuccessThreshold := DefaultCBSuccessThreshold\<rparr> else c3)
      in c4)"

text \<open>The struct literal \<open>LoadConfig\<close> starts from; fields it does not name are zero values.\<close>

definition envConfig :: "(string \<Rightarrow> string) \<Rightarrow> SecureString option \<Rightarrow> Config" where
  "envConfig env securePassword =
     \<lparr>URL = getEnvOrDefault env ''LDAP_URL'' '''',
      ServerName = getEnvOrDefault env ''LDAP_SERVER_NAME'' ''openldap'',
      TLS = getEnvBoolOrDefault env ''LDAP_TLS'' False,
      TLSSkipVerify = getEnvBoolOrDefault env ''LDAP_TLS_SKIP_VERIFY'' False,
      TLSCA = getEnvOrDefault env ''LDAP_TLS_CA'' '''',
      TLSCert = getEnvOrDefault env ''LDAP_TLS_CERT'' '''',
      TLSKey = getEnvOrDefault env ''LDAP_TLS_KEY'' '''',
      TLSServerName = getEnvOrDefault env ''LDAP_TLS_SERVER_NAME'' '''',
      LDAPTimeout = seconds_env env ''LDAP_TIMEOUT'' 10,
      UpdateEvery = seconds_env env ''LDAP_UPDATE_EVERY'' 15,
      Username = getEnvOrDefault env ''LDAP_USERNAME'' '''',
      Password = securePassword,
      MetricsInclude = [], MetricsExclude = [], DCInclude = [], DCExclude = [],
      AuthMethod = '''',
      CBMaxFailures = getEnvIntOrDefault env ''CIRCUIT_BREAKER_MAX_FAILURES'' DefaultCBMaxFailures,
      CBTimeout = seconds_env env ''CIRCUIT_BREAKER_TIMEOUT'' (DefaultCBTimeout div second),
      CBResetTimeout = seconds_env env ''CIRCUIT_BREAKER_RESET_TIMEOUT'' (DefaultCBResetTimeout div second),
      CBSuccessThreshold =
        getEnvIntOrDefault env ''CIRCUIT_BREAKER_SUCCESS_THRESHOLD'' DefaultCBSuccessThreshold,
      RateLimitEnabled = False, TrustedProxies = [],
      EventsEnabled = False, EventsInterval = 0, EventsOutput = '''',
      EventsRotation = EventsRotationNone, EventsTypes = [],
      ReplicationPollEnabled = False, ReplicationPollInterval = 0, ReplicationPeers = [],
      PeerUsername = '''', PeerPassword = None, PeerServerName = ''''\<rparr>"

definition validateTimeouts :: "Config \<Rightarrow> Config" where
  "validateTimeouts c =
     (let c1 = (if LDAPTimeout c \<le> 0 then c\<lparr>LDAPTimeout := DefaultTimeout\<rparr> else c);
          c2 = (if LDAPTimeout c1 > MaxTimeout then c1\<lparr>LDAPTimeout := MaxTimeout\<rparr> else c1);
          c3 = (if UpdateEvery c2 \<le> 0 then c2\<lparr>UpdateEvery := DefaultUpdateEvery\<rparr> else c2);
          c4 = (if UpdateEvery c3 < MinUpdateEvery then c3\<lparr>UpdateEvery := MinUpdateEvery\<rparr> else c3);
          c5 = (if UpdateEvery c4 > MaxUpdateEvery then c4\<lparr>UpdateEvery := MaxUpdateEvery\<rparr> else c4);
          c6 = (if length (ServerName c5) > MaxServerNameLen
                then c5\<lparr>ServerName := take MaxServerNameLen (ServerName c5)\<rparr> else c5)
      in c6)"

definition loadFilters :: "(string \<Rightarrow> string) \<Rightarrow> Config \<Rightarrow> Config" where
  "loadFilters env c =
     (let c1 = c\<lparr>MetricsInclude := parseMetricsList (getEnvOrDefault env ''OPENLDAP_METRICS_INCLUDE'' ''''),
                 MetricsExclude := parseMetricsList (getEnvOrDefault env ''OPENLDAP_METRICS_EXCLUDE'' ''''),
                 DCInclude := parseMetricsList (getEnvOrDefault env ''OPENLDAP_DC_INCLUDE'' ''''),
                 DCExclude := parseMetricsList (getEnvOrDefault env ''OPENLDAP_DC_EXCLUDE'' ''''),
                 AuthMethod := ToLower (getEnvOrDefault env ''LDAP_AUTH_METHOD'' ''simple'')\<rparr>
      in if AuthMethod c1 \<noteq> ''simple'' \<and> AuthMethod c1 \<noteq> ''external''
         then c1\<lparr>AuthMethod := ''simple''\<rparr> else c1)"

definition loadServices :: "(string \<Rightarrow> string) \<Rightarrow> Config \<Rightarrow> Config" where
  "loadServices env c =
     c\<lparr>RateLimitEnabled := getEnvBoolOrDefault env ''RATE_LIMIT_ENABLED'' True,
       TrustedProxies := parseMetricsList (getEnvOrDefault env ''HTTP_TRUSTED_PROXIES'' ''''),
       EventsEnabled := getEnvBoolOrDefault env ''OPENLDAP_EVENTS_ENABLED'' False,
       EventsInterval := parseEventsInterval (getEnvOrDefault env ''OPENLDAP_EVENTS_INTERVAL'' ''''),
       EventsOutput := TrimSpace (getEnvOrDefault env ''OPENLDAP_EVENTS_OUTPUT'' ''stdout''),
       EventsRotation := parseEventsRotation (getEnvOrDefault env ''OPENLDAP_EVENTS_ROTATION'' ''none''),
       EventsTypes := parseMetricsList (getEnvOrDefault env ''OPENLDAP_EVENTS_TYPES'' ''''),
       ReplicationPollEnabled := getEnvBoolOrDefault env ''OPENLDAP_REPLICATION_POLL_ENABLED'' False,
       ReplicationPollInterval :=
         parsePollInterval (getEnvOrDefault env ''OPENLDAP_REPLICATION_POLL_INTERVAL'' ''''),
       ReplicationPeers := parseMetricsList (getEnvOrDefault env ''OPENLDAP_REPLICATION_PEERS'' ''''),
       PeerUsername := getEnvOrDefault env ''OPENLDAP_PEER_USERNAME'' '''',
       PeerServerName := getEnvOrDefault env ''OPENLDAP_PEER_SERVER_NAME'' ''''\<rparr>"

text \<open>
  \<open>NewSecureString\<close> fails on the empty string only, and both calls are guarded against it; the
  two unreachable error returns are kept.
\<close>

definition LoadConfig :: "(string \<Rightarrow> string) \<Rightarrow> (string \<Rightarrow> string option) \<Rightarrow> load_error + Config" where
  "LoadConfig env files =
     (case loadPassword env files of
        Inl e \<Rightarrow> Inl e
      | Inr passwordValue \<Rightarrow>
          (let securePassword = (if passwordValue \<noteq> '''' then NewSecureString passwordValue else None)
           in if passwordValue \<noteq> '''' \<and> securePassword = None
              then Inl (LoadError ''failed to create secure password storage'')
              else
                let c = envConfig env securePassword;
                    authMethod = ToLower (getEnvOrDefault env ''LDAP_AUTH_METHOD'' ''simple'')
                in if URL c = '''' then Inl (LoadError ''LDAP_URL environment variable is required'')
                   else if authMethod \<noteq> ''external'' \<and> Username c = ''''
                   then Inl (LoadError ''LDAP_USERNAME environment variable is required'')
                   else if authMethod \<noteq> ''external'' \<and>
                           (Password c = None \<or> SecureString_IsEmpty (Password c))
                   then Inl (LoadError ''LDAP_PASSWORD or LDAP_PASSWORD_FILE is required'')
                   else
                     let c1 = loadServices env
                                (loadFilters env (validateCircuitBreakerConfig (validateTimeouts c)))
                     in case loadPeerPassword env files of
                          Inl e \<Rightarrow> Inl e
                        | Inr peerPw \<Rightarrow>
                            (if peerPw \<noteq> ''''
                             then (case NewSecureString peerPw of
                                     None \<Rightarrow> Inl (LoadError ''failed to create secure peer password storage'')
                                   | Some sp \<Rightarrow> Inr (c1\<lparr>PeerPassword := Some sp\<rparr>))
                             else Inr c1)))"

text \<open>
  \<open>Clear\<close> wipes the two credential objects and drops the configuration's pointers to them: the
  result is the configuration and what other holders of the two objects see afterwards.
\<close>

definition Config_Clear :: "Config \<Rightarrow> Config \<times> SecureString option \<times> SecureString option" where
  "Config_Clear c =
     (let (c1, pw) = (if Password c \<noteq> None then (c\<lparr>Password := None\<rparr>, SecureString_Clear (Password c))
                      else (c, None));
          (c2, peer) = (if PeerPassword c1 \<noteq> None
                        then (c1\<lparr>PeerPassword := None\<rparr>, SecureString_Clear (PeerPassword c1))
                        else (c1, None))
      in (c2, pw, peer))"

subsection \<open>Filters\<close>

definition ShouldCollectMetric :: "Config \<Rightarrow> string \<Rightarrow> bool" where
  "ShouldCollectMetric c metricGroup =
     (if length (MetricsInclude c) > 0 then list_ex (\<lambda>m. m = metricGroup) (MetricsInclude c)
      else if length (MetricsExclude c) > 0 \<and> list_ex (\<lambda>m. m = metricGroup) (MetricsExclude c)
      then False else True)"

definition ShouldMonitorDC :: "Config \<Rightarrow> string \<Rightarrow> bool" where
  "ShouldMonitorDC c domainComponent =
     (if length (DCInclude c) > 0 then list_ex (\<lambda>d. d = domainComponent) (DCInclude c)
      else if length (DCExclude c) > 0 \<and> list_ex (\<lambda>d. d = domainComponent) (DCExclude c)
      then False else True)"

subsection \<open>What a loaded configuration guarantees\<close>

definition trimmed :: "string \<Rightarrow> bool" where
  "trimmed s \<longleftrightarrow> s \<noteq> '''' \<and> TrimSpace s = s"

definition config_valid :: "Config \<Rightarrow> bool" where
  "config_valid c \<longleftrightarrow>
     URL c \<noteq> '''' \<and>
     (AuthMethod c = ''external'' \<or>
      AuthMethod c = ''simple'' \<and> Username c \<noteq> '''' \<and> \<not> SecureString_IsEmpty (Password c)) \<and>
     0 < LDAPTimeout c \<and> LDAPTimeout c \<le> MaxTimeout \<and>
     MinUpdateEvery \<le> UpdateEvery c \<and> UpdateEvery c \<le> MaxUpdateEvery \<and>
     ServerName c \<noteq> '''' \<and> length (ServerName c) \<le> MaxServerNameLen \<and>
     0 < CBMaxFailures c \<and> 0 < CBTimeout c \<and> 0 < CBResetTimeout c \<and> 0 < CBSuccessThreshold c \<and>
     MinEventsInterval \<le> EventsInterval c \<and> EventsInterval c \<le> MaxEventsInterval \<and>
     MinReplPollInterval \<le> ReplicationPollInterval c \<and>
     ReplicationPollInterval c \<le> MaxReplPollInterval \<and>
     list_all trimmed (MetricsInclude c @ MetricsExclude c @ DCInclude c @ DCExclude c @
       TrustedProxies c @ EventsTypes c @ ReplicationPeers c)"

lemma dropWhile_idem: "dropWhile P (dropWhile P s) = dropWhile P s"
  by (induction s) auto

lemma trim_right_idem: "trim_right P (trim_right P s) = trim_right P s"
  by (simp add: trim_right_def dropWhile_idem)

lemma trim_right_last: "trim_right P s = s \<longleftrightarrow> s = [] \<or> \<not> P (last s)"
proof (cases s rule: rev_cases)
  case (snoc ys y)
  have "length (dropWhile P (rev ys)) \<noteq> length (ys @ [y])"
    using length_dropWhile_le [of P "rev ys"] by simp
  then have "rev (dropWhile P (rev ys)) \<noteq> ys @ [y]" by (metis length_rev)
  with snoc show ?thesis by (auto simp: trim_right_def)
qed (simp add: trim_right_def)

lemma last_dropWhile_mem: "dropWhile P s \<noteq> [] \<Longrightarrow> last (dropWhile P s) = last s"
  by (metis append_Nil2 last_append takeWhile_dropWhile_id)

lemma TrimSpace_idem [simp]: "TrimSpace (TrimSpace s) = TrimSpace s"
proof -
  define r where "r = trim_right is_space s"
  have r: "trim_right is_space r = r" by (simp add: r_def trim_right_idem)
  have "trim_right is_space (dropWhile is_space r) = dropWhile is_space r"
    using r last_dropWhile_mem [of is_space r] unfolding trim_right_last
    by (metis dropWhile.simps(1))
  then show ?thesis by (simp add: TrimSpace_def trim_left_def dropWhile_idem r_def [symmetric])
qed

lemma parseMetricsList_trimmed: "list_all trimmed (parseMetricsList v)"
  by (auto simp: parseMetricsList_def list_all_iff trimmed_def)

lemma parseEventsInterval_bounds:
  "MinEventsInterval \<le> parseEventsInterval v \<and> parseEventsInterval v \<le> MaxEventsInterval"
  by (auto simp: parseEventsInterval_def Let_def config_defs time_defs split: option.splits)

lemma parsePollInterval_bounds:
  "MinReplPollInterval \<le> parsePollInterval v \<and> parsePollInterval v \<le> MaxReplPollInterval"
  by (auto simp: parsePollInterval_def Let_def config_defs time_defs split: option.splits)

lemma NewSecureString_nonempty: "NewSecureString v = Some r \<Longrightarrow> \<not> SecureString_IsEmpty (Some r)"
  by (auto simp: NewSecureString_def SecureString_IsEmpty_def split: if_splits)

text \<open>The parts of the record each loading stage leaves alone, and the ranges it establishes.\<close>

lemma validateTimeouts_ranges:
  "0 < LDAPTimeout (validateTimeouts c) \<and> LDAPTimeout (validateTimeouts c) \<le> MaxTimeout"
  "MinUpdateEvery \<le> UpdateEvery (validateTimeouts c) \<and> UpdateEvery (validateTimeouts c) \<le> MaxUpdateEvery"
  "length (ServerName (validateTimeouts c)) \<le> MaxServerNameLen"
  by (simp_all add: validateTimeouts_def Let_def config_defs time_defs)

lemma validateTimeouts_minimum: "second dvd LDAPTimeout c \<Longrightarrow> MinTimeout \<le> LDAPTimeout (validateTimeouts c)"
proof (cases "0 < LDAPTimeout c")
  case True
  assume "second dvd LDAPTimeout c"
  then have "second \<le> LDAPTimeout c" using True zdvd_imp_le by blast
  then show ?thesis by (simp add: validateTimeouts_def Let_def config_defs time_defs MinTimeout_def)
qed (simp add: validateTimeouts_def Let_def config_defs time_defs MinTimeout_def)

lemma seconds_env_whole:
  "\<bar>getEnvIntOrDefault env key dflt * second\<bar> < 2 ^ 63 \<Longrightarrow> second dvd seconds_env env key dflt"
  by (simp add: seconds_env_def wrap64_id abs_less_iff)

lemma validateTimeouts_frame:
  "URL (validateTimeouts c) = URL c" "Username (validateTimeouts c) = Username c"
  "Password (validateTimeouts c) = Password c" "ServerName c \<noteq> '''' \<Longrightarrow> ServerName (validateTimeouts c) \<noteq> ''''"
  by (simp_all add: validateTimeouts_def Let_def MaxServerNameLen_def)

lemma validateCircuitBreakerConfig_positive:
  "0 < CBMaxFailures (validateCircuitBreakerConfig c)" "0 < CBTimeout (validateCircuitBreakerConfig c)"
  "0 < CBResetTimeout (validateCircuitBreakerConfig c)"
  "0 < CBSuccessThreshold (validateCircuitBreakerConfig c)"
  by (simp_all add: validateCircuitBreakerConfig_def Let_def config_defs time_defs)

lemma validateCircuitBreakerConfig_frame:
  "URL (validateCircuitBreakerConfig c) = URL c"
  "Username (validateCircuitBreakerConfig c) = Username c"
  "Password (validateCircuitBreakerConfig c) = Password c"
  "LDAPTimeout (validateCircuitBreakerConfig c) = LDAPTimeout c"
  "UpdateEvery (validateCircuitBreakerConfig c) = UpdateEvery c"
  "ServerName (validateCircuitBreakerConfig c) = ServerName c"
  by (simp_all add: validateCircuitBreakerConfig_def Let_def)

lemma loadFilters_frame:
  "URL (loadFilters env c) = URL c" "Username (loadFilters env c) = Username c"
  "Password (loadFilters env c) = Password c" "LDAPTimeout (loadFilters env c) = LDAPTimeout c"
  "UpdateEvery (loadFilters env c) = UpdateEvery c" "ServerName (loadFilters env c) = ServerName c"
  "CBMaxFailures (loadFilters env c) = CBMaxFailures c" "CBTimeout (loadFilters env c) = CBTimeout c"
  "CBResetTimeout (loadFilters env c) = CBResetTimeout c"
  "CBSuccessThreshold (loadFilters env c) = CBSuccessThreshold c"
  by (simp_all add: loadFilters_def Let_def)

lemma loadFilters_lists:
  "list_all trimmed (MetricsInclude (loadFilters env c))" "list_all trimmed (MetricsExclude (loadFilters env c))"
  "list_all trimmed (DCInclude (loadFilters env c))" "list_all trimmed (DCExclude (loadFilters env c))"
  by (simp_all add: loadFilters_def Let_def parseMetricsList_trimmed)

lemma loadFilters_auth:
  "AuthMethod (loadFilters env c) =
     (if ToLower (getEnvOrDefault env ''LDAP_AUTH_METHOD'' ''simple'') = ''external''
      then ''external'' else ''simple'')"
  by (simp add: loadFilters_def Let_def)

lemmas config_frames =
  validateTimeouts_frame validateCircuitBreakerConfig_frame loadFilters_frame

lemma loadServices_valid:
  assumes "URL c \<noteq> ''''" "ServerName c \<noteq> ''''" "length (ServerName c) \<le> MaxServerNameLen"
    and "AuthMethod c = ''external'' \<or>
         AuthMethod c = ''simple'' \<and> Username c \<noteq> '''' \<and> \<not> SecureString_IsEmpty (Password c)"
    and "0 < LDAPTimeout c \<and> LDAPTimeout c \<le> MaxTimeout"
    and "MinUpdateEvery \<le> UpdateEvery c \<and> UpdateEvery c \<le> MaxUpdateEvery"
    and "0 < CBMaxFailures c" "0 < CBTimeout c" "0 < CBResetTimeout c" "0 < CBSuccessThreshold c"
    and "list_all trimmed (MetricsInclude c)" "list_all trimmed (MetricsExclude c)"
    and "list_all trimmed (DCInclude c)" "list_all trimmed (DCExclude c)"
  shows "config_valid (loadServices env c)"
  using assms
  by (simp add: config_valid_def loadServices_def parseEventsInterval_bounds parsePollInterval_bounds
      parseMetricsList_trimmed)

lemma config_valid_peer: "config_valid (c\<lparr>PeerPassword := p\<rparr>) = config_valid c"
  by (simp add: config_valid_def)

lemma envConfig_ServerName: "ServerName (envConfig env pw) \<noteq> ''''"
  by (simp add: envConfig_def getEnvOrDefault_def)

text \<open>C14. Whatever the environment and the secret files hold, \<open>LoadConfig\<close> either stops with an
  error or returns a configuration with a non-empty URL, EXTERNAL authentication or a user name
  with a non-empty password, a positive timeout of at most five minutes, the update, events and
  poll intervals between their documented bounds, positive circuit breaker settings, a server name of bounded
  length and filter lists without blank entries. The timeout also keeps its documented minimum
  of one second unless the number of seconds in \<open>LDAP_TIMEOUT\<close> overflows a 64-bit duration, in which case it can be less
  (\<open>timeout_wraps_below_minimum\<close>).\<close>

theorem LoadConfig_valid:
  "LoadConfig env files = Inr c \<Longrightarrow>
     config_valid c \<and>
     (\<bar>getEnvIntOrDefault env ''LDAP_TIMEOUT'' 10 * second\<bar> < 2 ^ 63 \<longrightarrow> MinTimeout \<le> LDAPTimeout c)"
proof -
  assume l: "LoadConfig env files = Inr c"
  then obtain pw where pw: "loadPassword env files = Inr pw"
    by (auto simp: LoadConfig_def split: sum.splits)
  define sp where "sp = (if pw \<noteq> '''' then NewSecureString pw else None)"
  define c0 where "c0 = envConfig env sp"
  define c1 where "c1 = loadServices env (loadFilters env (validateCircuitBreakerConfig (validateTimeouts c0)))"
  have P: "Password c0 = sp" by (simp add: c0_def envConfig_def)
  have g: "URL c0 \<noteq> ''''"
    "ToLower (getEnvOrDefault env ''LDAP_AUTH_METHOD'' ''simple'') = ''external'' \<or>
       Username c0 \<noteq> '''' \<and> \<not> SecureString_IsEmpty (Password c0)"
    and c: "\<exists>p. c = c1\<lparr>PeerPassword := p\<rparr> \<or> c = c1"
    using l pw by (auto simp: LoadConfig_def Let_def c0_def [symmetric] c1_def [symmetric] sp_def [symmetric]
        split: if_splits sum.splits option.splits)
  have "config_valid c1" unfolding c1_def
    using g validateTimeouts_ranges [of c0] envConfig_ServerName [of env sp]
    by (intro loadServices_valid)
       (auto simp: config_frames loadFilters_lists loadFilters_auth validateCircuitBreakerConfig_positive c0_def)
  moreover have "LDAPTimeout c1 = LDAPTimeout (validateTimeouts c0)"
    by (simp add: c1_def loadServices_def validateCircuitBreakerConfig_frame loadFilters_frame)
  moreover have "LDAPTimeout c0 = seconds_env env ''LDAP_TIMEOUT'' 10" by (simp add: c0_def envConfig_def)
  ultimately show ?thesis using c validateTimeouts_minimum [of c0] seconds_env_whole [of env "''LDAP_TIMEOUT''" 10]
    by (auto simp: config_valid_peer)
qed

definition env_of :: "(string \<times> string) list \<Rightarrow> string \<Rightarrow> string" where
  "env_of vars key = (case map_of vars key of Some v \<Rightarrow> v | None \<Rightarrow> '''')"

lemma LoadConfig_valid_witness:
  "\<exists>c. LoadConfig (env_of [(''LDAP_URL'', ''ldap://a''), (''LDAP_AUTH_METHOD'', ''EXTERNAL'')]) (\<lambda>_. None) = Inr c
      \<and> AuthMethod c = ''external'' \<and> config_valid c \<and> MinTimeout \<le> LDAPTimeout c"
proof -
  let ?env = "env_of [(''LDAP_URL'', ''ldap://a''), (''LDAP_AUTH_METHOD'', ''EXTERNAL'')]"
  have a: "ToLower (getEnvOrDefault ?env ''LDAP_AUTH_METHOD'' ''simple'') = ''external''"
    by code_simp
  obtain c where c: "LoadConfig ?env (\<lambda>_. None) = Inr c" "AuthMethod c = ''external''"
    using a by (simp add: LoadConfig_def loadPassword_def loadPeerPassword_def envConfig_def Let_def
        getEnvOrDefault_def env_of_def loadServices_def loadFilters_auth)
  moreover have "getEnvIntOrDefault ?env ''LDAP_TIMEOUT'' 10 = 10" by code_simp
  ultimately show ?thesis using LoadConfig_valid [OF c(1)] by (auto simp: second_def)
qed

text \<open> The lower bound of the timeout is not enforced: \<open>LDAP_TIMEOUT\<close> is multiplied by a
  second in 64-bit arithmetic, and a value whose product wraps to a small positive number passes
  both checks. With 18446744073710 seconds the exporter runs with a timeout below the documented
  minimum of one second.\<close>

theorem timeout_wraps_below_minimum:
  "LDAPTimeout (validateTimeouts (envConfig (env_of [(''LDAP_TIMEOUT'', ''18446744073710'')]) pw)) = 448384000
   \<and> 448384000 < second"
proof -
  have "Atoi ''18446744073710'' = Some 18446744073710" by code_simp
  then have "seconds_env (env_of [(''LDAP_TIMEOUT'', ''18446744073710'')]) ''LDAP_TIMEOUT'' 10 = 448384000"
    by (simp add: seconds_env_def getEnvIntOrDefault_def env_of_def wrap64_def second_def)
  then show ?thesis
    by (simp add: validateTimeouts_def envConfig_def Let_def config_defs time_defs)
qed

lemma Split_sep_free: "c \<notin> set s \<Longrightarrow> Split s c = [s]"
  by (induction s) auto

lemma Split_append: "c \<notin> set s \<Longrightarrow> Split (s @ c # t) c = s # Split t c"
  by (induction s) auto

lemma Split_Join:
  "xs \<noteq> [] \<Longrightarrow> list_all (\<lambda>x. c \<notin> set x) xs \<Longrightarrow> Split (Join xs [c]) c = xs"
  by (induction xs "[c]" rule: Join.induct) (auto simp: Split_sep_free Split_append)

text \<open> A list of names survives the trip through its environment variable: joining non-blank
  names that are trimmed and hold no comma, and parsing the result, gives the names back.\<close>

theorem parseMetricsList_Join:
  "list_all (\<lambda>x. trimmed x \<and> CHR '','' \<notin> set x) xs \<Longrightarrow> parseMetricsList (Join xs '','') = xs"
proof (cases "xs = []")
  case False
  assume a: "list_all (\<lambda>x. trimmed x \<and> CHR '','' \<notin> set x) xs"
  have s: "Split (Join xs '','') CHR '','' = xs" using a False by (intro Split_Join) (auto simp: list_all_iff)
  have m: "map TrimSpace xs = xs" using a by (induction xs) (auto simp: trimmed_def)
  have f: "filter (\<lambda>t. t \<noteq> '''') xs = xs" using a by (auto simp: list_all_iff trimmed_def filter_id_conv)
  have "Join xs '','' \<noteq> ''''"
    using a False by (cases xs; cases "tl xs") (auto simp: trimmed_def)
  then show ?thesis by (simp add: parseMetricsList_def s m f)
qed (simp add: parseMetricsList_def)

lemma parseMetricsList_Join_witness:
  "parseMetricsList (Join [''tls'', ''health''] '','') = [''tls'', ''health'']"
proof -
  have "list_all (\<lambda>x. trimmed x \<and> CHR '','' \<notin> set x) [''tls'', ''health'']" by code_simp
  then show ?thesis by (rule parseMetricsList_Join)
qed

text \<open>The include list has absolute priority over the exclude list, for metric groups and for
  domain components alike: with an include list, exactly its members are collected; without one,
  everything but the members of the exclude list.\<close>

theorem include_has_priority:
  "ShouldCollectMetric c g =
     (if MetricsInclude c \<noteq> [] then g \<in> set (MetricsInclude c) else g \<notin> set (MetricsExclude c)) \<and>
   ShouldMonitorDC c d =
     (if DCInclude c \<noteq> [] then d \<in> set (DCInclude c) else d \<notin> set (DCExclude c))"
  by (auto simp: ShouldCollectMetric_def ShouldMonitorDC_def list_ex_iff)

text \<open>Clearing the configuration leaves no credential behind, in it or in the objects it held.\<close>

lemma Config_Clear_wipes:
  "Config_Clear c = (c', pw, peer) \<Longrightarrow>
     Password c' = None \<and> PeerPassword c' = None \<and> SecureString_IsEmpty pw \<and> SecureString_IsEmpty peer"
  by (auto simp: Config_Clear_def SecureString_Clear_def SecureString_IsEmpty_def Let_def
      split: if_splits option.splits)

end
