(* ===== verification/ConnectionPool.thy ===== *)
theory ConnectionPool
  imports Ldap Config
begin

section \<open>The connection pool (pkg/pool/pool*.go)\<close>

text \<open>
  A \<open>*PooledConnection\<close> is an index into the pool's \<open>heap\<close>; a nil pointer is \<open>None\<close> where the
  code tests for it. The buffered channel is the list \<open>chan\<close>, oldest element first; only
  \<open>Put\<close> and the maintenance send on it, and neither sends nil. The counters are the atomics of
  the struct. Calls of the monitoring interface are appended to \<open>poolLog\<close> with their labels.
  Operations run here one at a time; a goroutine that blocks on the channel lets the others
  run (\<open>others\<close>). PoolConcurrency interleaves their atomic steps.
\<close>

subsection \<open>State\<close>

datatype pool_event =
    RecordPoolOperation string
  | RecordPoolConnections string float64
  | RecordPoolUtilization float64
  | RecordPoolWaitTime duration
  | RecordPoolWaitTimeout
  | RecordPoolConnectionCreated
  | RecordPoolConnectionClosed string
  | RecordPoolConnectionFailed string
  | RecordPoolConnectionReused
  | RecordPoolGetRequest
  | RecordPoolGetFailure string
  | RecordPoolPutRequest
  | RecordPoolPutRejection string

record PooledConnection =
  conn :: "nat option"
  createdAt :: time
  lastUsed :: time
  inUse :: bool
  broken :: bool

record ConnectionPool =
  poolConfig :: Config
  chan :: "nat list"
  heap :: "nat \<Rightarrow> PooledConnection"
  allocated :: nat
  maxConnections :: int
  activeConns :: int
  poolSize :: int
  connTimeout :: duration
  idleTimeout :: duration
  maxIdleTime :: duration
  closed :: bool
  closeDone :: bool \<comment> \<open>\<open>closeOnce\<close> has run\<close>
  poolMonitoring :: bool \<comment> \<open>whether a monitoring object was given\<close>
  poolServerName :: string
  poolType :: string
  poolLog :: "(string \<times> string \<times> pool_event) list"

datatype pool_error =
    ErrPoolClosed
  | ContextError ctx_err
  | CreateError string
  | NilConnection
  | NoValidConnection
  | NoConnectionAfterRetries

definition DefaultMaxRetries :: nat where
  "DefaultMaxRetries = 3"

definition DefaultPoolType :: string where
  "DefaultPoolType = ''ldap''"

definition DefaultHealthCheckInterval :: duration where
  "DefaultHealthCheckInterval = 30 * second"

definition nil_connection :: PooledConnection where
  "nil_connection = \<lparr>conn = None, createdAt = 0, lastUsed = 0, inUse = False, broken = False\<rparr>"

text \<open>\<open>None\<close> is the panic of \<open>make\<close> with a negative channel capacity.\<close>

definition NewConnectionPoolWithType ::
  "Config \<Rightarrow> int \<Rightarrow> bool \<Rightarrow> string \<Rightarrow> string \<Rightarrow> ConnectionPool option" where
  "NewConnectionPoolWithType cfg maxConns mon serverName pType =
     (let pt = (if pType = '''' then DefaultPoolType else pType)
      in if maxConns < 0 then None
         else Some \<lparr>poolConfig = cfg, chan = [], heap = (\<lambda>_. nil_connection), allocated = 0,
                maxConnections = maxConns, activeConns = 0, poolSize = 0,
                connTimeout = 30 * second, idleTimeout = 5 * minute, maxIdleTime = 10 * minute,
                closed = False, closeDone = False, poolMonitoring = mon,
                poolServerName = serverName, poolType = pt, poolLog = []\<rparr>)"

definition NewConnectionPoolWithMonitoring ::
  "Config \<Rightarrow> int \<Rightarrow> bool \<Rightarrow> string \<Rightarrow> ConnectionPool option" where
  "NewConnectionPoolWithMonitoring cfg maxConns mon serverName =
     NewConnectionPoolWithType cfg maxConns mon serverName DefaultPoolType"

definition NewConnectionPool :: "Config \<Rightarrow> int \<Rightarrow> ConnectionPool option" where
  "NewConnectionPool cfg maxConns = NewConnectionPoolWithMonitoring cfg maxConns False ''''"

definition update_conn :: "nat \<Rightarrow> (PooledConnection \<Rightarrow> PooledConnection) \<Rightarrow> ConnectionPool \<Rightarrow> ConnectionPool" where
  "update_conn c f p = p\<lparr>heap := (heap p)(c := f (heap p c))\<rparr>"

subsection \<open>Metrics (pool_metrics.go)\<close>

definition emit :: "pool_event \<Rightarrow> ConnectionPool \<Rightarrow> ConnectionPool" where
  "emit ev p =
     (if poolMonitoring p \<and> poolServerName p \<noteq> ''''
      then p\<lparr>poolLog := poolLog p @ [(poolServerName p, poolType p, ev)]\<rparr> else p)"

definition updateMetrics :: "ConnectionPool \<Rightarrow> ConnectionPool" where
  "updateMetrics p =
     (let active = activeConns p; size = poolSize p;
          idle = (if size - active < 0 then 0 else size - active);
          utilization = f_div (f_of_int active) (f_of_int (maxConnections p));
          p1 = emit (RecordPoolConnections ''active'' (f_of_int active)) p;
          p2 = emit (RecordPoolConnections ''idle'' (f_of_int idle)) p1;
          p3 = emit (RecordPoolConnections ''total'' (f_of_int size)) p2
      in emit (RecordPoolUtilization utilization) p3)"

definition recordOperation :: "string \<Rightarrow> ConnectionPool \<Rightarrow> ConnectionPool" where
  "recordOperation operation p = emit (RecordPoolOperation operation) p"

definition recordGetRequest :: "ConnectionPool \<Rightarrow> ConnectionPool" where
  "recordGetRequest p = emit RecordPoolGetRequest p"

definition recordGetFailure :: "string \<Rightarrow> ConnectionPool \<Rightarrow> ConnectionPool" where
  "recordGetFailure reason p = emit (RecordPoolGetFailure reason) p"

definition recordConnectionReused :: "ConnectionPool \<Rightarrow> ConnectionPool" where
  "recordConnectionReused p = emit RecordPoolConnectionReused p"

definition recordWaitTime :: "duration \<Rightarrow> ConnectionPool \<Rightarrow> ConnectionPool" where
  "recordWaitTime d p = emit (RecordPoolWaitTime d) p"

definition recordConnectionCreationFailure :: "string \<Rightarrow> ConnectionPool \<Rightarrow> ConnectionPool" where
  "recordConnectionCreationFailure err p =
     (let errStr = ToLower err;
          reason = (if Contains errStr ''auth'' \<or> Contains errStr ''invalid credentials''
                    then ''auth_error'' else ''network_error'')
      in emit (RecordPoolGetFailure ''creation_failed'') (emit (RecordPoolConnectionFailed reason) p))"

definition recordConnectionCreationSuccess ::
  "'w Env \<Rightarrow> time \<Rightarrow> ConnectionPool \<Rightarrow> 'w \<Rightarrow> ConnectionPool \<times> 'w" where
  "recordConnectionCreationSuccess L start p w =
     (let p1 = emit RecordPoolConnectionCreated p;
          (t, w1) = (if poolMonitoring p \<and> poolServerName p \<noteq> '''' then Now L w else (start, w));
          p2 = emit (RecordPoolWaitTime (time_Sub t start)) p1
      in (updateMetrics (recordOperation ''get'' p2), w1))"

definition recordContextTimeout :: "'w Env \<Rightarrow> ConnectionPool \<Rightarrow> 'w \<Rightarrow> ConnectionPool" where
  "recordContextTimeout L p w =
     (if CtxErr L w = Some DeadlineExceeded
      then emit (RecordPoolGetFailure ''timeout'') (emit RecordPoolWaitTimeout p) else p)"

subsection \<open>Connections (pool\_connections.go)\<close>

definition buildTLSConfig :: "'w Env \<Rightarrow> ConnectionPool \<Rightarrow> 'w \<Rightarrow> (string + TLSConfig) \<times> 'w" where
  "buildTLSConfig L p w =
     (let cfg = poolConfig p;
          c0 = \<lparr>InsecureSkipVerify = TLSSkipVerify cfg, MinVersion = VersionTLS12,
                tlsServerName = '''', RootCAs = None, Certificates = []\<rparr>;
          c1 = (if TLSServerName cfg \<noteq> '''' then c0\<lparr>tlsServerName := TLSServerName cfg\<rparr> else c0);
          (r2, w2) = (if TLSCA cfg \<noteq> ''''
                      then (case ReadFile L (TLSCA cfg) w of
                              (Inl e, w1) \<Rightarrow> (Inl e, w1)
                            | (Inr caCert, w1) \<Rightarrow>
                                (if \<not> AppendCertsFromPEM L caCert
                                 then (Inl ''failed to parse CA certificate'', w1)
                                 else (Inr (c1\<lparr>RootCAs := Some caCert\<rparr>), w1)))
                      else (Inr c1, w))
      in case r2 of
           Inl e \<Rightarrow> (Inl e, w2)
         | Inr c2 \<Rightarrow>
             (if TLSCert cfg \<noteq> '''' \<and> TLSKey cfg \<noteq> ''''
              then (case LoadX509KeyPair L (TLSCert cfg) (TLSKey cfg) w2 of
                      (Inl e, w3) \<Rightarrow> (Inl e, w3)
                    | (Inr cert, w3) \<Rightarrow> (Inr (c2\<lparr>Certificates := [cert]\<rparr>), w3))
              else (Inr c2, w2)))"

definition dial :: "'w Env \<Rightarrow> ConnectionPool \<Rightarrow> 'w \<Rightarrow> (string + nat option) \<times> 'w" where
  "dial L p w =
     (if TLS (poolConfig p)
      then (case buildTLSConfig L p w of
              (Inl e, w1) \<Rightarrow> (Inl e, w1)
            | (Inr tlsConfig, w1) \<Rightarrow> DialURL L (URL (poolConfig p)) (Some tlsConfig) w1)
      else DialURL L (URL (poolConfig p)) None w)"

definition bind_credentials :: "'w Env \<Rightarrow> ConnectionPool \<Rightarrow> nat \<Rightarrow> 'w \<Rightarrow> (string + nat) \<times> 'w" where
  "bind_credentials L p h w =
     (let cfg = poolConfig p
      in if AuthMethod cfg = ''external''
         then (case ExternalBind L h w of
                 (Some err, w1) \<Rightarrow>
                   (Inl (''SASL EXTERNAL bind failed: '' @ err), snd (ConnClose L h w1))
               | (None, w1) \<Rightarrow> (Inr h, w1))
         else if Username cfg \<noteq> '''' \<and> Password cfg \<noteq> None \<and> \<not> SecureString_IsEmpty (Password cfg)
         then (case Bind L h (Username cfg) (SecureString_String (Password cfg)) w of
                 (Some err, w1) \<Rightarrow> (Inl (''LDAP bind failed: '' @ err), snd (ConnClose L h w1))
               | (None, w1) \<Rightarrow> (Inr h, w1))
         else (Inr h, w))"

definition establishConnection :: "'w Env \<Rightarrow> ConnectionPool \<Rightarrow> 'w \<Rightarrow> (string + nat) \<times> 'w" where
  "establishConnection L p w =
     (case dial L p w of
        (Inl err, w1) \<Rightarrow> (Inl err, w1)
      | (Inr None, w1) \<Rightarrow> (Inl ''connection is nil after dial'', w1)
      | (Inr (Some h), w1) \<Rightarrow>
          bind_credentials L p h (SetTimeout L h (LDAPTimeout (poolConfig p)) w1))"

text \<open>A fresh \<open>PooledConnection\<close> is allocated; the two clock readings are those of the literal.\<close>

definition createConnection ::
  "'w Env \<Rightarrow> ConnectionPool \<Rightarrow> 'w \<Rightarrow> (string + nat) \<times> ConnectionPool \<times> 'w" where
  "createConnection L p w =
     (case establishConnection L p w of
        (Inl err, w1) \<Rightarrow> (Inl err, p, w1)
      | (Inr h, w1) \<Rightarrow>
          (let (t1, w2) = Now L w1; (t2, w3) = Now L w2; c = allocated p
           in (Inr c,
               p\<lparr>heap := (heap p)(c := \<lparr>conn = Some h, createdAt = t1, lastUsed = t2,
                                        inUse = False, broken = False\<rparr>),
                 allocated := c + 1\<rparr>, w3)))"

definition ping_request :: SearchRequest where
  "ping_request =
     \<lparr>BaseDN = '''', scope = ScopeBaseObject, SizeLimit = 1, TimeLimit = 3, TypesOnly = False,
      Filter = ''(objectClass=*)'', Attributes = [''objectClass'']\<rparr>"

definition pingConnection :: "'w Env \<Rightarrow> nat \<Rightarrow> ConnectionPool \<Rightarrow> 'w \<Rightarrow> bool \<times> 'w" where
  "pingConnection L c p w =
     (case conn (heap p c) of
        None \<Rightarrow> (False, w)
      | Some h \<Rightarrow>
          (case ConnSearch L h ping_request w of
             (Inl err, w1) \<Rightarrow> (False, w1)
           | (Inr res, w1) \<Rightarrow> (True, w1)))"

text \<open>The check under the connection's lock, which the maintenance runs.\<close>

definition isConnectionValidLocked :: "'w Env \<Rightarrow> nat \<Rightarrow> ConnectionPool \<Rightarrow> 'w \<Rightarrow> bool \<times> 'w" where
  "isConnectionValidLocked L c p w =
     (let pc = heap p c
      in if conn pc = None then (False, w)
         else let (t1, w1) = Now L w
              in if time_Sub t1 (createdAt pc) > maxIdleTime p then (False, w1)
                 else if inUse pc then (True, w1)
                 else let (t2, w2) = Now L w1
                      in if time_Sub t2 (lastUsed pc) > idleTimeout p then (False, w2)
                         else let (t3, w3) = Now L w2
                              in if time_Sub t3 (lastUsed pc) > 30 * second
                                 then pingConnection L c p w3
                                 else (True, w3))"

definition isConnectionValid :: "'w Env \<Rightarrow> nat \<Rightarrow> ConnectionPool \<Rightarrow> 'w \<Rightarrow> bool \<times> 'w" where
  "isConnectionValid L c p w =
     (if conn (heap p c) = None then (False, w) else isConnectionValidLocked L c p w)"

definition closeConnectionWithReason ::
  "'w Env \<Rightarrow> nat \<Rightarrow> string \<Rightarrow> ConnectionPool \<Rightarrow> 'w \<Rightarrow> ConnectionPool \<times> 'w" where
  "closeConnectionWithReason L c reason p w =
     (case conn (heap p c) of
        None \<Rightarrow> (p, w)
      | Some h \<Rightarrow>
          (let (err, w1) = ConnClose L h w;
               p1 = emit (RecordPoolConnectionClosed (if err \<noteq> None then ''error'' else reason)) p
           in (p1\<lparr>activeConns := activeConns p1 - 1\<rparr>, w1)))"

subsection \<open>Taking a connection (pool\_operations.go)\<close>

text \<open>The check of \<open>Get\<close> and \<open>Put\<close> on a snapshot of the connection's fields.\<close>

definition isConnectionUsable :: "'w Env \<Rightarrow> nat \<Rightarrow> ConnectionPool \<Rightarrow> 'w \<Rightarrow> bool \<times> 'w" where
  "isConnectionUsable L c p w =
     (if conn (heap p c) = None then (False, w)
      else
        let inuse = inUse (heap p c); last_used = lastUsed (heap p c); created_at = createdAt (heap p c);
            (t1, w1) = Now L w
        in if time_Sub t1 created_at > maxIdleTime p then (False, w1)
           else let (t2, w2) = (if \<not> inuse then Now L w1 else (t1, w1))
                in if \<not> inuse \<and> time_Sub t2 last_used > idleTimeout p then (False, w2)
                   else let (t3, w3) = (if \<not> inuse then Now L w2 else (t2, w2))
                        in if \<not> inuse \<and> time_Sub t3 last_used > 30 * second
                           then pingConnection L c p w3
                           else (True, w3))"

definition checkPoolClosed :: "ConnectionPool \<Rightarrow> pool_error option" where
  "checkPoolClosed p = (if closed p then Some ErrPoolClosed else None)"

definition validateAndPrepareConnection ::
  "'w Env \<Rightarrow> nat \<Rightarrow> time \<Rightarrow> ConnectionPool \<Rightarrow> 'w \<Rightarrow> nat option \<times> ConnectionPool \<times> 'w" where
  "validateAndPrepareConnection L c start p w =
     (case isConnectionUsable L c p w of
        (False, w1) \<Rightarrow> (let (p1, w2) = closeConnectionWithReason L c ''error'' p w1 in (None, p1, w2))
      | (True, w1) \<Rightarrow>
          (let (t, w2) = Now L w1;
               p1 = update_conn c (\<lambda>pc. pc\<lparr>inUse := True, lastUsed := t\<rparr>) p;
               p2 = recordConnectionReused p1;
               (t2, w3) = Now L w2
           in (Some c, recordWaitTime (time_Sub t2 start) p2, w3)))"

text \<open>A select with a ready receive, a context and a default case.\<close>

definition tryGetExistingConnection ::
  "'w Env \<Rightarrow> time \<Rightarrow> ConnectionPool \<Rightarrow> 'w \<Rightarrow> nat option \<times> ConnectionPool \<times> 'w" where
  "tryGetExistingConnection L start p w =
     (case chan p of
        [] \<Rightarrow> (None, p, w)
      | c # rest \<Rightarrow>
          (let (done, w1) = (if CtxErr L w \<noteq> None then SelectDone L w else (False, w))
           in if done then (None, p, w1)
              else validateAndPrepareConnection L c start
                     (p\<lparr>chan := rest, poolSize := poolSize p - 1\<rparr>) w1))"

definition createAndRecordConnection ::
  "'w Env \<Rightarrow> time \<Rightarrow> ConnectionPool \<Rightarrow> 'w \<Rightarrow> (pool_error + nat option) \<times> ConnectionPool \<times> 'w" where
  "createAndRecordConnection L start p w =
     (case createConnection L p w of
        (Inl err, p1, w1) \<Rightarrow>
          (Inl (CreateError (''failed to create new connection: '' @ err)),
           recordConnectionCreationFailure err (p1\<lparr>activeConns := activeConns p1 - 1\<rparr>), w1)
      | (Inr c, p1, w1) \<Rightarrow>
          (let (p2, w2) = recordConnectionCreationSuccess L start
                            (update_conn c (\<lambda>pc. pc\<lparr>inUse := True\<rparr>) p1) w1
           in (Inr (Some c), p2, w2)))"

text \<open>One goroutine at a time: the compare-and-swap of the reservation succeeds at once.\<close>

definition tryCreateNewConnection ::
  "'w Env \<Rightarrow> time \<Rightarrow> ConnectionPool \<Rightarrow> 'w \<Rightarrow> (pool_error + nat option) \<times> ConnectionPool \<times> 'w" where
  "tryCreateNewConnection L start p w =
     (if activeConns p \<ge> maxConnections p then (Inr None, p, w)
      else createAndRecordConnection L start (p\<lparr>activeConns := activeConns p + 1\<rparr>) w)"

text \<open>
  The blocking select: the other goroutines run, then either the channel or the context is
  ready. \<open>None\<close> is a goroutine that blocks for good.
\<close>

definition waitForConnection ::
  "(ConnectionPool \<Rightarrow> 'w \<Rightarrow> ConnectionPool \<times> 'w) \<Rightarrow> 'w Env \<Rightarrow> time \<Rightarrow> ConnectionPool \<Rightarrow> 'w
     \<Rightarrow> ((pool_error + nat option) \<times> ConnectionPool \<times> 'w) option" where
  "waitForConnection others L start p0 w0 =
     (let (p, w) = (if chan p0 = [] \<and> CtxErr L w0 = None then others p0 w0 else (p0, w0))
      in case (chan p, CtxErr L w) of
           ([], None) \<Rightarrow> None
         | ([], Some e) \<Rightarrow> Some (Inl (ContextError e), recordContextTimeout L p w, w)
         | (c # rest, ce) \<Rightarrow>
             (let (done, w1) = (if ce \<noteq> None then SelectDone L w else (False, w))
              in case (done, ce) of
                   (True, Some e) \<Rightarrow> Some (Inl (ContextError e), recordContextTimeout L p w1, w1)
                 | _ \<Rightarrow>
                     (case validateAndPrepareConnection L c start
                             (p\<lparr>chan := rest, poolSize := poolSize p - 1\<rparr>) w1 of
                        (Some v, p2, w2) \<Rightarrow>
                          (if poolMonitoring p2 \<and> poolServerName p2 \<noteq> ''''
                           then let (t, w3) = Now L w2
                                in Some (Inr (Some v), emit (RecordPoolWaitTime (time_Sub t start))
                                                         (emit RecordPoolConnectionReused p2), w3)
                           else Some (Inr (Some v), p2, w2))
                      | (None, p2, w2) \<Rightarrow> Some (Inl NoValidConnection, p2, w2))))"

definition retryDelay ::
  "'w Env \<Rightarrow> ConnectionPool \<Rightarrow> 'w \<Rightarrow> ctx_err option \<times> ConnectionPool \<times> 'w" where
  "retryDelay L p w =
     (let w1 = Sleep L (10 * millisecond) w
      in case CtxErr L w1 of
           None \<Rightarrow> (None, p, w1)
         | Some e \<Rightarrow>
             (let (done, w2) = SelectDone L w1
              in if done then (Some e, recordContextTimeout L p w2, w2) else (None, p, w2)))"

text \<open>The retry loop of \<open>Get\<close>, by the number of attempts left.\<close>

fun get_attempts ::
  "(ConnectionPool \<Rightarrow> 'w \<Rightarrow> ConnectionPool \<times> 'w) \<Rightarrow> 'w Env \<Rightarrow> time \<Rightarrow> nat \<Rightarrow> ConnectionPool \<Rightarrow> 'w
     \<Rightarrow> ((pool_error + nat) \<times> ConnectionPool \<times> 'w) option" where
  "get_attempts others L start 0 p w =
     Some (Inl NoConnectionAfterRetries, recordGetFailure ''max_attempts'' p, w)"
| "get_attempts others L start (Suc n) p w =
     (case tryGetExistingConnection L start p w of
        (Some c, p1, w1) \<Rightarrow> Some (Inr c, p1, w1)
      | (None, p1, w1) \<Rightarrow>
          (case CtxErr L w1 of
             Some e \<Rightarrow> Some (Inl (ContextError e), p1, w1)
           | None \<Rightarrow>
               (case tryCreateNewConnection L start p1 w1 of
                  (Inl err, p2, w2) \<Rightarrow> Some (Inl err, p2, w2)
                | (Inr (Some c), p2, w2) \<Rightarrow> Some (Inr c, p2, w2)
                | (Inr None, p2, w2) \<Rightarrow>
                    (case (if n = 0 then waitForConnection others L start p2 w2
                           else Some (Inr None, p2, w2)) of
                       None \<Rightarrow> None
                     | Some (Inl err, p3, w3) \<Rightarrow> Some (Inl err, p3, w3)
                     | Some (Inr (Some c), p3, w3) \<Rightarrow> Some (Inr c, p3, w3)
                     | Some (Inr None, p3, w3) \<Rightarrow>
                         (case retryDelay L p3 w3 of
                            (Some e, p4, w4) \<Rightarrow> Some (Inl (ContextError e), p4, w4)
                          | (None, p4, w4) \<Rightarrow> get_attempts others L start n p4 w4)))))"

definition Get ::
  "(ConnectionPool \<Rightarrow> 'w \<Rightarrow> ConnectionPool \<times> 'w) \<Rightarrow> 'w Env \<Rightarrow> ConnectionPool \<Rightarrow> 'w
     \<Rightarrow> ((pool_error + nat) \<times> ConnectionPool \<times> 'w) option" where
  "Get others L p w =
     (let p1 = recordGetRequest p; (start, w1) = Now L w
      in case checkPoolClosed p1 of
           Some err \<Rightarrow> Some (Inl err, recordGetFailure ''pool_closed'' p1, w1)
         | None \<Rightarrow> get_attempts others L start DefaultMaxRetries p1 w1)"

subsection \<open>Giving a connection back\<close>

definition Discard :: "'w Env \<Rightarrow> nat option \<Rightarrow> ConnectionPool \<Rightarrow> 'w \<Rightarrow> ConnectionPool \<times> 'w" where
  "Discard L c p w =
     (case c of
        None \<Rightarrow> (p, w)
      | Some c \<Rightarrow>
          (if broken (heap p c) then (p, w)
           else closeConnectionWithReason L c ''error''
                  (update_conn c (\<lambda>pc. pc\<lparr>broken := True\<rparr>) p) w))"

definition Put :: "'w Env \<Rightarrow> nat option \<Rightarrow> ConnectionPool \<Rightarrow> 'w \<Rightarrow> ConnectionPool \<times> 'w" where
  "Put L c p w =
     (case c of
        None \<Rightarrow> (p, w)
      | Some c \<Rightarrow>
          (if broken (heap p c) then (p, w)
           else
             let p1 = emit RecordPoolPutRequest p;
                 (t, w1) = Now L w;
                 p2 = update_conn c (\<lambda>pc. pc\<lparr>inUse := False, lastUsed := t\<rparr>) p1
             in if closed p2 then closeConnectionWithReason L c ''shutdown'' p2 w1
                else
                  case isConnectionUsable L c p2 w1 of
                    (False, w2) \<Rightarrow>
                      closeConnectionWithReason L c ''error''
                        (emit (RecordPoolPutRejection ''invalid_connection'') p2) w2
                  | (True, w2) \<Rightarrow>
                      (if int (length (chan p2)) < maxConnections p2
                       then (updateMetrics (recordOperation ''put''
                               (p2\<lparr>chan := chan p2 @ [c], poolSize := poolSize p2 + 1\<rparr>)), w2)
                       else closeConnectionWithReason L c ''normal''
                              (emit (RecordPoolPutRejection ''pool_full'') p2) w2)))"

subsection \<open>Maintenance, shutdown and statistics\<close>

lemmas pool_recorder_defs =
  emit_def updateMetrics_def recordOperation_def recordGetRequest_def recordGetFailure_def
  recordConnectionReused_def recordWaitTime_def recordConnectionCreationFailure_def
  recordContextTimeout_def

lemma chan_close [pool_simps]:
  "chan (fst (closeConnectionWithReason L c reason p w)) = chan p"
  by (auto simp: closeConnectionWithReason_def emit_def Let_def split: option.splits prod.splits)

text \<open>
  The drain loop of a maintenance tick: \<open>done\<close> tells whether the tick's own deadline has
  passed; a select with both cases ready takes either.
\<close>

function drainValid ::
  "('w \<Rightarrow> bool) \<Rightarrow> 'w Env \<Rightarrow> nat list \<Rightarrow> ConnectionPool \<Rightarrow> 'w \<Rightarrow> nat list \<times> ConnectionPool \<times> 'w" where
  "drainValid done L validConns p w =
     (case chan p of
        [] \<Rightarrow> (validConns, p, w)
      | c # rest \<Rightarrow>
          (let (stop, w1) = (if done w then SelectDone L w else (False, w))
           in if stop then (validConns, p, w1)
              else
                let p1 = p\<lparr>chan := rest, poolSize := poolSize p - 1\<rparr>;
                    (ok, w2) = isConnectionValid L c p1 w1
                in if ok then drainValid done L (validConns @ [c]) p1 w2
                   else drainValid done L validConns
                          (fst (closeConnectionWithReason L c ''timeout'' p1 w2))
                          (snd (closeConnectionWithReason L c ''timeout'' p1 w2))))"
  by auto
termination
  by (relation "measure (\<lambda>(done, L, validConns, p, w). length (chan p))")
     (auto simp: pool_simps split_beta)

declare drainValid.simps [simp del]

fun reinsert :: "'w Env \<Rightarrow> nat list \<Rightarrow> ConnectionPool \<Rightarrow> 'w \<Rightarrow> ConnectionPool \<times> 'w" where
  "reinsert L [] p w = (p, w)"
| "reinsert L (c # cs) p w =
     (if int (length (chan p)) < maxConnections p
      then reinsert L cs (p\<lparr>chan := chan p @ [c], poolSize := poolSize p + 1\<rparr>) w
      else let (p1, w1) = closeConnectionWithReason L c ''normal'' p w in reinsert L cs p1 w1)"

definition runMaintenanceTick ::
  "('w \<Rightarrow> bool) \<Rightarrow> 'w Env \<Rightarrow> ConnectionPool \<Rightarrow> 'w \<Rightarrow> ConnectionPool \<times> 'w" where
  "runMaintenanceTick done L p w =
     (let (validConns, p1, w1) = drainValid done L [] p w in reinsert L validConns p1 w1)"

text \<open>A tick of the maintenance goroutine: it ends (\<open>True\<close>) when the pool is closed.\<close>

definition maintenance_step ::
  "('w \<Rightarrow> bool) \<Rightarrow> 'w Env \<Rightarrow> ConnectionPool \<Rightarrow> 'w \<Rightarrow> bool \<times> ConnectionPool \<times> 'w" where
  "maintenance_step done L p w =
     (if closed p then (True, p, w)
      else let (p1, w1) = runMaintenanceTick done L p w in (False, p1, w1))"

function drainClose :: "'w Env \<Rightarrow> ConnectionPool \<Rightarrow> 'w \<Rightarrow> ConnectionPool \<times> 'w" where
  "drainClose L p w =
     (case chan p of
        [] \<Rightarrow> (p, w)
      | c # rest \<Rightarrow>
          drainClose L
            (fst (closeConnectionWithReason L c ''shutdown'' (p\<lparr>chan := rest, poolSize := poolSize p - 1\<rparr>) w))
            (snd (closeConnectionWithReason L c ''shutdown'' (p\<lparr>chan := rest, poolSize := poolSize p - 1\<rparr>) w)))"
  by auto
termination
  by (relation "measure (\<lambda>(L, p, w). length (chan p))") (auto simp: pool_simps split_beta)

declare drainClose.simps [simp del]

definition Close :: "'w Env \<Rightarrow> ConnectionPool \<Rightarrow> 'w \<Rightarrow> ConnectionPool \<times> 'w" where
  "Close L p w =
     (if closeDone p then (p, w)
      else
        let p1 = p\<lparr>closeDone := True\<rparr>
        in if closed p1 then (p1, w) else drainClose L (p1\<lparr>closed := True\<rparr>) w)"

record PoolStats =
  stat_max_connections :: int
  stat_active_connections :: int
  stat_pool_size :: int
  stat_closed :: bool

definition Stats :: "ConnectionPool \<Rightarrow> PoolStats" where
  "Stats p =
     \<lparr>stat_max_connections = maxConnections p, stat_active_connections = activeConns p,
      stat_pool_size = poolSize p, stat_closed = closed p\<rparr>"

lemma drainClose_Nil: "chan p = [] \<Longrightarrow> drainClose L p w = (p, w)"
  by (simp add: drainClose.simps)

lemma drainClose_Cons:
  "chan p = c # rest \<Longrightarrow> drainClose L p w =
     (let (p1, w1) = closeConnectionWithReason L c ''shutdown'' (p\<lparr>chan := rest, poolSize := poolSize p - 1\<rparr>) w
      in drainClose L p1 w1)"
  by (subst drainClose.simps) (simp add: split_beta)

end
