(* ===== verification/PoolConcurrency.thy ===== *)
theory PoolConcurrency
  imports ConnectionPool "HOL-Library.Multiset"
begin

section \<open>The connection pool under concurrent goroutines\<close>

text \<open>
  pool_operations.go, pool_connections.go, pool_maintenance.go and \<open>Close\<close> of pool.go once more, one
  atomic step at a time: a channel operation, a load, a compare-and-swap, an addition to a counter.
  A goroutine is the point it has reached; a schedule says which goroutine moves next and which way
  its next test goes (is the context done, does the dial succeed, is the connection usable - what
  these tests compute is in ConnectionPool). Only what the goroutines share is kept: the channel,
  the atomics, and which sockets are open. A connection is a number, dialled ones being numbered in
  order. Logging and monitoring are left out.
\<close>

record pool_shared =
  q_chan :: "nat list"
  q_size :: int
  q_active :: int
  q_closed :: bool
  q_maint_done :: bool \<comment> \<open>\<open>maintainWG\<close> has been released\<close>
  q_live :: "nat set"
  q_next :: nat

text \<open>
  Where a goroutine is. \<open>PClosing c k\<close> closes the connection and goes on at \<open>k\<close>, \<open>PUncount k\<close> has closed
  it and has not yet counted that. A \<open>Get\<close> carries the number of its attempt, and \<open>PTook\<close> and
  \<open>PTesting\<close> whether the connection was waited for.
\<close>

datatype pc =
    PClient
  | PTrying nat
  | PTook nat bool nat
  | PTesting nat bool nat
  | PMissed nat
  | PLoading nat
  | PSwapping nat int
  | PDialing
  | PReleasing
  | PDelay nat
  | PWaiting
  | PHolding nat
  | PReturning nat
  | PChecking nat
  | PSending nat
  | PSent
  | PClosing nat pc
  | PUncount pc
  | PMaint
  | PDraining "nat list"
  | PMTook nat "nat list"
  | PMTesting nat "nat list"
  | PRefilling "nat list"
  | PMSent "nat list"
  | PMaintDone
  | PCloser
  | PAwait
  | PCDraining
  | PCTook nat
  | PClosed

subsection \<open>The operations, step by step\<close>

text \<open>
  A client is outside the pool, calls \<open>Get\<close>, holds the connection it got, and then puts it back or,
  after an I/O error, discards it (the put that follows is then a no-op).
\<close>

definition client_pc :: "bool \<Rightarrow> pc \<Rightarrow> pool_shared \<Rightarrow> pc \<times> pool_shared" where
  "client_pc ans t sh =
     (case t of
        PClient \<Rightarrow> (if ans \<and> \<not> q_closed sh then PTrying 0 else PClient, sh)
      | PHolding c \<Rightarrow> (if ans then PReturning c else PClosing c PClient, sh)
      | _ \<Rightarrow> (t, sh))"

definition get_existing_pc :: "bool \<Rightarrow> pc \<Rightarrow> pool_shared \<Rightarrow> pc \<times> pool_shared" where
  "get_existing_pc ans t sh =
     (case t of
        PTrying n \<Rightarrow>
          (case q_chan sh of
             c # cs \<Rightarrow> if ans then (PTook n False c, sh\<lparr>q_chan := cs\<rparr>) else (PMissed n, sh)
           | [] \<Rightarrow> (PMissed n, sh))
      | PTook n waited c \<Rightarrow> (PTesting n waited c, sh\<lparr>q_size := q_size sh - 1\<rparr>)
      | PTesting n waited c \<Rightarrow>
          (if ans then PHolding c else PClosing c (if waited then PClient else PMissed n), sh)
      | PWaiting \<Rightarrow>
          (case q_chan sh of
             c # cs \<Rightarrow> if ans then (PTook 0 True c, sh\<lparr>q_chan := cs\<rparr>) else (PClient, sh)
           | [] \<Rightarrow> (if ans then PWaiting else PClient, sh))
      | _ \<Rightarrow> (t, sh))"

definition get_new_pc :: "nat \<Rightarrow> bool \<Rightarrow> pc \<Rightarrow> pool_shared \<Rightarrow> pc \<times> pool_shared" where
  "get_new_pc mx ans t sh =
     (case t of
        PMissed n \<Rightarrow> (if ans then PLoading n else PClient, sh)
      | PLoading n \<Rightarrow>
          (if q_active sh < int mx then PSwapping n (q_active sh)
           else if n + 1 = DefaultMaxRetries then PWaiting else PDelay n, sh)
      | PSwapping n v \<Rightarrow>
          (if q_active sh = v then (PDialing, sh\<lparr>q_active := v + 1\<rparr>) else (PLoading n, sh))
      | PDialing \<Rightarrow>
          (if ans then (PHolding (q_next sh), sh\<lparr>q_live := insert (q_next sh) (q_live sh), q_next := q_next sh + 1\<rparr>)
           else (PReleasing, sh))
      | PReleasing \<Rightarrow> (PClient, sh\<lparr>q_active := q_active sh - 1\<rparr>)
      | PDelay n \<Rightarrow> (if ans then PTrying (n + 1) else PClient, sh)
      | _ \<Rightarrow> (t, sh))"

definition put_pc :: "nat \<Rightarrow> bool \<Rightarrow> pc \<Rightarrow> pool_shared \<Rightarrow> pc \<times> pool_shared" where
  "put_pc mx ans t sh =
     (case t of
        PReturning c \<Rightarrow> (if q_closed sh then PClosing c PClient else PChecking c, sh)
      | PChecking c \<Rightarrow> (if ans then PSending c else PClosing c PClient, sh)
      | PSending c \<Rightarrow>
          (if length (q_chan sh) < mx then (PSent, sh\<lparr>q_chan := q_chan sh @ [c]\<rparr>)
           else (PClosing c PClient, sh))
      | PSent \<Rightarrow> (PClient, sh\<lparr>q_size := q_size sh + 1\<rparr>)
      | _ \<Rightarrow> (t, sh))"

definition close_connection_pc :: "pc \<Rightarrow> pool_shared \<Rightarrow> pc \<times> pool_shared" where
  "close_connection_pc t sh =
     (case t of
        PClosing c k \<Rightarrow> (PUncount k, sh\<lparr>q_live := q_live sh - {c}\<rparr>)
      | PUncount k \<Rightarrow> (k, sh\<lparr>q_active := q_active sh - 1\<rparr>)
      | _ \<Rightarrow> (t, sh))"

definition maintenance_pc :: "nat \<Rightarrow> bool \<Rightarrow> pc \<Rightarrow> pool_shared \<Rightarrow> pc \<times> pool_shared" where
  "maintenance_pc mx ans t sh =
     (case t of
        PMaint \<Rightarrow>
          (if q_closed sh then (PMaintDone, sh\<lparr>q_maint_done := True\<rparr>)
           else (if ans then PDraining [] else PMaint, sh))
      | PDraining vs \<Rightarrow>
          (case q_chan sh of
             c # cs \<Rightarrow> if ans then (PMTook c vs, sh\<lparr>q_chan := cs\<rparr>) else (PRefilling vs, sh)
           | [] \<Rightarrow> (PRefilling vs, sh))
      | PMTook c vs \<Rightarrow> (PMTesting c vs, sh\<lparr>q_size := q_size sh - 1\<rparr>)
      | PMTesting c vs \<Rightarrow> (if ans then PDraining (vs @ [c]) else PClosing c (PDraining vs), sh)
      | PRefilling vs \<Rightarrow>
          (case vs of
             [] \<Rightarrow> (PMaint, sh)
           | c # vs \<Rightarrow>
               if length (q_chan sh) < mx then (PMSent vs, sh\<lparr>q_chan := q_chan sh @ [c]\<rparr>)
               else (PClosing c (PRefilling vs), sh))
      | PMSent vs \<Rightarrow> (PRefilling vs, sh\<lparr>q_size := q_size sh + 1\<rparr>)
      | _ \<Rightarrow> (t, sh))"

definition close_pc :: "bool \<Rightarrow> pc \<Rightarrow> pool_shared \<Rightarrow> pc \<times> pool_shared" where
  "close_pc ans t sh =
     (case t of
        PCloser \<Rightarrow> (if ans \<and> \<not> q_closed sh then (PAwait, sh\<lparr>q_closed := True\<rparr>) else (PCloser, sh))
      | PAwait \<Rightarrow> (if q_maint_done sh then PCDraining else PAwait, sh)
      | PCDraining \<Rightarrow>
          (case q_chan sh of
             c # cs \<Rightarrow> (PCTook c, sh\<lparr>q_chan := cs\<rparr>)
           | [] \<Rightarrow> (PClosed, sh))
      | PCTook c \<Rightarrow> (PClosing c PCDraining, sh\<lparr>q_size := q_size sh - 1\<rparr>)
      | _ \<Rightarrow> (t, sh))"

text \<open>The operation a goroutine is in makes its next step.\<close>

definition pc_step :: "nat \<Rightarrow> bool \<Rightarrow> pc \<Rightarrow> pool_shared \<Rightarrow> pc \<times> pool_shared" where
  "pc_step mx ans t sh =
     (case t of
        PClient \<Rightarrow> client_pc ans t sh | PHolding _ \<Rightarrow> client_pc ans t sh
      | PTrying _ \<Rightarrow> get_existing_pc ans t sh | PTook _ _ _ \<Rightarrow> get_existing_pc ans t sh
      | PTesting _ _ _ \<Rightarrow> get_existing_pc ans t sh | PWaiting \<Rightarrow> get_existing_pc ans t sh
      | PMissed _ \<Rightarrow> get_new_pc mx ans t sh | PLoading _ \<Rightarrow> get_new_pc mx ans t sh
      | PSwapping _ _ \<Rightarrow> get_new_pc mx ans t sh | PDialing \<Rightarrow> get_new_pc mx ans t sh
      | PReleasing \<Rightarrow> get_new_pc mx ans t sh | PDelay _ \<Rightarrow> get_new_pc mx ans t sh
      | PReturning _ \<Rightarrow> put_pc mx ans t sh | PChecking _ \<Rightarrow> put_pc mx ans t sh
      | PSending _ \<Rightarrow> put_pc mx ans t sh | PSent \<Rightarrow> put_pc mx ans t sh
      | PClosing _ _ \<Rightarrow> close_connection_pc t sh | PUncount _ \<Rightarrow> close_connection_pc t sh
      | PCloser \<Rightarrow> close_pc ans t sh | PAwait \<Rightarrow> close_pc ans t sh
      | PCDraining \<Rightarrow> close_pc ans t sh | PCTook _ \<Rightarrow> close_pc ans t sh | PClosed \<Rightarrow> (t, sh)
      | _ \<Rightarrow> maintenance_pc mx ans t sh)"

definition sys_step :: "nat \<Rightarrow> nat \<times> bool \<Rightarrow> pc list \<times> pool_shared \<Rightarrow> pc list \<times> pool_shared" where
  "sys_step mx ev s =
     (case ev of (i, ans) \<Rightarrow> case s of (ts, sh) \<Rightarrow>
        if i < length ts then case pc_step mx ans (ts ! i) sh of (t, sh) \<Rightarrow> (ts[i := t], sh) else (ts, sh))"

text \<open>A fresh pool with its maintenance, one closer and any number of clients.\<close>

definition start_sys :: "nat \<Rightarrow> pc list \<times> pool_shared" where
  "start_sys clients =
     (PMaint # PCloser # replicate clients PClient,
      \<lparr>q_chan = [], q_size = 0, q_active = 0, q_closed = False, q_maint_done = False, q_live = {}, q_next = 0\<rparr>)"

lemmas pc_defs = pc_step_def client_pc_def get_existing_pc_def get_new_pc_def put_pc_def close_connection_pc_def
  maintenance_pc_def close_pc_def

subsection \<open>Who owns what\<close>

text \<open>The connections a goroutine has in hand, the places of the budget it occupies, and the changes of
  the size counter it still owes.\<close>

fun owned :: "pc \<Rightarrow> nat list" where
  "owned (PTook n w c) = [c]"
| "owned (PTesting n w c) = [c]"
| "owned (PHolding c) = [c]"
| "owned (PReturning c) = [c]"
| "owned (PChecking c) = [c]"
| "owned (PSending c) = [c]"
| "owned (PClosing c k) = c # owned k"
| "owned (PUncount k) = owned k"
| "owned (PDraining vs) = vs"
| "owned (PMTook c vs) = c # vs"
| "owned (PMTesting c vs) = c # vs"
| "owned (PRefilling vs) = vs"
| "owned (PMSent vs) = vs"
| "owned (PCTook c) = [c]"
| "owned _ = []"

fun slots :: "pc \<Rightarrow> int" where
  "slots PDialing = 1"
| "slots PReleasing = 1"
| "slots (PUncount k) = 1 + slots k"
| "slots (PClosing c k) = 1 + slots k"
| "slots t = int (length (owned t))"

fun owed :: "pc \<Rightarrow> int" where
  "owed (PTook n w c) = 1"
| "owed (PMTook c vs) = 1"
| "owed (PCTook c) = 1"
| "owed PSent = - 1"
| "owed (PMSent vs) = - 1"
| "owed (PClosing c k) = owed k"
| "owed (PUncount k) = owed k"
| "owed _ = 0"

text \<open>The value a goroutine hopes to swap is below the limit.\<close>

fun swap_ok :: "nat \<Rightarrow> pc \<Rightarrow> bool" where
  "swap_ok mx (PSwapping n v) \<longleftrightarrow> v < int mx"
| "swap_ok mx (PClosing c k) \<longleftrightarrow> swap_ok mx k"
| "swap_ok mx (PUncount k) \<longleftrightarrow> swap_ok mx k"
| "swap_ok mx _ \<longleftrightarrow> True"

subsection \<open>What one step changes\<close>

text \<open>
  A step keeps the sums of the system: what it takes out of the channel it holds, what it adds to a
  counter it no longer owes.
\<close>

definition balanced_step :: "pc \<Rightarrow> pool_shared \<Rightarrow> pc \<Rightarrow> pool_shared \<Rightarrow> bool" where
  "balanced_step t sh t' sh' \<longleftrightarrow>
     q_active sh' - int (length (q_chan sh')) - slots t' = q_active sh - int (length (q_chan sh)) - slots t \<and>
     q_size sh' - int (length (q_chan sh')) - owed t' = q_size sh - int (length (q_chan sh)) - owed t \<and>
     mset_set (q_live sh') + mset (q_chan sh) + mset (owned t) = mset_set (q_live sh) + mset (q_chan sh') + mset (owned t')"

lemma remove_live: "finite L \<Longrightarrow> c \<in> L \<Longrightarrow> mset_set (L - {c}) + {#c#} = mset_set L"
  by (simp add: mset_set.remove)

lemma insert_live: "finite L \<Longrightarrow> \<forall>c\<in>L. c < (n :: nat) \<Longrightarrow> mset_set (insert n L) = mset_set L + {#n#}"
  by (subst mset_set.insert) auto

lemma pc_step_balanced:
  assumes "finite (q_live sh)" "\<forall>c\<in>q_live sh. c < q_next sh" "set (owned t) \<subseteq> q_live sh"
    and "pc_step mx ans t sh = (t', sh')"
  shows "balanced_step t sh t' sh'"
proof (cases t)
  case (PClosing c k)
  then have "c \<in> q_live sh" using assms(3) by simp
  note remove_live [OF assms(1) this]
  then show ?thesis using assms(4) PClosing by (auto simp: pc_defs balanced_step_def)
next
  case PDialing
  then show ?thesis using assms(4) insert_live [OF assms(1,2)] by (auto simp: pc_defs balanced_step_def split: if_splits)
qed (use assms(4) in \<open>auto simp: pc_defs balanced_step_def split: if_splits list.splits\<close>)

lemma pc_step_bounds:
  assumes "length (q_chan sh) \<le> mx" "q_active sh \<le> int mx" "swap_ok mx t"
    and "pc_step mx ans t sh = (t', sh')"
  shows "length (q_chan sh') \<le> mx \<and> q_active sh' \<le> int mx \<and> swap_ok mx t'"
  using assms by (cases t) (auto simp: pc_defs split: if_splits list.splits)

lemma pc_step_live:
  assumes "finite (q_live sh)" "\<forall>c\<in>q_live sh. c < q_next sh" "pc_step mx ans t sh = (t', sh')"
  shows "finite (q_live sh') \<and> (\<forall>c\<in>q_live sh'. c < q_next sh')"
  using assms by (cases t) (auto simp: pc_defs less_Suc_eq split: if_splits list.splits)

subsection \<open>The invariant of every schedule\<close>

definition all_owned :: "pc list \<Rightarrow> nat multiset" where
  "all_owned ts = sum_list (map (\<lambda>t. mset (owned t)) ts)"

definition sys_inv :: "nat \<Rightarrow> pc list \<times> pool_shared \<Rightarrow> bool" where
  "sys_inv mx = (\<lambda>(ts, sh).
     q_active sh = int (length (q_chan sh)) + sum_list (map slots ts) \<and>
     q_size sh = int (length (q_chan sh)) + sum_list (map owed ts) \<and>
     mset_set (q_live sh) = mset (q_chan sh) + all_owned ts \<and>
     finite (q_live sh) \<and> (\<forall>c\<in>q_live sh. c < q_next sh) \<and>
     length (q_chan sh) \<le> mx \<and> q_active sh \<le> int mx \<and> list_all (swap_ok mx) ts)"

lemma all_owned_update: "i < length ts \<Longrightarrow> all_owned (ts[i := t]) + mset (owned (ts ! i)) = all_owned ts + mset (owned t)"
proof -
  assume i: "i < length ts"
  have "all_owned ts = all_owned (take i ts) + mset (owned (ts ! i)) + all_owned (drop (Suc i) ts)"
    by (subst id_take_nth_drop [OF i]) (simp add: all_owned_def)
  moreover have "all_owned (ts[i := t]) = all_owned (take i ts) + mset (owned t) + all_owned (drop (Suc i) ts)"
    by (simp add: upd_conv_take_nth_drop i all_owned_def)
  ultimately show ?thesis by simp
qed

lemma owned_member: "t \<in> set ts \<Longrightarrow> mset (owned t) \<subseteq># all_owned ts"
  by (induction ts) (auto simp: all_owned_def intro: subset_mset.order_trans)

lemma sys_inv_step: "sys_inv mx s \<Longrightarrow> sys_inv mx (sys_step mx ev s)"
proof -
  assume inv: "sys_inv mx s"
  obtain ts sh where s: "s = (ts, sh)" by fastforce
  obtain i ans where ev: "ev = (i, ans)" by fastforce
  show ?thesis
  proof (cases "i < length ts")
    case True
    obtain t' sh' where p: "pc_step mx ans (ts ! i) sh = (t', sh')" by fastforce
    have live: "finite (q_live sh)" "\<forall>c\<in>q_live sh. c < q_next sh" using inv by (auto simp: s sys_inv_def)
    have "mset (owned (ts ! i)) \<subseteq># mset_set (q_live sh)"
      using inv owned_member [OF nth_mem [OF True]]
      by (auto simp: s sys_inv_def intro: subset_mset.order_trans)
    then have "set (owned (ts ! i)) \<subseteq> q_live sh"
      using set_mset_mono live(1) by fastforce
    note bal = pc_step_balanced [OF live this p]
    have "swap_ok mx (ts ! i)" using inv True by (auto simp: s sys_inv_def list_all_length)
    then have bounds: "length (q_chan sh') \<le> mx" "q_active sh' \<le> int mx" "swap_ok mx t'"
      using pc_step_bounds [OF _ _ _ p] inv by (auto simp: s sys_inv_def)
    have "list_all (swap_ok mx) (ts[i := t'])"
      using inv bounds(3) by (auto simp: s sys_inv_def list_all_iff dest: set_update_subset_insert [THEN subsetD])
    moreover have "mset_set (q_live sh') = mset (q_chan sh') + all_owned (ts[i := t'])"
    proof -
      have "mset_set (q_live sh') + (mset (q_chan sh) + all_owned ts) + mset (owned (ts ! i)) =
          mset (q_chan sh') + all_owned (ts[i := t']) + (mset (q_chan sh) + all_owned ts) + mset (owned (ts ! i))"
        using bal inv all_owned_update [OF True, of t'] unfolding balanced_step_def s sys_inv_def
        by (simp add: ac_simps)
      then show ?thesis by simp
    qed
    ultimately show ?thesis
      using inv bal bounds pc_step_live [OF live p] True
      by (simp add: s ev sys_step_def p sys_inv_def balanced_step_def sum_list_update_int)
  qed (use inv in \<open>simp add: s ev sys_step_def\<close>)
qed

interpretation pq: guarded_machine "sys_step mx" "\<lambda>_. True" "sys_inv mx" for mx
  by unfold_locales (rule sys_inv_step)

subsection \<open>What any schedule leaves\<close>

lemma sys_inv_start: "sys_inv mx (start_sys n)"
proof -
  have "sum_list (map f (replicate n PClient)) = 0" if "f PClient = (0 :: int)" for f using that by (induction n) auto
  moreover have "all_owned (replicate n PClient) = {#}" by (induction n) (auto simp: all_owned_def)
  ultimately show ?thesis by (simp add: sys_inv_def start_sys_def list_all_iff) (simp add: all_owned_def)
qed

lemma slots_ge_owned: "int (length (owned t)) \<le> slots t"
  by (induction t) auto

lemma all_owned_mset: "all_owned ts = mset (concat (map owned ts))"
  by (induction ts) (simp_all add: all_owned_def)

text \<open>A goroutine outside the operations of the pool, or asleep in one of them.\<close>

fun resting :: "pc \<Rightarrow> bool" where
  "resting PClient = True"
| "resting PWaiting = True"
| "resting (PHolding c) = True"
| "resting PMaint = True"
| "resting PMaintDone = True"
| "resting PCloser = True"
| "resting PAwait = True"
| "resting PClosed = True"
| "resting _ = False"

lemma resting_sums: "resting t \<Longrightarrow> slots t = int (length (owned t)) \<and> owed t = 0"
  by (cases t) auto

lemma sys_inv_exact:
  assumes "sys_inv mx (ts, sh)"
  shows "distinct (q_chan sh @ concat (map owned ts)) \<and> set (q_chan sh @ concat (map owned ts)) = q_live sh \<and>
    int (card (q_live sh)) \<le> q_active sh \<and> q_active sh \<le> int mx \<and>
    (list_all resting ts \<longrightarrow> q_active sh = int (card (q_live sh)) \<and> q_size sh = int (length (q_chan sh)))"
proof -
  have i: "q_active sh = int (length (q_chan sh)) + sum_list (map slots ts)"
    "q_size sh = int (length (q_chan sh)) + sum_list (map owed ts)" "q_active sh \<le> int mx" "finite (q_live sh)"
    and m: "mset (q_chan sh @ concat (map owned ts)) = mset_set (q_live sh)"
    using assms by (simp_all add: sys_inv_def all_owned_mset)
  have set: "set (q_chan sh @ concat (map owned ts)) = q_live sh"
    using arg_cong [OF m, of set_mset] i(4) by simp
  have d: "distinct (q_chan sh @ concat (map owned ts))"
    using m i(4) set by (simp only: distinct_count_atmost_1 count_mset_set') auto
  then have card: "card (q_live sh) = length (q_chan sh) + length (concat (map owned ts))"
    using distinct_card [OF d] set by simp
  have sum: "int (length (concat (map owned us))) \<le> sum_list (map slots us)" for us
    by (induction us) (auto intro: add_mono slots_ge_owned)
  have rest: "sum_list (map slots us) = int (length (concat (map owned us))) \<and> sum_list (map owed us) = 0"
    if "list_all resting us" for us
    using that by (induction us) (auto simp: resting_sums)
  show ?thesis using set d card i sum [of ts] rest [of ts] by simp
qed

lemma sys_run_inv: "fold (sys_step mx) sched (start_sys n) = s \<Longrightarrow> sys_inv mx s"
  using pq.run_inv [of sched mx "start_sys n"] by (simp add: sys_inv_start list.pred_True)

text \<open>C3.
  However the goroutines of a pool are scheduled - clients that get, put and discard, the
  maintenance, the shutdown - every open socket is in exactly one place: once in the channel or once in the
  hands of one goroutine. The active counter never exceeds the maximum and never falls below the
  number of open sockets, and whenever no goroutine is in the middle of an operation both counters
  are exact.
\<close>

theorem concurrent_pool_accounting:
  assumes "fold (sys_step mx) sched (start_sys n) = (ts, sh)"
  shows "distinct (q_chan sh @ concat (map owned ts)) \<and> set (q_chan sh @ concat (map owned ts)) = q_live sh \<and>
    int (card (q_live sh)) \<le> q_active sh \<and> q_active sh \<le> int mx \<and>
    (list_all resting ts \<longrightarrow> q_active sh = int (card (q_live sh)) \<and> q_size sh = int (length (q_chan sh)))"
  by (rule sys_inv_exact [OF sys_run_inv [OF assms]])

text \<open>Two clients and a limit of one connection: while one holds it, the other one runs through its attempts.\<close>

definition dial_first :: "(nat \<times> bool) list" where
  "dial_first = [(2, True), (2, True), (2, True), (2, True), (2, True), (2, True)]"

lemma concurrent_pool_accounting_witness:
  "\<exists>ts sh. fold (sys_step 1) (dial_first @ [(2, True), (2, True), (2, True), (2, True), (2, True)]) (start_sys 2) = (ts, sh) \<and>
     ts = [PMaint, PCloser, PClient, PClient] \<and> q_active sh = int (card (q_live sh)) \<and> q_size sh = int (length (q_chan sh))"
proof -
  let ?r = "fold (sys_step 1) (dial_first @ [(2, True), (2, True), (2, True), (2, True), (2, True)]) (start_sys 2)"
  have ts: "fst ?r = [PMaint, PCloser, PClient, PClient]" by code_simp
  obtain ts sh where r: "?r = (ts, sh)" by fastforce
  show ?thesis using concurrent_pool_accounting [OF r] r ts by auto
qed

subsection \<open>Shutting down\<close>

text \<open>
  Where a goroutine may be once the pool is closed, when no client was inside an operation at that
  moment: a client that comes back later sees the flag. \<open>role\<close> tells the maintenance, the closer and the
  clients apart, \<open>draining\<close> a closer that has waited for the maintenance.
\<close>

fun role :: "pc \<Rightarrow> nat" where
  "role PMaint = 0" | "role (PDraining vs) = 0" | "role (PMTook c vs) = 0" | "role (PMTesting c vs) = 0"
| "role (PRefilling vs) = 0" | "role (PMSent vs) = 0" | "role PMaintDone = 0"
| "role PCloser = 1" | "role PAwait = 1" | "role PCDraining = 1" | "role (PCTook c) = 1" | "role PClosed = 1"
| "role (PClosing c k) = role k" | "role (PUncount k) = role k"
| "role _ = 2"

fun late :: "pc \<Rightarrow> bool" where
  "late PClient = True"
| "late (PHolding c) = True"
| "late (PReturning c) = True"
| "late (PClosing c k) \<longleftrightarrow> late k"
| "late (PUncount k) \<longleftrightarrow> late k"
| "late t \<longleftrightarrow> role t < 2"

fun draining :: "pc \<Rightarrow> bool" where
  "draining PCDraining = True" | "draining (PCTook c) = True" | "draining PClosed = True"
| "draining (PClosing c k) \<longleftrightarrow> draining k" | "draining (PUncount k) \<longleftrightarrow> draining k"
| "draining _ = False"

text \<open>A connection is closed on the way to one of these points only.\<close>

fun resumes :: "pc \<Rightarrow> bool" where
  "resumes (PClosing c k) \<longleftrightarrow> k \<in> {PClient, PCDraining} \<or> (\<exists>n vs. k \<in> {PMissed n, PDraining vs, PRefilling vs})"
| "resumes (PUncount k) \<longleftrightarrow> k \<in> {PClient, PCDraining} \<or> (\<exists>n vs. k \<in> {PMissed n, PDraining vs, PRefilling vs})"
| "resumes _ \<longleftrightarrow> True"

lemma role_step: "pc_step mx ans t sh = (t', sh') \<Longrightarrow> role t' = role t"
  by (cases t) (auto simp: pc_defs split: if_splits list.splits)

lemma resumes_step: "resumes t \<Longrightarrow> pc_step mx ans t sh = (t', sh') \<Longrightarrow> resumes t'"
  by (cases t) (auto simp: pc_defs split: if_splits list.splits)

lemma late_step: "q_closed sh \<Longrightarrow> late t \<Longrightarrow> pc_step mx ans t sh = (t', sh') \<Longrightarrow> late t' \<and> q_closed sh'"
  by (cases t) (auto simp: pc_defs split: if_splits list.splits)

text \<open>What a step of each role does to the flags and the channel of a closed pool.\<close>

lemma late_client_frame:
  "role t = 2 \<Longrightarrow> late t \<Longrightarrow> q_closed sh \<Longrightarrow> pc_step mx ans t sh = (t', sh') \<Longrightarrow>
     q_chan sh' = q_chan sh \<and> q_maint_done sh' = q_maint_done sh"
  by (cases t) (auto simp: pc_defs split: if_splits list.splits)

lemma closer_frame:
  "role t = 1 \<Longrightarrow> resumes t \<Longrightarrow> (draining t \<longrightarrow> q_maint_done sh) \<Longrightarrow> (t = PClosed \<longrightarrow> q_chan sh = []) \<Longrightarrow>
     pc_step mx ans t sh = (t', sh') \<Longrightarrow>
     q_maint_done sh' = q_maint_done sh \<and> (draining t' \<longrightarrow> q_maint_done sh') \<and> (t' = PClosed \<longrightarrow> q_chan sh' = [])"
  by (cases t) (auto simp: pc_defs split: if_splits list.splits)

lemma maintenance_frame:
  "role t = 0 \<Longrightarrow> resumes t \<Longrightarrow> (q_maint_done sh \<longrightarrow> t = PMaintDone) \<Longrightarrow> pc_step mx ans t sh = (t', sh') \<Longrightarrow>
     (q_maint_done sh' \<longrightarrow> t' = PMaintDone) \<and> (q_maint_done sh \<longrightarrow> q_maint_done sh' \<and> q_chan sh' = q_chan sh)"
  by (cases t) (auto simp: pc_defs split: if_splits list.splits)

definition shape_inv :: "pc list \<times> pool_shared \<Rightarrow> bool" where
  "shape_inv = (\<lambda>(ts, sh).
     2 \<le> length ts \<and> role (ts ! 0) = 0 \<and> role (ts ! 1) = 1 \<and> (\<forall>i<length ts. 2 \<le> i \<longrightarrow> role (ts ! i) = 2) \<and>
     list_all resumes ts \<and> (q_maint_done sh \<longrightarrow> ts ! 0 = PMaintDone))"

definition closing_inv :: "pc list \<times> pool_shared \<Rightarrow> bool" where
  "closing_inv = (\<lambda>(ts, sh). shape_inv (ts, sh) \<and> q_closed sh \<and> list_all late ts \<and>
     (draining (ts ! 1) \<longrightarrow> q_maint_done sh) \<and> (ts ! 1 = PClosed \<longrightarrow> q_chan sh = []))"

lemma list_all_update: "list_all P xs \<Longrightarrow> P x \<Longrightarrow> list_all P (xs[i := x])"
  by (auto simp: list_all_iff dest: set_update_subset_insert [THEN subsetD])

lemma maint_done_frame: "role t \<noteq> 0 \<Longrightarrow> pc_step mx ans t sh = (t', sh') \<Longrightarrow> q_maint_done sh' = q_maint_done sh"
  by (cases t) (auto simp: pc_defs split: if_splits list.splits)

lemma shape_inv_update:
  assumes "shape_inv (ts, sh)" "i < length ts" "pc_step mx ans (ts ! i) sh = (t', sh')"
  shows "shape_inv (ts[i := t'], sh')"
proof -
  have r: "resumes (ts ! i)" using assms(1,2) by (simp add: shape_inv_def list_all_length)
  have new: "resumes t'" "role t' = role (ts ! i)"
    using resumes_step [OF r assms(3)] role_step [OF assms(3)] by auto
  have all: "list_all resumes (ts[i := t'])" using assms(1) new(1) by (simp add: shape_inv_def list_all_update)
  have roles: "role (ts[i := t'] ! j) = role (ts ! j)" if "j < length ts" for j
    using that new(2) by (cases "i = j") simp_all
  have finished: "ts[i := t'] ! 0 = PMaintDone" if "q_maint_done sh'"
  proof (cases "i = 0")
    case True
    then show ?thesis
      using maintenance_frame [of "ts ! i", OF _ r _ assms(3)] assms(1,2) that by (auto simp: shape_inv_def)
  next
    case False
    then have "role (ts ! i) \<noteq> 0" using assms(1,2) by (cases "i = 1") (auto simp: shape_inv_def)
    then show ?thesis using maint_done_frame [OF _ assms(3)] False assms(1) that by (auto simp: shape_inv_def)
  qed
  have "0 < length ts" "1 < length ts" using assms(1) by (auto simp: shape_inv_def)
  then show ?thesis using assms(1) all roles finished by (auto simp: shape_inv_def)
qed

lemma shape_inv_step: "shape_inv s \<Longrightarrow> shape_inv (sys_step mx ev s)"
  using shape_inv_update by (fastforce simp: sys_step_def split: prod.splits)

lemma closing_inv_step: "closing_inv s \<Longrightarrow> closing_inv (sys_step mx ev s)"
proof -
  assume inv: "closing_inv s"
  obtain ts sh where s: "s = (ts, sh)" by fastforce
  obtain i ans where ev: "ev = (i, ans)" by fastforce
  show ?thesis
  proof (cases "i < length ts")
    case True
    obtain t' sh' where p: "pc_step mx ans (ts ! i) sh = (t', sh')" by fastforce
    have shape: "shape_inv (ts, sh)" using inv by (simp add: s closing_inv_def)
    have l: "late (ts ! i)" "resumes (ts ! i)" "q_closed sh"
      using inv True by (auto simp: s closing_inv_def shape_inv_def list_all_length)
    have new: "late t'" "q_closed sh'" using late_step [OF l(3,1) p] by auto
    have all: "list_all late (ts[i := t'])" using inv new by (simp add: s closing_inv_def list_all_update)
    note shape' = shape_inv_update [OF shape True p]
    consider "i = 0" | "i = 1" | "2 \<le> i" by linarith
    then show ?thesis
    proof cases
      case 1
      then have "(q_maint_done sh \<longrightarrow> q_maint_done sh' \<and> q_chan sh' = q_chan sh)"
        using maintenance_frame [of "ts ! i", OF _ l(2) _ p] shape by (auto simp: shape_inv_def)
      then show ?thesis using inv all new p True shape' unfolding 1 by (auto simp: s ev 1 closing_inv_def sys_step_def)
    next
      case 2
      then have "(draining t' \<longrightarrow> q_maint_done sh') \<and> (t' = PClosed \<longrightarrow> q_chan sh' = [])"
        using closer_frame [of "ts ! i", OF _ l(2) _ _ p] shape inv by (auto simp: s shape_inv_def closing_inv_def)
      then show ?thesis using inv all new p True shape' unfolding 2 by (auto simp: s ev 2 closing_inv_def sys_step_def)
    next
      case 3
      then have "role (ts ! i) = 2" using shape True by (auto simp: shape_inv_def)
      from late_client_frame [OF this l(1,3) p]
      show ?thesis using inv all new p True shape' 3 by (auto simp: s ev closing_inv_def sys_step_def)
    qed
  qed (use inv in \<open>simp add: s ev sys_step_def\<close>)
qed

interpretation ps: guarded_machine "sys_step mx" "\<lambda>_. True" shape_inv for mx
  by unfold_locales (rule shape_inv_step)

interpretation pz: guarded_machine "sys_step mx" "\<lambda>_. True" closing_inv for mx
  by unfold_locales (rule closing_inv_step)

lemma shape_inv_start: "shape_inv (start_sys n)"
  by (auto simp: shape_inv_def start_sys_def nth_Cons' list_all_iff)

lemma late_role: "role t < 2 \<Longrightarrow> resumes t \<Longrightarrow> late t"
  by (cases t) auto

lemma owned_late_resting:
  "list_all late ts \<Longrightarrow> list_all resting ts \<Longrightarrow> set (concat (map owned ts)) = {c. PHolding c \<in> set ts}"
proof (induction ts)
  case (Cons t ts)
  then show ?case by (cases t) auto
qed simp

text \<open>C4.
  A shutdown that starts while every client is outside the pool's operations leaks nothing: once \<open>Close\<close>
  has returned and every goroutine is at rest again, the channel is empty, the counters agree with what is
  left, and the only open sockets are those clients still hold - which are closed when they come back.
\<close>

theorem orderly_close_releases:
  assumes "fold (sys_step mx) sched1 (start_sys n) = (ts1, sh1)"
    and "ts1 ! 1 = PCloser" and "\<forall>t\<in>set (drop 2 ts1). t = PClient \<or> (\<exists>c. t = PHolding c)"
    and "fold (sys_step mx) sched2 (sys_step mx (1, True) (ts1, sh1)) = (ts, sh)"
    and "ts ! 1 = PClosed" and "list_all resting ts"
  shows "q_chan sh = [] \<and> q_size sh = 0 \<and> q_live sh = {c. PHolding c \<in> set ts} \<and> q_active sh = int (card (q_live sh))"
proof -
  have shape: "shape_inv (ts1, sh1)"
    using ps.run_inv [of sched1 "start_sys n" mx] assms(1) by (simp add: shape_inv_start list.pred_True)
  obtain t' sh' where p: "pc_step mx True (ts1 ! 1) sh1 = (t', sh')" by fastforce
  have step: "sys_step mx (1, True) (ts1, sh1) = (ts1[1 := t'], sh')"
    using shape p by (simp add: sys_step_def shape_inv_def)
  have t': "t' = PAwait \<or> t' = PCloser" "q_closed sh'" using p assms(2) by (auto simp: pc_defs split: if_splits)
  have late1: "late (ts1[1 := t'] ! i)" if "i < length ts1" for i
  proof -
    consider "i = 0" | "i = 1" | "2 \<le> i" by linarith
    then show ?thesis
    proof cases
      case 1
      have "role (ts1 ! 0) < 2" "resumes (ts1 ! 0)"
        using shape that 1 by (auto simp: shape_inv_def list_all_length)
      then show ?thesis using 1 late_role by simp
    next
      case 2
      then show ?thesis using t' that by auto
    next
      case 3
      have e: "2 + (i - 2) = i" using 3 by linarith
      have "ts1 ! i = drop 2 ts1 ! (i - 2)" using nth_drop [of 2 ts1 "i - 2"] e that 3 by simp
      moreover have "i - 2 < length (drop 2 ts1)" using that 3 by simp
      ultimately have "ts1 ! i \<in> set (drop 2 ts1)" by (metis nth_mem)
      then show ?thesis using assms(3) 3 by auto
    qed
  qed
  have "shape_inv (ts1[1 := t'], sh')"
    using shape_inv_step [OF shape, of mx "(1, True)"] step by simp
  then have "closing_inv (ts1[1 := t'], sh')"
    using late1 t' shape by (auto simp: closing_inv_def list_all_length shape_inv_def)
  then have "closing_inv (ts, sh)"
    using pz.run_inv [of sched2 "(ts1[1 := t'], sh')" mx] assms(4) step by (simp add: list.pred_True)
  then have c: "q_chan sh = []" "list_all late ts" using assms(5) by (simp_all add: closing_inv_def)
  have "sys_inv mx (ts1[1 := t'], sh')"
    using sys_inv_step [OF sys_run_inv [OF assms(1)], of "(1, True)"] step by simp
  then have "sys_inv mx (ts, sh)"
    using pq.run_inv [of sched2 mx "(ts1[1 := t'], sh')"] assms(4) step by (simp add: list.pred_True)
  from sys_inv_exact [OF this] show ?thesis
    using c owned_late_resting [OF c(2) assms(6)] assms(6) by simp
qed

text \<open>One client holds a connection, the pool is closed, then the client brings it back.\<close>

lemma orderly_close_releases_witness:
  "case fold (sys_step 1) [(0, True), (1, True), (1, True), (1, True), (2, True), (2, True), (2, True), (2, True)]
          (sys_step 1 (1, True) (fold (sys_step 1) dial_first (start_sys 1))) of
     (ts, sh) \<Rightarrow> ts ! 1 = PClosed \<and> q_live sh = {} \<and> q_active sh = 0"
proof -
  let ?s = "[(0, True), (1, True), (1, True), (1, True), (2, True), (2, True), (2, True), (2, True)]"
  obtain ts1 sh1 where a: "fold (sys_step 1) dial_first (start_sys 1) = (ts1, sh1)" by fastforce
  obtain ts sh where b: "fold (sys_step 1) ?s (sys_step 1 (1, True) (ts1, sh1)) = (ts, sh)" by fastforce
  have "fst (fold (sys_step 1) dial_first (start_sys 1)) = [PMaint, PCloser, PHolding 0]" by code_simp
  then have ts1: "ts1 = [PMaint, PCloser, PHolding 0]" by (simp only: a fst_conv)
  have "fst (fold (sys_step 1) ?s (sys_step 1 (1, True) (fold (sys_step 1) dial_first (start_sys 1)))) =
      [PMaintDone, PClosed, PClient]" by code_simp
  then have ts: "ts = [PMaintDone, PClosed, PClient]" using b by (simp only: a fst_conv)
  have "ts ! 1 = PClosed \<and> q_live sh = {} \<and> q_active sh = 0"
    using orderly_close_releases [OF a _ _ b] ts ts1 by simp
  then show ?thesis by (simp only: a b prod.case)
qed

text \<open>
  A shutdown that overlaps a \<open>Put\<close> can leak: the client has seen the pool open, \<open>Close\<close> drains the channel and
  returns, and then the client's connection goes into the channel, where nobody will ever close it.
\<close>

lemma put_during_close_leaks:
  "fold (sys_step 1)
     (dial_first @ [(2, True), (2, True), (1, True), (0, True), (1, True), (1, True), (2, True), (2, True), (2, True)])
     (start_sys 1) =
   ([PMaintDone, PClosed, PClient],
    \<lparr>q_chan = [0], q_size = 1, q_active = 1, q_closed = True, q_maint_done = True, q_live = {0}, q_next = 1\<rparr>)"
  by code_simp

text \<open>
  A \<open>Get\<close> that has used up its attempts listens to the channel only. When the holder discards its connection a
  place in the budget is free, and the waiter goes on waiting until its context is done.
\<close>

definition wait_behind :: "(nat \<times> bool) list" where
  "wait_behind = (3, True) # concat (replicate 3 [(3, True), (3, True), (3, True), (3, True)])"

lemma discard_wakes_no_waiter:
  "case fold (sys_step 1) (dial_first @ wait_behind @ [(2, False), (2, True), (2, True)]) (start_sys 2) of
     (ts, sh) \<Rightarrow> ts = [PMaint, PCloser, PClient, PWaiting] \<and> q_active sh = 0 \<and>
       pc_step 1 True PWaiting sh = (PWaiting, sh)"
  by code_simp

end
