(* ===== verification/PoolAccounting.thy ===== *)
theory PoolAccounting
  imports ConnectionPool
begin

section \<open>Accounting of the connection pool\<close>

text \<open>
  The pool keeps two counters beside its channel: how many connections exist and how many wait
  in the channel. \<open>acct own p\<close> states that they are right when the goroutines outside the pool
  hold exactly the connections \<open>own\<close>: the channel and \<open>own\<close> are disjoint, everything in them is
  a live connection not marked broken, and the limit holds. Each operation is shown to move
  connections between \<open>own\<close>, the channel and the closed ones without losing count.
\<close>

definition acct :: "nat set \<Rightarrow> ConnectionPool \<Rightarrow> bool" where
  "acct own p \<longleftrightarrow>
     finite own \<and> distinct (chan p) \<and> set (chan p) \<inter> own = {} \<and>
     (\<forall>c \<in> set (chan p) \<union> own. c < allocated p \<and> conn (heap p c) \<noteq> None \<and> \<not> broken (heap p c)) \<and>
     (\<forall>c \<in> set (chan p). \<not> inUse (heap p c)) \<and>
     poolSize p = int (length (chan p)) \<and>
     activeConns p = int (length (chan p)) + int (card own) \<and>
     activeConns p \<le> maxConnections p \<and>
     (closed p \<longrightarrow> chan p = [])"

subsection \<open>What the recorders leave alone\<close>

lemma emit_fields [simp]:
  "chan (emit ev p) = chan p" "heap (emit ev p) = heap p" "allocated (emit ev p) = allocated p"
  "maxConnections (emit ev p) = maxConnections p" "activeConns (emit ev p) = activeConns p"
  "poolSize (emit ev p) = poolSize p" "closed (emit ev p) = closed p"
  "closeDone (emit ev p) = closeDone p" "poolConfig (emit ev p) = poolConfig p"
  "idleTimeout (emit ev p) = idleTimeout p" "maxIdleTime (emit ev p) = maxIdleTime p"
  "poolMonitoring (emit ev p) = poolMonitoring p" "poolServerName (emit ev p) = poolServerName p"
  "poolType (emit ev p) = poolType p"
  by (simp_all add: emit_def)

lemma acct_emit [simp]: "acct own (emit ev p) = acct own p"
  by (simp add: acct_def)

lemma acct_recorders [simp]:
  "acct own (updateMetrics p) = acct own p" "acct own (recordOperation op p) = acct own p"
  "acct own (recordGetRequest p) = acct own p" "acct own (recordGetFailure r p) = acct own p"
  "acct own (recordConnectionReused p) = acct own p" "acct own (recordWaitTime d p) = acct own p"
  "acct own (recordConnectionCreationFailure e p) = acct own p"
  "acct own (recordContextTimeout L p w) = acct own p"
  by (simp_all add: updateMetrics_def recordOperation_def recordGetRequest_def recordGetFailure_def
      recordConnectionReused_def recordWaitTime_def recordConnectionCreationFailure_def
      recordContextTimeout_def Let_def)

lemma acct_creationSuccess [simp]:
  "acct own (fst (recordConnectionCreationSuccess L start p w)) = acct own p"
  by (simp add: recordConnectionCreationSuccess_def Let_def split_beta)

subsection \<open>Moves of a connection\<close>

lemma acct_receive:
  assumes "acct own p" "chan p = c # rest"
  shows "c \<notin> own" and "acct (insert c own) (p\<lparr>chan := rest, poolSize := poolSize p - 1\<rparr>)"
  using assms by (auto simp: acct_def)

lemma acct_update:
  assumes "acct own p" "c \<in> own" "\<And>pc. conn (f pc) = conn pc" "\<And>pc. broken (f pc) = broken pc"
  shows "acct own (update_conn c f p)"
  using assms by (auto simp: acct_def update_conn_def)

lemma acct_close:
  assumes "acct own p" "c \<in> own"
  shows "acct (own - {c}) (fst (closeConnectionWithReason L c reason p w))"
proof -
  have "0 < card own" using assms by (auto simp: acct_def card_gt_0_iff)
  then have "int (card (own - {c})) = int (card own) - 1"
    using assms by (simp add: card_Diff_singleton)
  moreover have "conn (heap p c) \<noteq> None" using assms by (simp add: acct_def)
  then obtain h where "conn (heap p c) = Some h" by blast
  ultimately show ?thesis using assms
    by (auto simp: closeConnectionWithReason_def acct_def Let_def split_beta)
qed

lemma acct_send:
  assumes "acct own p" "c \<in> own" "\<not> inUse (heap p c)" "\<not> closed p"
  shows "acct (own - {c}) (p\<lparr>chan := chan p @ [c], poolSize := poolSize p + 1\<rparr>)"
proof -
  have "0 < card own" using assms by (auto simp: acct_def card_gt_0_iff)
  then have "int (card (own - {c})) = int (card own) - 1"
    using assms by (simp add: card_Diff_singleton)
  then show ?thesis using assms by (auto simp: acct_def)
qed

lemma acct_create:
  assumes "acct own p" "activeConns p < maxConnections p"
  shows "allocated p \<notin> own"
    and "acct (insert (allocated p) own)
           (p\<lparr>activeConns := activeConns p + 1,
              heap := (heap p)(allocated p := \<lparr>conn = Some h, createdAt = t1, lastUsed = t2,
                                              inUse = u, broken = False\<rparr>),
              allocated := allocated p + 1\<rparr>)"
proof -
  show n: "allocated p \<notin> own" using assms by (auto simp: acct_def)
  then have "int (card (insert (allocated p) own)) = int (card own) + 1"
    using assms by (simp add: acct_def)
  then show "acct (insert (allocated p) own)
           (p\<lparr>activeConns := activeConns p + 1,
              heap := (heap p)(allocated p := \<lparr>conn = Some h, createdAt = t1, lastUsed = t2,
                                              inUse = u, broken = False\<rparr>),
              allocated := allocated p + 1\<rparr>)"
    using assms by (auto simp: acct_def less_SucI)
qed

subsection \<open>Get, Put and Discard\<close>

lemma acct_validate:
  assumes "acct own p" "c \<in> own"
    and "validateAndPrepareConnection L c start p w = (r, p', w')"
  shows "(r = Some c \<and> acct own p') \<or> (r = None \<and> acct (own - {c}) p')"
proof (cases "isConnectionUsable L c p w")
  case (Pair ok w1)
  then show ?thesis
    using assms acct_close [OF assms(1,2), of L "''error''" w1]
    by (cases ok) (auto simp: validateAndPrepareConnection_def Let_def acct_update split_beta)
qed

lemma acct_tryGetExisting:
  assumes "acct own p" "tryGetExistingConnection L start p w = (r, p', w')"
  shows "case r of Some c \<Rightarrow> c \<notin> own \<and> acct (insert c own) p' | None \<Rightarrow> acct own p'"
proof (cases "chan p")
  case Nil
  with assms show ?thesis by (auto simp: tryGetExistingConnection_def)
next
  case (Cons c rest)
  note r = acct_receive [OF assms(1) Cons]
  from assms(2) Cons show ?thesis
    using acct_validate [OF r(2) insertI1] r(1) assms(1)
    by (fastforce simp: tryGetExistingConnection_def Let_def split: prod.splits if_splits option.splits)
qed

lemma acct_tryCreate:
  assumes "acct own p" "tryCreateNewConnection L start p w = (r, p', w')"
  shows "case r of Inr (Some c) \<Rightarrow> c \<notin> own \<and> acct (insert c own) p' | _ \<Rightarrow> acct own p'"
proof (cases "activeConns p \<ge> maxConnections p")
  case True
  with assms show ?thesis by (auto simp: tryCreateNewConnection_def)
next
  case False
  show ?thesis
  proof (cases "establishConnection L (p\<lparr>activeConns := activeConns p + 1\<rparr>) w")
    case (Pair e w1)
    show ?thesis
    proof (cases e)
      case (Inl err)
      have "p\<lparr>activeConns := activeConns p\<rparr> = p" by simp
      with assms False Pair Inl show ?thesis
        by (auto simp: tryCreateNewConnection_def createAndRecordConnection_def createConnection_def)
    next
      case (Inr h)
      define q where "q t1 t2 = p\<lparr>activeConns := activeConns p + 1, allocated := Suc (allocated p),
              heap := (heap p)(allocated p := \<lparr>conn = Some h, createdAt = t1, lastUsed = t2,
                                              inUse = True, broken = False\<rparr>)\<rparr>" for t1 t2
      obtain t1 t2 w2 where r: "r = Inr (Some (allocated p))"
        and s: "recordConnectionCreationSuccess L start (q t1 t2) w2 = (p', w')"
        using assms(2) False Pair Inr
        by (auto simp: tryCreateNewConnection_def createAndRecordConnection_def createConnection_def
            Let_def update_conn_def split_beta q_def)
      have "acct (insert (allocated p) own) (q t1 t2)"
        using acct_create(2) [OF assms(1), of h t1 t2 True] False by (simp add: q_def acct_def)
      then have "acct (insert (allocated p) own) p'"
        using s acct_creationSuccess [of "insert (allocated p) own" L start "q t1 t2" w2] by simp
      then show ?thesis using r acct_create(1) [OF assms(1)] False by simp
    qed
  qed
qed

text \<open>
  What the goroutines that run while one waits may do: they keep the accounting, they keep the
  connections of the waiting one, and their own connections stay in a family \<open>Q\<close>.
\<close>

definition others_keep ::
  "(nat set \<Rightarrow> bool) \<Rightarrow> nat set \<Rightarrow> (ConnectionPool \<Rightarrow> 'w \<Rightarrow> ConnectionPool \<times> 'w) \<Rightarrow> bool" where
  "others_keep Q own others \<longleftrightarrow>
     (\<forall>A p w. acct A p \<longrightarrow> own \<subseteq> A \<longrightarrow> Q A \<longrightarrow>
        (\<exists>B. acct B (fst (others p w)) \<and> own \<subseteq> B \<and> Q B))"

definition got :: "(nat set \<Rightarrow> bool) \<Rightarrow> nat set \<Rightarrow> 'e + nat \<Rightarrow> ConnectionPool \<Rightarrow> bool" where
  "got Q own r p \<longleftrightarrow>
     (\<exists>A. own \<subseteq> A \<and> Q A \<and>
        (case r of Inr c \<Rightarrow> c \<notin> A \<and> acct (insert c A) p | Inl _ \<Rightarrow> acct A p))"

text \<open>\<open>waitForConnection\<close> by the first element of the channel it finds when it is woken.\<close>

lemma waitForConnection_Nil:
  assumes "(if chan p = [] \<and> CtxErr L w = None then others p w else (p, w)) = (p1, w1)" "chan p1 = []"
  shows "waitForConnection others L start p w =
      (case CtxErr L w1 of None \<Rightarrow> None
       | Some e \<Rightarrow> Some (Inl (ContextError e), recordContextTimeout L p1 w1, w1))"
  using assms(2) unfolding waitForConnection_def assms(1) by (simp split: option.splits)

lemma waitForConnection_Cons:
  assumes "(if chan p = [] \<and> CtxErr L w = None then others p w else (p, w)) = (p1, w1)"
    and "chan p1 = c # rest"
    and "s = (if CtxErr L w1 \<noteq> None then SelectDone L w1 else (False, w1))"
    and "validateAndPrepareConnection L c start (p1\<lparr>chan := rest, poolSize := poolSize p1 - 1\<rparr>) (snd s)
           = (z, p2, w2)"
  shows "waitForConnection others L start p w =
      (case (fst s, CtxErr L w1) of
         (True, Some e) \<Rightarrow> Some (Inl (ContextError e), recordContextTimeout L p1 (snd s), snd s)
       | _ \<Rightarrow> (case z of
           Some v \<Rightarrow> (if poolMonitoring p2 \<and> poolServerName p2 \<noteq> ''''
              then Some (Inr (Some v), emit (RecordPoolWaitTime (time_Sub (fst (Now L w2)) start))
                                         (emit RecordPoolConnectionReused p2), snd (Now L w2))
              else Some (Inr (Some v), p2, w2))
         | None \<Rightarrow> Some (Inl NoValidConnection, p2, w2)))"
  unfolding waitForConnection_def assms(1)
  by (simp only: assms(2) Let_def split_beta assms(3) [symmetric] list.case prod.case
      fst_conv snd_conv assms(4) split: option.splits bool.splits)

lemma acct_wait:
  assumes "acct A p" "own \<subseteq> A" "Q A" "others_keep Q own others"
    and "waitForConnection others L start p w = Some (r, p', w')"
  shows "\<exists>B. own \<subseteq> B \<and> Q B \<and>
           (case r of Inr (Some c) \<Rightarrow> c \<notin> B \<and> acct (insert c B) p' | _ \<Rightarrow> acct B p')"
proof -
  obtain p1 w1 B where o: "(if chan p = [] \<and> CtxErr L w = None then others p w else (p, w)) = (p1, w1)"
    and B: "acct B p1" "own \<subseteq> B" "Q B"
    using assms(1-4) unfolding others_keep_def by (cases "others p w") (auto split: if_splits, metis fst_conv)
  show ?thesis
  proof (cases "chan p1")
    case Nil
    then show ?thesis using assms(5) o B
      by (auto simp: waitForConnection_def split: option.splits)
  next
    case (Cons c rest)
    note r = acct_receive [OF B(1) Cons]
    note v = acct_validate [OF r(2) insertI1]
    have e: "insert c B - {c} = B" using r(1) by simp
    define s where "s = (if CtxErr L w1 \<noteq> None then SelectDone L w1 else (False, w1))"
    define q where "q = p1\<lparr>chan := rest, poolSize := poolSize p1 - 1\<rparr>"
    obtain z p2 w2 where V: "validateAndPrepareConnection L c start q (snd s) = (z, p2, w2)"
      by (rule prod_cases3)
    note W = waitForConnection_Cons [where others = others, OF o Cons s_def V [unfolded q_def]]
    have Z: "(z = Some c \<and> acct (insert c B) p2) \<or> (z = None \<and> acct B p2)"
      using v [of L start "snd s", folded q_def, OF V] e by simp
    show ?thesis
      using assms(5) B r(1) Z unfolding W
      by (cases "fst s"; cases "CtxErr L w1"; cases z) (auto split: if_splits)
  qed
qed

lemma acct_retryDelay:
  "retryDelay L p w = (r, p', w') \<Longrightarrow> acct A p' = acct A p"
  by (auto simp: retryDelay_def Let_def split_beta split: option.splits if_splits)

lemma acct_get_attempts:
  assumes "others_keep Q own others"
  shows "acct A p \<Longrightarrow> own \<subseteq> A \<Longrightarrow> Q A \<Longrightarrow>
     get_attempts others L start n p w = Some (r, p', w') \<Longrightarrow> got Q own r p'"
proof (induction n arbitrary: A p w)
  case 0
  then show ?case by (auto simp: got_def)
next
  case (Suc n)
  obtain x1 p1 w1 where t: "tryGetExistingConnection L start p w = (x1, p1, w1)" by (rule prod_cases3)
  note T = acct_tryGetExisting [OF Suc.prems(1) t]
  show ?case
  proof (cases x1)
    case (Some c)
    with T t Suc.prems show ?thesis by (auto simp: got_def)
  next
    case None
    with T have A1: "acct A p1" by simp
    show ?thesis
    proof (cases "CtxErr L w1")
      case (Some e)
      with None t A1 Suc.prems show ?thesis by (auto simp: got_def)
    next
      case c: None
      obtain x2 p2 w2 where cr: "tryCreateNewConnection L start p1 w1 = (x2, p2, w2)" by (rule prod_cases3)
      note C = acct_tryCreate [OF A1 cr]
      show ?thesis
      proof (cases "x2 = Inr None")
        case False
        with None c t cr C Suc.prems show ?thesis
          by (cases x2) (auto simp: got_def split: option.splits)
      next
        case True
        with C have A2: "acct A p2" by simp
        define y where "y = (if n = 0 then waitForConnection others L start p2 w2 else Some (Inr None, p2, w2))"
        have G: "get_attempts others L start (Suc n) p w =
            (case y of None \<Rightarrow> None
             | Some (Inl err, p3, w3) \<Rightarrow> Some (Inl err, p3, w3)
             | Some (Inr (Some c), p3, w3) \<Rightarrow> Some (Inr c, p3, w3)
             | Some (Inr None, p3, w3) \<Rightarrow>
                 (case retryDelay L p3 w3 of
                    (Some e, p4, w4) \<Rightarrow> Some (Inl (ContextError e), p4, w4)
                  | (None, p4, w4) \<Rightarrow> get_attempts others L start n p4 w4))"
          using None c t cr True by (simp add: y_def)
        obtain x3 p3 w3 where Y: "y = Some (x3, p3, w3)"
          using Suc.prems(4) G by (cases y) auto
        have "\<exists>B. own \<subseteq> B \<and> Q B \<and>
            (case x3 of Inr (Some c) \<Rightarrow> c \<notin> B \<and> acct (insert c B) p3 | _ \<Rightarrow> acct B p3)"
          using acct_wait [OF A2 Suc.prems(2,3) assms, of L start w2 x3 p3 w3] Y A2 Suc.prems(2,3)
          by (cases "n = 0") (auto simp: y_def)
        then obtain B where B: "own \<subseteq> B" "Q B"
          "case x3 of Inr (Some c) \<Rightarrow> c \<notin> B \<and> acct (insert c B) p3 | _ \<Rightarrow> acct B p3" by blast
        show ?thesis
        proof (cases "x3 = Inr None")
          case False
          with B Y G Suc.prems(4) show ?thesis
            by (cases x3) (auto simp: got_def split: option.splits)
        next
          case True
          obtain x4 p4 w4 where d: "retryDelay L p3 w3 = (x4, p4, w4)" by (rule prod_cases3)
          have "acct B p4" using B True acct_retryDelay [OF d] by simp
          then show ?thesis using B True Y G d Suc.prems(4) Suc.IH [of B p4 w4]
            by (cases x4) (auto simp: got_def)
        qed
      qed
    qed
  qed
qed

lemma acct_Get:
  assumes "acct A p" "own \<subseteq> A" "Q A" "others_keep Q own others"
    and "Get others L p w = Some (r, p', w')"
  shows "got Q own r p'"
proof -
  have a: "acct A (recordGetRequest p)" using assms(1) by simp
  define g where "g = get_attempts others L (fst (Now L w)) DefaultMaxRetries (recordGetRequest p) (snd (Now L w))"
  have G: "Get others L p w =
      (if closed p then Some (Inl ErrPoolClosed, recordGetFailure ''pool_closed'' (recordGetRequest p), snd (Now L w))
       else g)"
    by (simp add: Get_def Let_def split_beta checkPoolClosed_def g_def recordGetRequest_def)
  show ?thesis
  proof (cases "closed p")
    case True
    then have "acct A p'" "\<exists>e. r = Inl e" using assms(1,5) G by auto
    then show ?thesis using assms(2,3) by (auto simp: got_def)
  next
    case False
    with assms(5) G have "g = Some (r, p', w')" by simp
    then show ?thesis unfolding g_def by (rule acct_get_attempts [OF assms(4) a assms(2,3)])
  qed
qed

lemma acct_Put:
  assumes "acct A p" "c \<in> A"
  shows "acct (A - {c}) (fst (Put L (Some c) p w))"
proof -
  have nb: "\<not> broken (heap p c)" using assms by (auto simp: acct_def)
  define p2 where "p2 = update_conn c (\<lambda>pc. pc\<lparr>inUse := False, lastUsed := fst (Now L w)\<rparr>)
                          (emit RecordPoolPutRequest p)"
  have a2: "acct A p2" using assms unfolding p2_def by (intro acct_update) auto
  have iu: "\<not> inUse (heap p2 c)" by (simp add: p2_def update_conn_def)
  have close: "acct (A - {c}) (fst (closeConnectionWithReason L c r (emit ev p2) w1))" for r ev w1
    using acct_close [of A "emit ev p2" c L r w1] a2 assms(2) by simp
  show ?thesis
    using nb close acct_close [OF a2 assms(2)] acct_send [OF a2 assms(2) iu]
    by (simp add: Put_def Let_def split_beta p2_def [symmetric] split: bool.splits prod.splits)
       auto
qed

lemma acct_Discard:
  assumes "acct A p" "c \<in> A"
  shows "acct (A - {c}) (fst (Discard L (Some c) p w))"
proof -
  have nb: "\<not> broken (heap p c)" using assms by (auto simp: acct_def)
  define q where "q = fst (closeConnectionWithReason L c ''error'' p w)"
  have q: "acct (A - {c}) q" using acct_close [OF assms] by (simp add: q_def)
  have "c \<notin> set (chan q)" using assms by (auto simp: q_def chan_close acct_def)
  then have "acct (A - {c}) (q\<lparr>heap := (heap q)(c := x)\<rparr>)" for x
    using q by (auto simp: acct_def)
  moreover have "fst (Discard L (Some c) p w) = q\<lparr>heap := (heap q)(c := (heap q c)\<lparr>broken := True\<rparr>)\<rparr>"
    using nb by (auto simp: Discard_def closeConnectionWithReason_def update_conn_def q_def emit_def Let_def
        split_beta split: option.splits)
  ultimately show ?thesis by simp
qed

subsection \<open>Maintenance and shutdown\<close>

lemma close_fields [simp]:
  "heap (fst (closeConnectionWithReason L c r p w)) = heap p"
  "closed (fst (closeConnectionWithReason L c r p w)) = closed p"
  "closeDone (fst (closeConnectionWithReason L c r p w)) = closeDone p"
  "maxConnections (fst (closeConnectionWithReason L c r p w)) = maxConnections p"
  "allocated (fst (closeConnectionWithReason L c r p w)) = allocated p"
  by (auto simp: closeConnectionWithReason_def Let_def split_beta split: option.splits)

text \<open>The connections a tick has set aside: idle ones, disjoint from what the others hold.\<close>

definition set_aside :: "nat set \<Rightarrow> nat list \<Rightarrow> ConnectionPool \<Rightarrow> bool" where
  "set_aside A vs p \<longleftrightarrow>
     acct (set vs \<union> A) p \<and> set vs \<inter> A = {} \<and> distinct vs \<and> (\<forall>v \<in> set vs. \<not> inUse (heap p v)) \<and>
     \<not> closed p"

lemma set_aside_receive:
  assumes "set_aside A vs p" "chan p = c # rest"
  shows "set_aside A (vs @ [c]) (p\<lparr>chan := rest, poolSize := poolSize p - 1\<rparr>)"
  using assms acct_receive [of "set vs \<union> A" p c rest] by (auto simp: set_aside_def acct_def)

lemma set_aside_close:
  assumes "set_aside A (vs @ [c]) p"
  shows "set_aside A vs (fst (closeConnectionWithReason L c r p w))"
proof -
  have e: "set (vs @ [c]) \<union> A - {c} = set vs \<union> A" using assms by (auto simp: set_aside_def)
  have "acct (set (vs @ [c]) \<union> A - {c}) (fst (closeConnectionWithReason L c r p w))"
    using assms by (intro acct_close) (auto simp: set_aside_def)
  then show ?thesis using assms unfolding e by (auto simp: set_aside_def)
qed

lemma set_aside_send:
  assumes "set_aside A (c # vs) p"
  shows "set_aside A vs (p\<lparr>chan := chan p @ [c], poolSize := poolSize p + 1\<rparr>)"
proof -
  have e: "set (c # vs) \<union> A - {c} = set vs \<union> A" using assms by (auto simp: set_aside_def)
  have "acct (set (c # vs) \<union> A - {c}) (p\<lparr>chan := chan p @ [c], poolSize := poolSize p + 1\<rparr>)"
    using assms by (intro acct_send) (auto simp: set_aside_def)
  then show ?thesis using assms unfolding e by (auto simp: set_aside_def)
qed

lemma set_aside_close_first:
  assumes "set_aside A (c # vs) p"
  shows "set_aside A vs (fst (closeConnectionWithReason L c r p w))"
  by (rule set_aside_close) (use assms in \<open>auto simp: set_aside_def insert_commute\<close>)

lemma set_aside_drainValid:
  "set_aside A vs p \<Longrightarrow> drainValid done L vs p w = (vs', p', w') \<Longrightarrow> set_aside A vs' p'"
proof (induction "done" L vs p w rule: drainValid.induct)
  case (1 "done" L vs p w)
  show ?case
  proof (cases "chan p")
    case Nil
    with "1.prems" show ?thesis by (simp add: drainValid.simps)
  next
    case (Cons c rest)
    define s where "s = (if done w then SelectDone L w else (False, w))"
    define q where "q = p\<lparr>chan := rest, poolSize := poolSize p - 1\<rparr>"
    define v where "v = isConnectionValid L c q (snd s)"
    have D: "drainValid done L vs p w =
       (if fst s then (vs, p, snd s)
        else if fst v then drainValid done L (vs @ [c]) q (snd v)
        else drainValid done L vs (fst (closeConnectionWithReason L c ''timeout'' q (snd v)))
               (snd (closeConnectionWithReason L c ''timeout'' q (snd v))))"
      by (subst drainValid.simps) (simp add: Cons Let_def split_beta s_def q_def v_def)
    have r: "set_aside A (vs @ [c]) q"
      using set_aside_receive [OF "1.prems"(1) Cons] by (simp add: q_def)
    note IH = "1.IH" [OF Cons s_def prod.collapse _ q_def v_def prod.collapse]
    show ?thesis
    proof (cases "fst s")
      case True
      with "1.prems" D show ?thesis by simp
    next
      case ns: False
      show ?thesis
      proof (cases "fst v")
        case True
        with "1.prems"(2) D ns have "drainValid done L (vs @ [c]) q (snd v) = (vs', p', w')" by simp
        then show ?thesis using IH(1) [OF ns True r] by simp
      next
        case False
        with "1.prems"(2) D ns show ?thesis
          using IH(2) [OF ns False set_aside_close [OF r]] by simp
      qed
    qed
  qed
qed

lemma set_aside_reinsert:
  "set_aside A vs p \<Longrightarrow> set_aside A [] (fst (reinsert L vs p w))"
proof (induction vs arbitrary: p w)
  case (Cons c vs)
  show ?case
  proof (cases "int (length (chan p)) < maxConnections p")
    case True
    then show ?thesis using Cons.IH [OF set_aside_send [OF Cons.prems]] by simp
  next
    case False
    then show ?thesis
      using Cons.IH [OF set_aside_close_first [OF Cons.prems, of L "''normal''" w]] by (simp add: split_beta)
  qed
qed simp

lemma acct_maintenance_step:
  assumes "acct A p"
  shows "acct A (fst (snd (maintenance_step done L p w)))"
proof (cases "closed p")
  case True
  then show ?thesis using assms by (simp add: maintenance_step_def)
next
  case False
  obtain vs p1 w1 where d: "drainValid done L [] p w = (vs, p1, w1)" by (rule prod_cases3)
  have "set_aside A [] p" using assms False by (simp add: set_aside_def)
  from set_aside_reinsert [OF set_aside_drainValid [OF this d]]
  have "set_aside A [] (fst (reinsert L vs p1 w1))" .
  then show ?thesis using False d
    by (simp add: maintenance_step_def runMaintenanceTick_def split_beta set_aside_def)
qed

lemma acct_drainClose:
  "acct A (p\<lparr>closed := False\<rparr>) \<Longrightarrow>
     acct A ((fst (drainClose L p w))\<lparr>closed := False\<rparr>) \<and> chan (fst (drainClose L p w)) = [] \<and>
     closed (fst (drainClose L p w)) = closed p"
proof (induction L p w rule: drainClose.induct)
  case (1 L p w)
  show ?case
  proof (cases "chan p")
    case Nil
    with "1.prems" show ?thesis by (simp add: drainClose.simps)
  next
    case (Cons c rest)
    define q where "q = p\<lparr>chan := rest, poolSize := poolSize p - 1\<rparr>"
    have c: "chan (p\<lparr>closed := False\<rparr>) = c # rest" using Cons by simp
    note r = acct_receive [OF "1.prems" c]
    have "q\<lparr>closed := False\<rparr> =
        p\<lparr>closed := False, chan := rest, poolSize := poolSize (p\<lparr>closed := False\<rparr>) - 1\<rparr>"
      by (simp add: q_def)
    with r(2) have q: "acct (insert c A) (q\<lparr>closed := False\<rparr>)" by (simp only:)
    have "acct A (fst (closeConnectionWithReason L c ''shutdown'' (q\<lparr>closed := False\<rparr>) w))"
      using acct_close [OF q insertI1, of L "''shutdown''" w] r(1) by simp
    moreover have "(fst (closeConnectionWithReason L c ''shutdown'' q w))\<lparr>closed := False\<rparr> =
        fst (closeConnectionWithReason L c ''shutdown'' (q\<lparr>closed := False\<rparr>) w)"
      by (simp add: closeConnectionWithReason_def emit_def Let_def split_beta split: option.splits)
    ultimately have "acct A ((fst (closeConnectionWithReason L c ''shutdown'' q w))\<lparr>closed := False\<rparr>)"
      by simp
    moreover have "drainClose L p w =
        drainClose L (fst (closeConnectionWithReason L c ''shutdown'' q w))
          (snd (closeConnectionWithReason L c ''shutdown'' q w))"
      by (subst drainClose.simps) (simp add: Cons q_def)
    moreover have "closed q = closed p" by (simp add: q_def)
    ultimately show ?thesis using "1.IH" [OF Cons, folded q_def] by simp
  qed
qed

lemma acct_Close:
  assumes "acct A p" shows "acct A (fst (Close L p w))"
proof (cases "closeDone p \<or> closed p")
  case True
  then show ?thesis using assms by (auto simp: Close_def Let_def acct_def)
next
  case False
  define q where "q = p\<lparr>closeDone := True, closed := True\<rparr>"
  have "acct A (q\<lparr>closed := False\<rparr>)" using assms False by (simp add: q_def acct_def)
  from acct_drainClose [OF this, of L w] have "acct A (fst (drainClose L q w))"
    by (auto simp: acct_def)
  then show ?thesis using False by (simp add: Close_def Let_def q_def)
qed

end
