(* ===== verification/PoolProperties.thy ===== *)
theory PoolProperties
  imports PoolAccounting
begin

section \<open>Properties of the connection pool\<close>

text \<open>
  Histories of a client that takes connections and gives them back, and what single operations
  do. The witnesses run in \<open>clock_env\<close>, a world that is nothing but a clock: dialling, binding
  and searching succeed there, and no context is done.
\<close>

datatype pool_op = OpGet | OpPut nat | OpDiscard nat | OpMaintenance | OpClose

text \<open>
  One operation of a client. A connection may be put or discarded by who holds it, and any
  number of times after it was discarded. \<open>None\<close> is a \<open>Get\<close> that blocks for good.
\<close>

fun client_op ::
  "('w \<Rightarrow> bool) \<Rightarrow> 'w Env \<Rightarrow> pool_op \<Rightarrow> nat set \<times> ConnectionPool \<times> 'w
     \<Rightarrow> (nat set \<times> ConnectionPool \<times> 'w) option" where
  "client_op done L OpGet (own, p, w) =
     (case Get (\<lambda>p w. (p, w)) L p w of
        None \<Rightarrow> None
      | Some (Inl e, p1, w1) \<Rightarrow> Some (own, p1, w1)
      | Some (Inr c, p1, w1) \<Rightarrow> Some (insert c own, p1, w1))"
| "client_op done L (OpPut c) (own, p, w) =
     (if c \<in> own \<or> broken (heap p c)
      then let (p1, w1) = Put L (Some c) p w in Some (own - {c}, p1, w1)
      else Some (own, p, w))"
| "client_op done L (OpDiscard c) (own, p, w) =
     (if c \<in> own \<or> broken (heap p c)
      then let (p1, w1) = Discard L (Some c) p w in Some (own - {c}, p1, w1)
      else Some (own, p, w))"
| "client_op done L OpMaintenance (own, p, w) =
     (let (stop, p1, w1) = maintenance_step done L p w in Some (own, p1, w1))"
| "client_op done L OpClose (own, p, w) =
     (let (p1, w1) = Close L p w in Some (own, p1, w1))"

fun client_history ::
  "('w \<Rightarrow> bool) \<Rightarrow> 'w Env \<Rightarrow> pool_op list \<Rightarrow> nat set \<times> ConnectionPool \<times> 'w
     \<Rightarrow> (nat set \<times> ConnectionPool \<times> 'w) option" where
  "client_history done L [] s = Some s"
| "client_history done L (op # ops) s =
     (case client_op done L op s of None \<Rightarrow> None | Some s1 \<Rightarrow> client_history done L ops s1)"

definition clock_env :: "time Env" where
  "clock_env =
     \<lparr>Now = (\<lambda>w. (w, w)), DialURL = (\<lambda>url tls w. (Inr (Some 0), w)), SetTimeout = (\<lambda>h d w. w),
      ExternalBind = (\<lambda>h w. (None, w)), Bind = (\<lambda>h u pw w. (None, w)), ConnClose = (\<lambda>h w. (None, w)),
      ConnSearch = (\<lambda>h r w. (Inr [], w)), TLSConnectionState = (\<lambda>h w. None),
      ReadFile = (\<lambda>f w. (Inl ''no file'', w)), AppendCertsFromPEM = (\<lambda>s. False),
      LoadX509KeyPair = (\<lambda>c k w. (Inl ''no key'', w)), CtxErr = (\<lambda>w. None),
      SelectDone = (\<lambda>w. (True, w)), Sleep = (\<lambda>d w. w + d)\<rparr>"

lemma clock_env_simps:
  "Now clock_env w = (w, w)" "CtxErr clock_env w = None" "SelectDone clock_env w = (True, w)"
  "ConnClose clock_env h w = (None, w)" "ConnSearch clock_env h r w = (Inr [], w)"
  "Sleep clock_env d w = w + d"
  by (simp_all add: clock_env_def)

definition plain_config :: Config where
  "plain_config = envConfig (\<lambda>_. '''') None"

lemma acct_new:
  "NewConnectionPoolWithType cfg n mon s t = Some p \<Longrightarrow> acct {} p"
  by (auto simp: NewConnectionPoolWithType_def Let_def acct_def split: if_splits)

lemma broken_not_owned: "acct own p \<Longrightarrow> broken (heap p c) \<Longrightarrow> own - {c} = own"
  by (auto simp: acct_def)

lemma Put_broken: "broken (heap p c) \<Longrightarrow> Put L (Some c) p w = (p, w)"
  by (simp add: Put_def)

lemma Discard_broken: "broken (heap p c) \<Longrightarrow> Discard L (Some c) p w = (p, w)"
  by (simp add: Discard_def)

lemma acct_client_op:
  assumes "acct own p" "client_op done L op (own, p, w) = Some (own', p', w')"
  shows "acct own' p'"
proof (cases op)
  case OpGet
  have "others_keep (\<lambda>A. A = own) own (\<lambda>p w. (p, w))" by (auto simp: others_keep_def)
  note g = acct_Get [OF assms(1) subset_refl refl this]
  from assms(2) OpGet obtain r p1 w1 where G: "Get (\<lambda>p w. (p, w)) L p w = Some (r, p1, w1)"
    by (auto split: option.splits)
  show ?thesis using g [OF G] assms(2) OpGet G by (cases r) (auto simp: got_def)
next
  case (OpPut c)
  show ?thesis
  proof (cases "broken (heap p c)")
    case True
    then show ?thesis using assms OpPut by (auto simp: Put_broken broken_not_owned)
  next
    case False
    then show ?thesis using assms OpPut acct_Put [OF assms(1), of c L w]
      by (auto simp: split_beta split: if_splits)
  qed
next
  case (OpDiscard c)
  show ?thesis
  proof (cases "broken (heap p c)")
    case True
    then show ?thesis using assms OpDiscard by (auto simp: Discard_broken broken_not_owned)
  next
    case False
    then show ?thesis using assms OpDiscard acct_Discard [OF assms(1), of c L w]
      by (auto simp: split_beta split: if_splits)
  qed
next
  case OpMaintenance
  then show ?thesis using assms acct_maintenance_step [OF assms(1), of "done" L w] by (auto simp: split_beta)
next
  case OpClose
  then show ?thesis using assms acct_Close [OF assms(1), of L w] by (auto simp: split_beta)
qed

lemma client_history_eq: "client_history done L ops s = history (client_op done L) ops s"
  by (induction ops arbitrary: s) (simp_all cong: option.case_cong)

interpretation cp: fallible_machine "client_op done L" "\<lambda>_. True" "\<lambda>(own, p, w). acct own p" for "done" L
  by unfold_locales (auto intro: acct_client_op)

lemma acct_client_history:
  "acct own p \<Longrightarrow> client_history done L ops (own, p, w) = Some (own', p', w') \<Longrightarrow> acct own' p'"
  using cp.history_inv [of "done" L ops "(own, p, w)" "(own', p', w')"]
  by (simp add: client_history_eq list.pred_True)

text \<open>C2. Whatever a client does with a fresh pool - taking connections, returning or discarding
  them (also twice), through maintenance ticks and the shutdown, with a server that fails at
  will - the counters stay right: the active count is the number of pooled and of held
  connections, never above the maximum, the size counter is the length of the channel, no
  connection is both pooled and held, and none of them is closed or marked broken.\<close>

theorem pool_accounting:
  "NewConnectionPoolWithType cfg n mon srv typ = Some p0 \<Longrightarrow>
   client_history done L ops ({}, p0, w0) = Some (own, p, w) \<Longrightarrow> acct own p"
  by (rule acct_client_history [OF acct_new])

lemma plain_config_fields:
  "TLS plain_config = False" "Username plain_config = ''''" "AuthMethod plain_config = ''''"
  by (simp_all add: plain_config_def envConfig_def getEnvOrDefault_def getEnvBoolOrDefault_def)

lemma DefaultMaxRetries_3: "DefaultMaxRetries = Suc (Suc (Suc 0))"
  by (simp add: DefaultMaxRetries_def)

lemma emit_unmonitored: "\<not> poolMonitoring p \<Longrightarrow> emit ev p = p"
  by (simp add: emit_def)

lemma unmonitored:
  assumes "\<not> poolMonitoring p"
  shows "updateMetrics p = p" "recordOperation op p = p" "recordGetRequest p = p"
    "recordGetFailure s p = p" "recordConnectionReused p = p" "recordWaitTime d p = p"
    "recordConnectionCreationSuccess L start p w = (p, w)"
  using assms by (simp_all add: emit_unmonitored updateMetrics_def recordOperation_def
      recordGetRequest_def recordGetFailure_def recordConnectionReused_def recordWaitTime_def
      recordConnectionCreationSuccess_def Let_def)

lemmas pool_eval =
  Get_def get_attempts.simps tryGetExistingConnection_def tryCreateNewConnection_def
  createAndRecordConnection_def createConnection_def establishConnection_def dial_def
  bind_credentials_def validateAndPrepareConnection_def isConnectionUsable_def
  closeConnectionWithReason_def Put_def Discard_def Close_def drainClose_Nil drainClose_Cons
  emit_unmonitored unmonitored checkPoolClosed_def update_conn_def
  clock_env_def plain_config_fields DefaultMaxRetries_3 Let_def time_defs

lemma pool_accounting_witness:
  "\<exists>p0 own p w. NewConnectionPoolWithType plain_config 2 False ''srv'' '''' = Some p0 \<and>
     client_history (\<lambda>_. False) clock_env [OpGet, OpGet, OpPut 0, OpDiscard 1, OpPut 1, OpGet, OpPut 0, OpClose]
       ({}, p0, 0) = Some (own, p, w) \<and> acct own p"
proof -
  obtain p0 where n: "NewConnectionPoolWithType plain_config 2 False ''srv'' '''' = Some p0"
    by (simp add: NewConnectionPoolWithType_def)
  have "case NewConnectionPoolWithType plain_config 2 False ''srv'' '''' of Some p0 \<Rightarrow>
      client_history (\<lambda>_. False) clock_env
      [OpGet, OpGet, OpPut 0, OpDiscard 1, OpPut 1, OpGet, OpPut 0, OpClose] ({}, p0, 0) \<noteq> None"
    by (simp add: NewConnectionPoolWithType_def pool_eval)
  then obtain own p w where h: "client_history (\<lambda>_. False) clock_env
      [OpGet, OpGet, OpPut 0, OpDiscard 1, OpPut 1, OpGet, OpPut 0, OpClose] ({}, p0, 0) = Some (own, p, w)"
    using n by auto
  then show ?thesis using pool_accounting [OF n h] n by blast
qed

text \<open> Discarding is final and idempotent: after \<open>Discard\<close>, a later \<open>Put\<close> of the same
  connection (such as a deferred one) and a second \<open>Discard\<close> change nothing, whatever state the
  connection was in before.\<close>

theorem discard_is_final:
  "let (p1, w1) = Discard L (Some c) p w
   in Put L (Some c) p1 w2 = (p1, w2) \<and> Discard L (Some c) p1 w2 = (p1, w2)"
proof -
  have "broken (heap (fst (Discard L (Some c) p w)) c)"
    by (cases "broken (heap p c)") (simp_all add: Discard_def update_conn_def)
  then show ?thesis by (simp add: split_beta Let_def Put_broken Discard_broken)
qed

text \<open> The published number of idle connections is always zero: the active count of the pool
  includes the connections waiting in the channel, so the difference the gauge is computed from
  is never positive. A pool whose connections are all idle reports none idle.\<close>

theorem idle_gauge_is_zero:
  "acct own p \<Longrightarrow> poolMonitoring p \<Longrightarrow> poolServerName p \<noteq> '''' \<Longrightarrow>
   \<exists>active total util. poolLog (updateMetrics p) = poolLog p @
     map (\<lambda>ev. (poolServerName p, poolType p, ev))
       [RecordPoolConnections ''active'' active, RecordPoolConnections ''idle'' (Fin 0),
        RecordPoolConnections ''total'' total, RecordPoolUtilization util]"
proof -
  assume a: "acct own p" "poolMonitoring p" "poolServerName p \<noteq> ''''"
  have i: "(if poolSize p - activeConns p < 0 then 0 else poolSize p - activeConns p) = 0"
    using a(1) by (simp add: acct_def)
  have z: "f_of_int 0 = Fin 0" by (simp add: exact_int_def)
  have e: "emit ev q = q\<lparr>poolLog := poolLog q @ [(poolServerName q, poolType q, ev)]\<rparr>"
    if "poolMonitoring q" "poolServerName q \<noteq> ''''" for ev q
    using that by (simp add: emit_def)
  show ?thesis
    unfolding updateMetrics_def Let_def i z using a(2,3) by (simp add: e)
qed

lemma idle_gauge_is_zero_witness:
  "\<exists>p active total util. chan p = [0] \<and> poolLog (updateMetrics p) =
     map (\<lambda>ev. (''srv'', ''ldap'', ev))
       [RecordPoolConnections ''active'' active, RecordPoolConnections ''idle'' (Fin 0),
        RecordPoolConnections ''total'' total, RecordPoolUtilization util]"
proof -
  obtain p0 where p0: "NewConnectionPoolWithType plain_config 2 True ''srv'' '''' = Some p0"
    by (simp add: NewConnectionPoolWithType_def)
  define p where "p = p0\<lparr>chan := [0], poolSize := 1, activeConns := 1, allocated := 1,
    heap := (\<lambda>_. \<lparr>conn = Some 0, createdAt = 0, lastUsed = 0, inUse = False, broken = False\<rparr>)\<rparr>"
  have "acct {} p" "poolMonitoring p" "poolServerName p \<noteq> ''''" "poolServerName p = ''srv''"
    "poolType p = ''ldap''" "poolLog p = []" "chan p = [0]"
    using p0 by (auto simp: NewConnectionPoolWithType_def acct_def p_def DefaultPoolType_def)
  then show ?thesis using idle_gauge_is_zero [of "{}" p] by (intro exI [of _ p]) simp
qed

text \<open>The two checks of a connection agree, so one fact about either serves both.\<close>

lemma valid_eq_usable: "isConnectionValid L c p w = isConnectionUsable L c p w"
  by (simp add: isConnectionValid_def isConnectionValidLocked_def isConnectionUsable_def Let_def split_beta)

text \<open> The check that runs without the connection's lock (in \<open>Get\<close> and \<open>Put\<close>) and the one that
  runs under it (in the maintenance) decide alike, and both pass exactly the connections that
  have a socket, are no older than the maximal age, and are in use, or were used within the idle
  timeout and, if not within thirty seconds, answer a ping.\<close>

theorem connection_check_spec:
  "isConnectionValid L c p w = isConnectionUsable L c p w \<and>
   fst (isConnectionUsable L c p w) =
     (let pc = heap p c; (t1, w1) = Now L w; (t2, w2) = Now L w1; (t3, w3) = Now L w2
      in conn pc \<noteq> None \<and> time_Sub t1 (createdAt pc) \<le> maxIdleTime p \<and>
         (inUse pc \<or> time_Sub t2 (lastUsed pc) \<le> idleTimeout p \<and>
            (time_Sub t3 (lastUsed pc) \<le> 30 * second \<or> fst (pingConnection L c p w3))))"
proof -
  have "fst (isConnectionUsable L c p w) =
     (let pc = heap p c; (t1, w1) = Now L w; (t2, w2) = Now L w1; (t3, w3) = Now L w2
      in conn pc \<noteq> None \<and> time_Sub t1 (createdAt pc) \<le> maxIdleTime p \<and>
         (inUse pc \<or> time_Sub t2 (lastUsed pc) \<le> idleTimeout p \<and>
            (time_Sub t3 (lastUsed pc) \<le> 30 * second \<or> fst (pingConnection L c p w3))))"
    by (cases "conn (heap p c) = None"; cases "inUse (heap p c)")
       (auto simp: isConnectionUsable_def Let_def split_beta)
  from conjI [OF valid_eq_usable this] show ?thesis .
qed

text \<open> The TLS configuration the pool dials with follows the settings and nothing else: TLS 1.2
  at least, verification skipped exactly when configured, the server name override only when set,
  a private certificate pool exactly when a CA file is set, a client certificate exactly when
  both its files are; a CA file that does not parse is an error, never an empty pool.\<close>

theorem tls_config_follows_settings:
  "buildTLSConfig L p w = (Inr t, w') \<Longrightarrow>
     MinVersion t = VersionTLS12 \<and>
     InsecureSkipVerify t = TLSSkipVerify (poolConfig p) \<and>
     tlsServerName t = TLSServerName (poolConfig p) \<and>
     (RootCAs t \<noteq> None) = (TLSCA (poolConfig p) \<noteq> '''') \<and>
     (\<forall>ca. RootCAs t = Some ca \<longrightarrow> AppendCertsFromPEM L ca) \<and>
     (Certificates t \<noteq> []) = (TLSCert (poolConfig p) \<noteq> '''' \<and> TLSKey (poolConfig p) \<noteq> '''')"
  by (auto simp: buildTLSConfig_def Let_def split: if_splits sum.splits prod.splits)

lemma tls_config_follows_settings_witness:
  "\<exists>p t. buildTLSConfig clock_env p 5 = (Inr t, 5) \<and> MinVersion t = VersionTLS12 \<and>
     (RootCAs t \<noteq> None) = (TLSCA (poolConfig p) \<noteq> '''')"
proof -
  obtain p where p: "NewConnectionPoolWithType plain_config 2 True ''srv'' '''' = Some p"
    by (simp add: NewConnectionPoolWithType_def)
  then have "poolConfig p = plain_config" by (auto simp: NewConnectionPoolWithType_def)
  then obtain t where "buildTLSConfig clock_env p 5 = (Inr t, 5)"
    by (simp add: buildTLSConfig_def plain_config_def envConfig_def getEnvOrDefault_def)
  from tls_config_follows_settings [OF this] this show ?thesis by blast
qed

text \<open>A failed bind does not leak the socket it was tried on: when the dial succeeded and
  \<open>establishConnection\<close> still fails, the last thing it did was to close that connection.\<close>

theorem failed_bind_closes_socket:
  "dial L p w = (Inr (Some h), w1) \<Longrightarrow> establishConnection L p w = (Inl err, w2) \<Longrightarrow>
     \<exists>w3. w2 = snd (ConnClose L h w3)"
  by (auto simp: establishConnection_def bind_credentials_def Let_def
      split: if_splits option.splits prod.splits)

definition refusing_env :: "time Env" where
  "refusing_env = clock_env\<lparr>ExternalBind := (\<lambda>h w. (Some ''invalid credentials'', w)),
     ConnClose := (\<lambda>h w. (None, w + 7))\<rparr>"

lemma failed_bind_closes_socket_witness:
  "\<exists>p err w3. establishConnection refusing_env p 0 = (Inl err, snd (ConnClose refusing_env 0 w3))"
proof -
  obtain p0 where p0: "NewConnectionPoolWithType (plain_config\<lparr>AuthMethod := ''external''\<rparr>) 2 True ''srv'' '''' = Some p0"
    by (simp add: NewConnectionPoolWithType_def)
  then have c: "poolConfig p0 = plain_config\<lparr>AuthMethod := ''external''\<rparr>"
    by (auto simp: NewConnectionPoolWithType_def)
  have d: "dial refusing_env p0 0 = (Inr (Some 0), 0)"
    by (simp add: dial_def c plain_config_fields refusing_env_def clock_env_def)
  have "establishConnection refusing_env p0 0 = (Inl ''SASL EXTERNAL bind failed: invalid credentials'', 7)"
    unfolding establishConnection_def d
    by (simp add: bind_credentials_def c refusing_env_def clock_env_def)
  with failed_bind_closes_socket [OF d this] show ?thesis by metis
qed

subsection \<open>The results of Get\<close>

lemma waitForConnection_result:
  assumes "waitForConnection others L start p w = Some (r, p', w')"
  shows "(\<exists>c. r = Inr (Some c)) \<or> r = Inl NoValidConnection \<or> (\<exists>e. r = Inl (ContextError e))"
proof -
  obtain p1 w1 where o: "(if chan p = [] \<and> CtxErr L w = None then others p w else (p, w)) = (p1, w1)"
    by fastforce
  show ?thesis
  proof (cases "chan p1")
    case Nil
    with assms show ?thesis by (auto simp: waitForConnection_Nil [where others = others, OF o Nil] split: option.splits)
  next
    case (Cons c rest)
    define s where "s = (if CtxErr L w1 \<noteq> None then SelectDone L w1 else (False, w1))"
    obtain z p2 w2 where V: "validateAndPrepareConnection L c start
        (p1\<lparr>chan := rest, poolSize := poolSize p1 - 1\<rparr>) (snd s) = (z, p2, w2)"
      by (rule prod_cases3)
    show ?thesis using assms unfolding waitForConnection_Cons [where others = others, OF o Cons s_def V]
      by (cases "fst s"; cases "CtxErr L w1"; cases z) (auto split: if_splits)
  qed
qed

lemma waitForConnection_some:
  "waitForConnection others L start p w = Some (Inr r, p', w') \<Longrightarrow> r \<noteq> None"
  by (auto dest: waitForConnection_result)

lemma waitForConnection_error:
  "waitForConnection others L start p w = Some (Inl e, p', w') \<Longrightarrow>
     e = NoValidConnection \<or> (\<exists>c. e = ContextError c)"
  by (auto dest: waitForConnection_result)

lemma tryCreateNew_error:
  "tryCreateNewConnection L start p w = (Inl e, p', w') \<Longrightarrow> \<exists>m. e = CreateError m"
  by (auto simp: tryCreateNewConnection_def createAndRecordConnection_def split_beta
      split: if_splits sum.splits prod.splits)

lemma get_attempts_error:
  "get_attempts others L start (Suc n) p w = Some (Inl e, p', w') \<Longrightarrow>
     e \<noteq> NoConnectionAfterRetries \<and> e \<noteq> NilConnection \<and> e \<noteq> ErrPoolClosed"
proof (induction n arbitrary: p w)
  case 0
  then show ?case
    by (auto dest!: waitForConnection_error tryCreateNew_error waitForConnection_some
        split: option.splits prod.splits sum.splits)
next
  case (Suc n)
  from Suc.prems show ?case
    by (subst (asm) get_attempts.simps)
       (auto dest!: tryCreateNew_error Suc.IH simp del: get_attempts.simps
         split: option.splits prod.splits sum.splits)
qed

text \<open> When \<open>Get\<close> fails it is for one of four reasons: the pool is closed, a new connection
  could not be made, the context ended, or the connection waited for was stale. The error "no
  available connections after max retries" and its max\_attempts failure count, which the last
  statements of \<open>Get\<close> produce, are never reached: the last attempt blocks until it has an answer.\<close>

theorem get_error_kinds:
  "Get others L p w = Some (Inl e, p', w') \<Longrightarrow>
     e \<noteq> NoConnectionAfterRetries \<and> e \<noteq> NilConnection \<and> (closed p = (e = ErrPoolClosed))"
proof -
  assume g: "Get others L p w = Some (Inl e, p', w')"
  have c: "closed (recordGetRequest p) = closed p" by (simp add: recordGetRequest_def)
  have r: "DefaultMaxRetries = Suc 2" by (simp add: DefaultMaxRetries_def)
  show "e \<noteq> NoConnectionAfterRetries \<and> e \<noteq> NilConnection \<and> (closed p = (e = ErrPoolClosed))"
    using g get_attempts_error [of others L _ 2 _ _ e p' w']
    by (auto simp: Get_def Let_def split_beta checkPoolClosed_def c r simp del: get_attempts.simps
        split: if_splits)
qed

lemma get_error_kinds_witness:
  "\<exists>p p'. closed p \<and> Get (\<lambda>p w. (p, w)) clock_env p 0 = Some (Inl ErrPoolClosed, p', 0) \<and>
     ErrPoolClosed \<noteq> NoConnectionAfterRetries"
proof -
  obtain p0 where "NewConnectionPoolWithType plain_config 2 False ''srv'' '''' = Some p0"
    by (simp add: NewConnectionPoolWithType_def)
  then have p: "\<not> poolMonitoring p0" by (auto simp: NewConnectionPoolWithType_def)
  obtain p' where "Get (\<lambda>p w. (p, w)) clock_env (p0\<lparr>closed := True\<rparr>) 0 = Some (Inl ErrPoolClosed, p', 0)"
    using p by (simp add: Get_def checkPoolClosed_def unmonitored clock_env_def)
  from get_error_kinds [OF this] this show ?thesis by (intro exI [of _ "p0\<lparr>closed := True\<rparr>"] exI [of _ p']) simp
qed

text \<open>The pool's log seen as events.\<close>

definition events :: "ConnectionPool \<Rightarrow> pool_event list" where
  "events p = map (\<lambda>(srv, typ, ev). ev) (poolLog p)"

lemma events_emit:
  "poolMonitoring p \<Longrightarrow> poolServerName p \<noteq> '''' \<Longrightarrow> events (emit ev p) = events p @ [ev]"
  by (simp add: events_def emit_def)

lemma events_update [simp]: "events (update_conn c f p) = events p"
  "poolMonitoring (update_conn c f p) = poolMonitoring p"
  "poolServerName (update_conn c f p) = poolServerName p"
  by (simp_all add: events_def update_conn_def)

lemma validate_fields:
  "validateAndPrepareConnection L c start p w = (Some v, p', w') \<Longrightarrow>
     poolMonitoring p' = poolMonitoring p \<and> poolServerName p' = poolServerName p \<and>
     (poolMonitoring p \<longrightarrow> poolServerName p \<noteq> '''' \<longrightarrow>
        (\<exists>d. events p' = events p @ [RecordPoolConnectionReused, RecordPoolWaitTime d]))"
  by (cases "isConnectionUsable L c p w")
     (auto simp: validateAndPrepareConnection_def Let_def split_beta recordWaitTime_def
      recordConnectionReused_def events_emit split: bool.splits)

text \<open>A \<open>Get\<close> that had to wait is counted twice in the metrics: when the wait yields a
  connection, the pool has recorded two reuses and two wait times for it, since both the wait and
  the validation it calls record them.\<close>

theorem wait_counts_reuse_twice:
  "waitForConnection (\<lambda>p w. (p, w)) L start p w = Some (Inr (Some c), p', w') \<Longrightarrow>
   poolMonitoring p \<Longrightarrow> poolServerName p \<noteq> '''' \<Longrightarrow>
   \<exists>d1 d2. events p' = events p @ [RecordPoolConnectionReused, RecordPoolWaitTime d1,
                                  RecordPoolConnectionReused, RecordPoolWaitTime d2]"
proof -
  assume h: "waitForConnection (\<lambda>p w. (p, w)) L start p w = Some (Inr (Some c), p', w')"
    and m: "poolMonitoring p" "poolServerName p \<noteq> ''''"
  from h obtain x rest where ch: "chan p = x # rest"
    by (cases "chan p") (auto simp: waitForConnection_def split: option.splits)
  define q where "q = p\<lparr>chan := rest, poolSize := poolSize p - 1\<rparr>"
  have q: "poolMonitoring q" "poolServerName q \<noteq> ''''" "events q = events p"
    using m by (simp_all add: q_def events_def)
  have o: "(if chan p = [] \<and> CtxErr L w = None then (p, w) else (p, w)) = (p, w)" by simp
  define s where "s = (if CtxErr L w \<noteq> None then SelectDone L w else (False, w))"
  obtain z p2 w2 where V: "validateAndPrepareConnection L x start q (snd s) = (z, p2, w2)"
    by (rule prod_cases3)
  note W = waitForConnection_Cons [where others = "\<lambda>p w. (p, w)", OF o ch s_def V [unfolded q_def]]
  from h obtain t where z: "z = Some c"
    and p': "p' = (if poolMonitoring p2 \<and> poolServerName p2 \<noteq> ''''
      then emit (RecordPoolWaitTime t) (emit RecordPoolConnectionReused p2) else p2)"
    unfolding W by (cases "fst s"; cases "CtxErr L w"; cases z) (auto split: if_splits)
  from validate_fields [OF V [unfolded z]] q p' show ?thesis by (auto simp: events_emit)
qed

lemma wait_counts_reuse_twice_witness:
  "\<exists>p p' w' d1 d2. chan p = [0] \<and>
     waitForConnection (\<lambda>p w. (p, w)) clock_env 0 p 0 = Some (Inr (Some 0), p', w') \<and>
     events p' = [RecordPoolConnectionReused, RecordPoolWaitTime d1,
                  RecordPoolConnectionReused, RecordPoolWaitTime d2]"
proof -
  obtain p0 where p0: "NewConnectionPoolWithType plain_config 2 True ''srv'' '''' = Some p0"
    by (simp add: NewConnectionPoolWithType_def)
  define p where "p = p0\<lparr>chan := [0], poolSize := 1, activeConns := 1, allocated := 1,
    heap := (\<lambda>_. \<lparr>conn = Some 0, createdAt = 0, lastUsed = 0, inUse = False, broken = False\<rparr>)\<rparr>"
  have f: "chan p = [0]" "poolMonitoring p" "poolServerName p \<noteq> ''''" "events p = []"
    "maxIdleTime p = 600000000000" "idleTimeout p = 300000000000" "conn (heap p 0) = Some 0"
    "createdAt (heap p 0) = 0" "lastUsed (heap p 0) = 0" "inUse (heap p 0) = False"
    using p0 by (auto simp: NewConnectionPoolWithType_def p_def events_def time_defs)
  have "isConnectionUsable clock_env 0 (p\<lparr>chan := [], poolSize := poolSize p - 1\<rparr>) 0 = (True, 0)"
    by (simp add: isConnectionUsable_def f clock_env_simps time_defs)
  then obtain p' w' where w: "waitForConnection (\<lambda>p w. (p, w)) clock_env 0 p 0 = Some (Inr (Some 0), p', w')"
    by (simp add: waitForConnection_def f clock_env_simps validateAndPrepareConnection_def Let_def
        recordWaitTime_def recordConnectionReused_def)
  obtain d1 d2 where "events p' = [RecordPoolConnectionReused, RecordPoolWaitTime d1,
      RecordPoolConnectionReused, RecordPoolWaitTime d2]"
    using wait_counts_reuse_twice [OF w f(2,3)] f(4) by auto
  with w f(1) show ?thesis by blast
qed

end
