(* ===== verification/Validation.thy ===== *)
theory Validation
  imports GoStrings
begin

section \<open>Input validation (pkg/security/validation.go)\<close>

text \<open>
  The checks the client applies to names, filters and attributes before a search. An error is
  its message, \<open>None\<close> is a nil error. go-ldap's \<open>ParseDN\<close> (does it accept the name?) and
  \<open>EscapeFilter\<close> are parameters. A range loop over the runes of a filter is a loop over its
  bytes here: bytes beyond ASCII are never brackets or backslashes, and skipping the first byte
  of an escaped rune or the whole rune leaves the same brackets.
\<close>

definition MaxDNLength :: nat where "MaxDNLength = 8192"
definition MaxFilterLength :: nat where "MaxFilterLength = 2048"
definition MaxAttributeLength :: nat where "MaxAttributeLength = 256"

definition ValidateLDAPDN :: "(string \<Rightarrow> bool) \<Rightarrow> string \<Rightarrow> string option" where
  "ValidateLDAPDN ParseDN dn =
     (if dn = '''' then Some ''DN cannot be empty''
      else if length dn > MaxDNLength then Some ''invalid DN: exceeds maximum length''
      else if ContainsAny dn [CHR 0x00, CHR 0x0D, CHR 0x0A]
      then Some ''invalid DN: control characters not allowed''
      else if Contains dn ''../'' \<or> Contains dn [CHR ''.'', CHR ''.'', CHR 0x5C]
      then Some ''invalid DN: path traversal detected''
      else if list_ex (Contains (ToLower dn)) [''<script'', ''</script>'', ''javascript:'', ''data:'']
      then Some ''invalid DN: suspicious content detected''
      else if \<not> ParseDN dn then Some ''invalid DN: malformed structure''
      else None)"

fun balanced_loop :: "int \<Rightarrow> bool \<Rightarrow> string \<Rightarrow> bool" where
  "balanced_loop count escaped [] = (count = 0)"
| "balanced_loop count escaped (r # s) =
     (if escaped then balanced_loop count False s
      else if r = CHR 0x5C then balanced_loop count True s
      else if r = CHR ''('' then balanced_loop (count + 1) False s
      else if r = CHR '')'' then
        (if count - 1 < 0 then False else balanced_loop (count - 1) False s)
      else balanced_loop count False s)"

definition hasBalancedParentheses :: "string \<Rightarrow> bool" where
  "hasBalancedParentheses flt = balanced_loop 0 False flt"

definition ValidateLDAPFilter :: "string \<Rightarrow> string option" where
  "ValidateLDAPFilter flt =
     (if flt = '''' then Some ''filter cannot be empty''
      else if length flt > MaxFilterLength then Some ''invalid filter: exceeds maximum length''
      else if Contains flt [CHR 0x00] then Some ''invalid filter: null byte detected''
      else if \<not> hasBalancedParentheses flt then Some ''invalid filter: unbalanced parentheses''
      else if \<not> HasPrefix flt ''('' \<or> \<not> HasSuffix flt '')''
      then Some ''invalid filter: must be enclosed in parentheses''
      else None)"

definition EscapeFilterValue :: "(string \<Rightarrow> string) \<Rightarrow> string \<Rightarrow> string" where
  "EscapeFilterValue EscapeFilter v = EscapeFilter v"

definition is_alpha :: "char \<Rightarrow> bool" where
  "is_alpha c \<longleftrightarrow> byte_in 65 90 c \<or> byte_in 97 122 c"

text \<open>The regular expression a letter, then letters, digits, dots and hyphens.\<close>

definition attrRegex :: "string \<Rightarrow> bool" where
  "attrRegex s =
     (case s of
        [] \<Rightarrow> False
      | c # cs \<Rightarrow> is_alpha c \<and>
          list_all (\<lambda>x. is_alpha x \<or> is_digit x \<or> x = CHR ''.'' \<or> x = CHR ''-'') cs)"

definition ValidateLDAPAttribute :: "string \<Rightarrow> string option" where
  "ValidateLDAPAttribute attr =
     (if attr = '''' then Some ''attribute name cannot be empty''
      else if length attr > MaxAttributeLength then Some ''invalid attribute: exceeds maximum length''
      else if \<not> attrRegex attr then Some ''invalid attribute: contains invalid characters''
      else None)"

definition SanitizeLDAPValue :: "string \<Rightarrow> string" where
  "SanitizeLDAPValue v =
     concat (filter (\<lambda>r. \<not> is_control r) (runes (filter (\<lambda>c. c \<noteq> CHR 0x00) v)))"

definition ValidateSuffixDN :: "(string \<Rightarrow> bool) \<Rightarrow> string \<Rightarrow> string option" where
  "ValidateSuffixDN ParseDN dn =
     (case ValidateLDAPDN ParseDN dn of
        Some err \<Rightarrow> Some err
      | None \<Rightarrow>
          (if list_ex (Contains (ToLower dn)) [''cn=config'', ''cn=schema'', ''cn=subschema'', ''olc'']
           then Some ''access to configuration tree not allowed''
           else if list_ex (HasPrefix (ToLower dn)) [''dc='', ''o='', ''ou='', ''c=''] then None
           else Some ''DN must be a valid naming context (dc=, o=, ou=, c=)''))"

definition ValidateAccessLogDN :: "(string \<Rightarrow> bool) \<Rightarrow> string \<Rightarrow> string option" where
  "ValidateAccessLogDN ParseDN dn =
     (case ValidateLDAPDN ParseDN dn of
        Some err \<Rightarrow> Some err
      | None \<Rightarrow>
          (if ToLower dn \<noteq> ''cn=accesslog'' \<and> \<not> HasSuffix (ToLower dn) '',cn=accesslog''
           then Some ''DN must be within cn=accesslog tree'' else None))"

definition ValidateMonitorDN :: "(string \<Rightarrow> bool) \<Rightarrow> string \<Rightarrow> string option" where
  "ValidateMonitorDN ParseDN dn =
     (case ValidateLDAPDN ParseDN dn of
        Some err \<Rightarrow> Some err
      | None \<Rightarrow>
          (if \<not> Contains (ToLower dn) ''cn=monitor'' then Some ''DN must be within cn=Monitor tree''
           else if Contains (ToLower dn) ''cn=config'' \<or> Contains (ToLower dn) ''cn=schema''
           then Some ''access outside monitor tree not allowed'' else None))"

subsection \<open>Bracket balance\<close>

text \<open>
  The reference definition: drop every backslash with the byte it escapes; then no prefix
  closes more brackets than it opens, and the whole opens as many as it closes.
\<close>

fun unescaped :: "string \<Rightarrow> string" where
  "unescaped [] = []"
| "unescaped (c # s) =
     (if c = CHR 0x5C then (case s of [] \<Rightarrow> [] | _ # t \<Rightarrow> unescaped t) else c # unescaped s)"

definition depth :: "string \<Rightarrow> int" where
  "depth s = int (length (filter (\<lambda>c. c = CHR ''('') s)) - int (length (filter (\<lambda>c. c = CHR '')'') s))"

definition balanced_spec :: "int \<Rightarrow> string \<Rightarrow> bool" where
  "balanced_spec k s \<longleftrightarrow> (\<forall>p \<in> set (prefixes s). 0 \<le> k + depth p) \<and> k + depth s = 0"

lemma depth_Cons:
  "depth (c # s) = (if c = CHR ''('' then 1 else if c = CHR '')'' then - 1 else 0) + depth s"
  by (simp add: depth_def)

lemma depth_Nil [simp]: "depth [] = 0"
  by (simp add: depth_def)

lemma balanced_spec_Cons:
  "balanced_spec k (c # s) \<longleftrightarrow> 0 \<le> k \<and> balanced_spec (k + depth [c]) s"
  by (auto simp: balanced_spec_def depth_Cons algebra_simps)

lemma balanced_spec_nonneg: "balanced_spec k s \<Longrightarrow> 0 \<le> k"
  by (cases s) (auto simp: balanced_spec_def)

lemma balanced_loop_spec:
  "0 \<le> k \<Longrightarrow> balanced_loop k esc s = balanced_spec k (if esc then unescaped (drop 1 s) else unescaped s)"
proof (induction k esc s rule: balanced_loop.induct)
  case (1 count escaped)
  then show ?case by (auto simp: balanced_spec_def)
next
  case (2 count escaped r s)
  show ?case
  proof (cases "escaped \<or> r = CHR 0x5C")
    case True
    with 2 show ?thesis by (cases s) auto
  next
    case False
    with 2 show ?thesis
      using balanced_spec_nonneg [of "count - 1" "unescaped s"]
      by (auto simp: balanced_spec_Cons depth_Cons)
  qed
qed

text \<open>C35. The one-pass bracket counter computes the definition of balance: after dropping every
  backslash with the byte it escapes, no prefix closes more than it opens and the totals agree.\<close>

theorem balance_check_correct:
  "hasBalancedParentheses flt \<longleftrightarrow> balanced_spec 0 (unescaped flt)"
  by (simp add: hasBalancedParentheses_def balanced_loop_spec)

subsection \<open>What the checks let through\<close>

definition rune_ok :: "string \<Rightarrow> bool" where
  "rune_ok r \<longleftrightarrow> (length r \<le> 1 \<and> list_all (byte_in 0x00 0x7F) r) \<or> list_all (byte_in 0x80 0xFF) r"

lemma byte_in_high: "byte_in l h c \<Longrightarrow> 128 \<le> l \<Longrightarrow> h \<le> 255 \<Longrightarrow> byte_in 128 255 c"
  by (auto simp: byte_in_def)

lemma rune_ok_high: "list_all (byte_in 0x80 0xFF) r \<Longrightarrow> rune_ok r"
  by (simp add: rune_ok_def)

lemma rune_ok_error [simp]: "rune_ok rune_error"
  by (rule rune_ok_high) (simp add: rune_error_def byte_in_def)

lemma rune_ok_if:
  "(P \<Longrightarrow> rune_ok r) \<Longrightarrow> rune_ok (fst q) \<Longrightarrow> rune_ok (fst (if P then (r, t) else q))"
  by simp

lemma next_rune_ok: "rune_ok (fst (next_rune s))"
proof (cases s)
  case (Cons a t)
  show ?thesis
  proof (cases "byte_in 0x00 0x7F a")
    case True
    then show ?thesis using Cons by (simp add: rune_ok_def)
  next
    case False
    note hi = byte_in_high [of "0xC2" "0xDF"] byte_in_high [of "0x80" "0xBF"] byte_in_high [of "0xE0" "0xE0"]
      byte_in_high [of "0xA0" "0xBF"] byte_in_high [of "0xE1" "0xEC"] byte_in_high [of "0xED" "0xED"]
      byte_in_high [of "0x80" "0x9F"] byte_in_high [of "0xEE" "0xEF"] byte_in_high [of "0xF0" "0xF0"]
      byte_in_high [of "0x90" "0xBF"] byte_in_high [of "0xF1" "0xF3"] byte_in_high [of "0xF4" "0xF4"]
      byte_in_high [of "0x80" "0x8F"]
    show ?thesis
    proof (cases t)
      case t: (Cons b t2)
      show ?thesis
      proof (cases t2)
        case t2: (Cons c t3)
        show ?thesis
          unfolding Cons t t2 next_rune.simps list.case using False
          by (cases t3; simp only: list.case if_False fst_conv; intro rune_ok_if)
             (auto intro!: rune_ok_high dest!: hi)
      next
        case Nil
        show ?thesis
          unfolding Cons t Nil next_rune.simps list.case using False
          by (intro rune_ok_if) (auto intro!: rune_ok_high dest!: hi)
      qed
    qed (use False Cons in simp)
  qed
qed (simp add: rune_ok_def)

lemma rune_bytes:
  "c \<in> set (fst (next_rune s)) \<Longrightarrow> (length (fst (next_rune s)) = 1 \<and> of_char c \<le> (127::nat)) \<or> of_char c \<ge> (128::nat)"
  using next_rune_ok [of s] by (auto simp: rune_ok_def list_all_iff byte_in_def le_Suc_eq)

lemma runes_bytes:
  "r \<in> set (runes s) \<Longrightarrow> c \<in> set r \<Longrightarrow> (r = [c] \<and> of_char c \<le> (127::nat)) \<or> of_char c \<ge> (128::nat)"
proof (induction s rule: runes.induct)
  case (1 s)
  show ?case
  proof (cases "r = fst (next_rune s)")
    case True
    then show ?thesis using rune_bytes [of c s] "1.prems" by (auto simp: length_Suc_conv)
  next
    case False
    with "1.prems"(1) have "s \<noteq> []" "r \<in> set (runes (snd (next_rune s)))"
      by (subst (asm) runes.simps, auto split: if_splits)+
    then show ?thesis using "1.IH" "1.prems"(2) by blast
  qed
qed

text \<open> A sanitised value holds no NUL, no other ASCII control character and no DEL, whatever
  bytes went in, valid UTF-8 or not.\<close>

theorem sanitized_has_no_controls:
  "list_all (\<lambda>c. 32 \<le> (of_char c :: nat) \<and> of_char c \<noteq> (127::nat)) (SanitizeLDAPValue v)"
proof -
  have "32 \<le> (of_char c :: nat) \<and> of_char c \<noteq> (127::nat)"
    if r: "r \<in> set (runes s)" "\<not> is_control r" "c \<in> set r" for r c s
    using runes_bytes [OF r(1,3)] r(2) by (auto simp: is_control_def not_less)
  then show ?thesis by (auto simp: SanitizeLDAPValue_def list_all_iff)
qed

text \<open> What a suffix search may be aimed at: a name go-ldap parses, of bounded length, without
  NUL or line breaks, that starts with a naming context attribute and nowhere mentions the
  configuration or schema trees.\<close>

theorem suffix_check_guarantees:
  "ValidateSuffixDN ParseDN dn = None \<Longrightarrow>
     ParseDN dn \<and> length dn \<le> MaxDNLength \<and>
     CHR 0x00 \<notin> set dn \<and> CHR 0x0A \<notin> set dn \<and> CHR 0x0D \<notin> set dn \<and>
     \<not> Contains (ToLower dn) ''cn=config'' \<and> \<not> Contains (ToLower dn) ''cn=schema'' \<and>
     (\<exists>a \<in> {''dc='', ''o='', ''ou='', ''c=''}. HasPrefix (ToLower dn) a)"
  by (auto simp: ValidateSuffixDN_def ValidateLDAPDN_def ContainsAny_def list_ex_iff
      split: option.splits if_splits)

lemma suffix_check_guarantees_witness:
  "ValidateSuffixDN (\<lambda>_. True) ''dc=example,dc=org'' = None \<and>
   (\<exists>a \<in> {''dc='', ''o='', ''ou='', ''c=''}. HasPrefix (ToLower ''dc=example,dc=org'') a)"
proof -
  have "ValidateSuffixDN (\<lambda>_. True) ''dc=example,dc=org'' = None" by code_simp
  with suffix_check_guarantees [OF this] show ?thesis by blast
qed

text \<open>The suffix check refuses legitimate naming contexts: it looks for the letters "olc"
  anywhere in the name, so a domain such as dc=volcano is taken for the configuration tree.\<close>

theorem suffix_check_refuses_volcano:
  "ValidateSuffixDN (\<lambda>_. True) ''dc=volcano,dc=org'' = Some ''access to configuration tree not allowed''"
  by code_simp

lemma ValidateMonitorDN_cong:
  "P dn = Q dn \<Longrightarrow> ValidateMonitorDN P dn = ValidateMonitorDN Q dn"
  by (simp add: ValidateMonitorDN_def ValidateLDAPDN_def)

text \<open>The monitor check is a substring test, not a tree test: a name outside cn=Monitor passes
  as soon as it contains the letters "cn=monitor", such as an entry cn=monitoring of a user tree.\<close>

theorem monitor_check_admits_other_trees:
  "ParseDN ''cn=monitoring,ou=people,dc=example'' \<Longrightarrow>
     ValidateMonitorDN ParseDN ''cn=monitoring,ou=people,dc=example'' = None"
proof -
  assume p: "ParseDN ''cn=monitoring,ou=people,dc=example''"
  have "ValidateMonitorDN (\<lambda>_. True) ''cn=monitoring,ou=people,dc=example'' = None" by code_simp
  with ValidateMonitorDN_cong [of ParseDN _ "\<lambda>_. True"] p
  show "ValidateMonitorDN ParseDN ''cn=monitoring,ou=people,dc=example'' = None" by metis
qed

lemma monitor_check_admits_other_trees_witness:
  "ValidateMonitorDN (\<lambda>_. True) ''cn=monitoring,ou=people,dc=example'' = None"
  by (rule monitor_check_admits_other_trees) simp

end
