(* ===== verification/PooledClient.thy ===== *)
theory PooledClient
  imports PoolProperties Validation CircuitBreaker
begin

section \<open>The pooled LDAP client (pkg/pool/pooled\_client.go)\<close>

text \<open>
  The client reaches its connections through \<open>PoolInterface\<close>, a record of functions on the
  state \<open>'s\<close> of the pool and the world; \<open>None\<close> is a call that blocks for good. The interface's
  contract is the locale \<open>conn_provider\<close>, interpreted on the connection pool at the end. The
  client's own state is its record: the circuit breaker, the base context and the log of calls
  of the circuit breaker monitoring. A context is a number, the background context is 0.
\<close>

record 's PoolInterface =
  pool_Get :: "'s \<Rightarrow> ((pool_error + nat) \<times> 's) option"
  pool_Put :: "nat \<Rightarrow> 's \<Rightarrow> 's"
  pool_Discard :: "nat \<Rightarrow> 's \<Rightarrow> 's"
  pool_Close :: "'s \<Rightarrow> 's"
  conn_Search :: "nat \<Rightarrow> SearchRequest \<Rightarrow> 's \<Rightarrow> (string + Entry list) \<times> 's"
  conn_TLSState :: "nat \<Rightarrow> 's \<Rightarrow> string list option"
  WithTimeout :: "nat \<Rightarrow> duration \<Rightarrow> 's \<Rightarrow> 's" \<comment> \<open>starts the operation's context\<close>
  Clock :: "'s \<Rightarrow> time"

datatype client_error =
    PoolError pool_error
  | LDAPError string
  | InvalidRequest string
  | BreakerOpen

datatype cb_event =
    RecordCircuitBreakerState State
  | RecordCircuitBreakerRequest string
  | RecordCircuitBreakerFailure

record PooledLDAPClient =
  clientConfig :: Config
  circuitBreaker :: CircuitBreaker
  isAdaptive :: bool
  cbMonitoring :: bool
  clientServerName :: string
  component :: string
  baseCtx :: "nat option"
  cbLog :: "(string \<times> string \<times> cb_event) list"

definition DefaultPoolSize :: int where "DefaultPoolSize = 5"
definition DefaultSearchTimeout :: duration where "DefaultSearchTimeout = 30 * second"
definition EventsPoolType :: string where "EventsPoolType = ''events''"
definition EventsPoolSize :: int where "EventsPoolSize = 2"
definition AccesslogTimeLimitMargin :: duration where "AccesslogTimeLimitMargin = 1 * second"

subsection \<open>Construction and context\<close>

definition createCircuitBreakerConfig :: "Config \<Rightarrow> CircuitBreakerConfig" where
  "createCircuitBreakerConfig cfg =
     \<lparr>MaxFailures = CBMaxFailures cfg, Timeout = CBTimeout cfg,
      ResetTimeout = CBResetTimeout cfg, SuccessThreshold = CBSuccessThreshold cfg\<rparr>"

text \<open>\<open>mon\<close>: a monitoring object is given; \<open>cbmon\<close>: it also implements the breaker's interface.\<close>

definition newMonitoredClient ::
  "Config \<Rightarrow> bool \<Rightarrow> bool \<Rightarrow> string \<Rightarrow> string \<Rightarrow> int \<Rightarrow> (PooledLDAPClient \<times> ConnectionPool) option" where
  "newMonitoredClient cfg mon cbmon serverName compon poolSz =
     (case NewConnectionPoolWithType cfg poolSz mon serverName compon of
        None \<Rightarrow> None
      | Some p \<Rightarrow>
          (let cb = NewCircuitBreaker (createCircuitBreakerConfig cfg);
               hasCb = (mon \<and> cbmon);
               log = (if hasCb then [(serverName, compon, RecordCircuitBreakerState (GetState cb))] else [])
           in Some (\<lparr>clientConfig = cfg,
                     circuitBreaker = (if hasCb then SetStateChangeCallback cb else cb),
                     isAdaptive = False, cbMonitoring = hasCb, clientServerName = serverName,
                     component = compon, baseCtx = None, cbLog = log\<rparr>, p)))"

definition NewPooledLDAPClientWithMonitoring ::
  "Config \<Rightarrow> bool \<Rightarrow> bool \<Rightarrow> string \<Rightarrow> (PooledLDAPClient \<times> ConnectionPool) option" where
  "NewPooledLDAPClientWithMonitoring cfg mon cbmon serverName =
     newMonitoredClient cfg mon cbmon serverName DefaultPoolType DefaultPoolSize"

definition NewEventsLDAPClient ::
  "Config \<Rightarrow> bool \<Rightarrow> bool \<Rightarrow> string \<Rightarrow> (PooledLDAPClient \<times> ConnectionPool) option" where
  "NewEventsLDAPClient cfg mon cbmon serverName =
     newMonitoredClient cfg mon cbmon serverName EventsPoolType EventsPoolSize"

definition NewPooledLDAPClient :: "Config \<Rightarrow> (PooledLDAPClient \<times> ConnectionPool) option" where
  "NewPooledLDAPClient cfg =
     (case NewConnectionPool cfg DefaultPoolSize of
        None \<Rightarrow> None
      | Some p \<Rightarrow>
          Some (\<lparr>clientConfig = cfg,
                 circuitBreaker = SetStateChangeCallback (NewCircuitBreaker (createCircuitBreakerConfig cfg)),
                 isAdaptive = False, cbMonitoring = False, clientServerName = '''',
                 component = DefaultPoolType, baseCtx = None, cbLog = []\<rparr>, p))"

definition SetBaseContext :: "nat option \<Rightarrow> PooledLDAPClient \<Rightarrow> PooledLDAPClient" where
  "SetBaseContext ctx c = (let ctx = (if ctx = None then Some 0 else ctx) in c\<lparr>baseCtx := ctx\<rparr>)"

definition currentBaseContext :: "PooledLDAPClient \<Rightarrow> nat" where
  "currentBaseContext c = (case baseCtx c of None \<Rightarrow> 0 | Some ctx \<Rightarrow> ctx)"

text \<open>Division of Go integers truncates towards zero.\<close>

definition go_div :: "int \<Rightarrow> int \<Rightarrow> int" where
  "go_div a b = sgn a * sgn b * (\<bar>a\<bar> div \<bar>b\<bar>)"

definition accesslogTimeLimitSeconds :: "PooledLDAPClient \<Rightarrow> int" where
  "accesslogTimeLimitSeconds c =
     (let secs = go_div (LDAPTimeout (clientConfig c) - AccesslogTimeLimitMargin) second
      in if secs < 1 then 1 else secs)"

subsection \<open>Searching with one retry\<close>

definition isNetworkError :: "string \<Rightarrow> bool" where
  "isNetworkError err =
     list_ex (Contains (ToLower err))
       [''connection reset'', ''connection closed'', ''broken pipe'', ''network'', ''timeout'',
        ''connection refused'', ''eof'']"

fun search_attempts ::
  "'s PoolInterface \<Rightarrow> SearchRequest \<Rightarrow> string \<Rightarrow> nat \<Rightarrow> 's \<Rightarrow> ((client_error + Entry list) \<times> 's) option" where
  "search_attempts I req lastErr 0 s = Some (Inl (LDAPError lastErr), s)"
| "search_attempts I req lastErr (Suc n) s =
     (case pool_Get I s of
        None \<Rightarrow> None
      | Some (Inl err, s1) \<Rightarrow> Some (Inl (PoolError err), s1)
      | Some (Inr cn, s1) \<Rightarrow>
          (case conn_Search I cn req s1 of
             (Inr res, s2) \<Rightarrow> Some (Inr res, pool_Put I cn s2)
           | (Inl err, s2) \<Rightarrow>
               (if isNetworkError err
                then search_attempts I req err n (pool_Discard I cn s2)
                else Some (Inl (LDAPError err), pool_Put I cn s2))))"

definition runSearch ::
  "'s PoolInterface \<Rightarrow> SearchRequest \<Rightarrow> 's \<Rightarrow> ((client_error + Entry list) \<times> 's) option" where
  "runSearch I req s = search_attempts I req '''' 2 s"

subsection \<open>Operations under the circuit breaker\<close>

text \<open>
  \<open>circuitBreaker.Call\<close> of a closure that stores its result in a captured variable: the state
  the closure transforms is the world together with that variable, and nothing at all once it
  blocks for good.
\<close>

definition closure ::
  "('s \<Rightarrow> ((client_error + 'r) \<times> 's) option) \<Rightarrow> ('s \<times> 'r option) option
     \<Rightarrow> client_error option \<times> ('s \<times> 'r option) option" where
  "closure body w =
     (case w of
        None \<Rightarrow> (None, None)
      | Some (s, v) \<Rightarrow>
          (case body s of
             None \<Rightarrow> (None, None)
           | Some (Inl e, s1) \<Rightarrow> (Some e, Some (s1, v))
           | Some (Inr r, s1) \<Rightarrow> (None, Some (s1, Some r))))"

definition protected_call ::
  "'s PoolInterface \<Rightarrow> ('s \<Rightarrow> ((client_error + 'r) \<times> 's) option) \<Rightarrow> CircuitBreaker \<Rightarrow> 's
     \<Rightarrow> (client_error cb_error option \<times> 'r option \<times> CircuitBreaker \<times> 's) option" where
  "protected_call I body cb s =
     (case Call (\<lambda>w. case w of None \<Rightarrow> 0 | Some (s, v) \<Rightarrow> Clock I s) (Some (closure body)) cb (Some (s, None)) of
        (err, cb1, None) \<Rightarrow> None
      | (err, cb1, Some (s1, v)) \<Rightarrow> Some (err, v, cb1, s1))"

definition record_cb :: "cb_event list \<Rightarrow> PooledLDAPClient \<Rightarrow> PooledLDAPClient" where
  "record_cb evs c = c\<lparr>cbLog := cbLog c @ map (\<lambda>ev. (clientServerName c, component c, ev)) evs\<rparr>"

definition recordCallMonitoring :: "client_error cb_error option \<Rightarrow> PooledLDAPClient \<Rightarrow> PooledLDAPClient" where
  "recordCallMonitoring err c =
     (if cbMonitoring c \<and> clientServerName c \<noteq> ''''
      then (case err of
              None \<Rightarrow> record_cb [RecordCircuitBreakerRequest ''allowed''] c
            | Some ErrCircuitBreakerOpen \<Rightarrow> record_cb [RecordCircuitBreakerRequest ''blocked''] c
            | Some _ \<Rightarrow> record_cb [RecordCircuitBreakerRequest ''allowed'', RecordCircuitBreakerFailure] c)
      else c)"

fun call_error :: "client_error cb_error \<Rightarrow> client_error" where
  "call_error ErrCircuitBreakerOpen = BreakerOpen"
| "call_error ErrFunctionCannotBeNil = InvalidRequest ''function cannot be nil''"
| "call_error (FunctionError e) = e"

text \<open>The common tail of the search methods: the call, its monitoring, and the result.\<close>

definition guarded_search ::
  "'s PoolInterface \<Rightarrow> SearchRequest \<Rightarrow> PooledLDAPClient \<Rightarrow> 's
     \<Rightarrow> ((client_error + Entry list) \<times> PooledLDAPClient \<times> 's) option" where
  "guarded_search I req c s =
     (case protected_call I
             (\<lambda>s. runSearch I req (WithTimeout I (currentBaseContext c) DefaultSearchTimeout s))
             (circuitBreaker c) s of
        None \<Rightarrow> None
      | Some (err, result, cb1, s1) \<Rightarrow>
          (let c1 = recordCallMonitoring err (c\<lparr>circuitBreaker := cb1\<rparr>)
           in Some (case err of
                      Some e \<Rightarrow> Inl (call_error e)
                    | None \<Rightarrow> Inr (case result of Some r \<Rightarrow> r | None \<Rightarrow> []), c1, s1)))"

fun first_error :: "('a \<Rightarrow> string option) \<Rightarrow> 'a list \<Rightarrow> string option" where
  "first_error f [] = None"
| "first_error f (x # xs) = (case f x of Some e \<Rightarrow> Some e | None \<Rightarrow> first_error f xs)"

definition request :: "string \<Rightarrow> Scope \<Rightarrow> int \<Rightarrow> string \<Rightarrow> string list \<Rightarrow> SearchRequest" where
  "request base sc timeLimit flt attrs =
     \<lparr>BaseDN = base, scope = sc, SizeLimit = 0, TimeLimit = timeLimit, TypesOnly = False,
      Filter = flt, Attributes = attrs\<rparr>"

definition Search ::
  "(string \<Rightarrow> bool) \<Rightarrow> 's PoolInterface \<Rightarrow> string \<Rightarrow> string \<Rightarrow> string list \<Rightarrow> PooledLDAPClient \<Rightarrow> 's
     \<Rightarrow> ((client_error + Entry list) \<times> PooledLDAPClient \<times> 's) option" where
  "Search ParseDN I baseDN flt attributes c s =
     (if baseDN = '''' \<or> flt = ''''
      then Some (Inl (InvalidRequest ''invalid search parameters: baseDN and filter cannot be empty''), c, s)
      else case ValidateMonitorDN ParseDN baseDN of
        Some e \<Rightarrow> Some (Inl (InvalidRequest e), c, s)
      | None \<Rightarrow> (case ValidateLDAPFilter flt of
          Some e \<Rightarrow> Some (Inl (InvalidRequest e), c, s)
        | None \<Rightarrow> (case first_error ValidateLDAPAttribute attributes of
            Some e \<Rightarrow> Some (Inl (InvalidRequest e), c, s)
          | None \<Rightarrow> guarded_search I (request baseDN ScopeWholeSubtree 0 flt attributes) c s)))"

definition SearchContextCSN ::
  "(string \<Rightarrow> bool) \<Rightarrow> 's PoolInterface \<Rightarrow> string \<Rightarrow> PooledLDAPClient \<Rightarrow> 's
     \<Rightarrow> ((client_error + Entry list) \<times> PooledLDAPClient \<times> 's) option" where
  "SearchContextCSN ParseDN I suffixDN c s =
     (if suffixDN = ''''
      then Some (Inl (InvalidRequest ''invalid search parameters: suffixDN cannot be empty''), c, s)
      else case ValidateSuffixDN ParseDN suffixDN of
        Some e \<Rightarrow> Some (Inl (InvalidRequest e), c, s)
      | None \<Rightarrow>
          guarded_search I (request suffixDN ScopeBaseObject 0 ''(objectClass=*)'' [''contextCSN'']) c s)"

definition SearchSuffix ::
  "(string \<Rightarrow> bool) \<Rightarrow> 's PoolInterface \<Rightarrow> string \<Rightarrow> string \<Rightarrow> string list \<Rightarrow> PooledLDAPClient \<Rightarrow> 's
     \<Rightarrow> ((client_error + Entry list) \<times> PooledLDAPClient \<times> 's) option" where
  "SearchSuffix ParseDN I suffixDN flt attributes c s =
     (if suffixDN = '''' \<or> flt = ''''
      then Some (Inl (InvalidRequest ''invalid search parameters: suffixDN and filter cannot be empty''), c, s)
      else case ValidateSuffixDN ParseDN suffixDN of
        Some e \<Rightarrow> Some (Inl (InvalidRequest e), c, s)
      | None \<Rightarrow> (case ValidateLDAPFilter flt of
          Some e \<Rightarrow> Some (Inl (InvalidRequest e), c, s)
        | None \<Rightarrow> (case first_error ValidateLDAPAttribute attributes of
            Some e \<Rightarrow> Some (Inl (InvalidRequest e), c, s)
          | None \<Rightarrow> guarded_search I (request suffixDN ScopeWholeSubtree 0 flt attributes) c s)))"

definition SearchAccessLog ::
  "'s PoolInterface \<Rightarrow> string \<Rightarrow> string list \<Rightarrow> PooledLDAPClient \<Rightarrow> 's
     \<Rightarrow> ((client_error + Entry list) \<times> PooledLDAPClient \<times> 's) option" where
  "SearchAccessLog I flt attributes c s =
     (if flt = ''''
      then Some (Inl (InvalidRequest ''invalid search parameters: filter cannot be empty''), c, s)
      else case ValidateLDAPFilter flt of
          Some e \<Rightarrow> Some (Inl (InvalidRequest e), c, s)
        | None \<Rightarrow> (case first_error ValidateLDAPAttribute attributes of
            Some e \<Rightarrow> Some (Inl (InvalidRequest e), c, s)
          | None \<Rightarrow>
              guarded_search I
                (request ''cn=accesslog'' ScopeWholeSubtree (accesslogTimeLimitSeconds c) flt attributes) c s))"

definition SearchConfig ::
  "'s PoolInterface \<Rightarrow> string \<Rightarrow> string list \<Rightarrow> PooledLDAPClient \<Rightarrow> 's
     \<Rightarrow> ((client_error + Entry list) \<times> PooledLDAPClient \<times> 's) option" where
  "SearchConfig I flt attributes c s =
     (if flt = ''''
      then Some (Inl (InvalidRequest ''invalid search parameters: filter cannot be empty''), c, s)
      else case ValidateLDAPFilter flt of
          Some e \<Rightarrow> Some (Inl (InvalidRequest e), c, s)
        | None \<Rightarrow> (case first_error ValidateLDAPAttribute attributes of
            Some e \<Rightarrow> Some (Inl (InvalidRequest e), c, s)
          | None \<Rightarrow> guarded_search I (request ''cn=config'' ScopeWholeSubtree 0 flt attributes) c s))"

definition SearchRootDSE ::
  "'s PoolInterface \<Rightarrow> string list \<Rightarrow> PooledLDAPClient \<Rightarrow> 's
     \<Rightarrow> ((client_error + Entry list) \<times> PooledLDAPClient \<times> 's) option" where
  "SearchRootDSE I attributes c s =
     (case first_error ValidateLDAPAttribute attributes of
        Some e \<Rightarrow> Some (Inl (InvalidRequest e), c, s)
      | None \<Rightarrow> guarded_search I (request '''' ScopeBaseObject 0 ''(objectClass=*)'' attributes) c s)"

definition borrow_certificates ::
  "'s PoolInterface \<Rightarrow> 's \<Rightarrow> ((client_error + string list) \<times> 's) option" where
  "borrow_certificates I s =
     (case pool_Get I s of
        None \<Rightarrow> None
      | Some (Inl err, s1) \<Rightarrow> Some (Inl (PoolError err), s1)
      | Some (Inr cn, s1) \<Rightarrow>
          (case conn_TLSState I cn s1 of
             None \<Rightarrow> Some (Inr [], pool_Put I cn s1)
           | Some certs \<Rightarrow> Some (Inr certs, pool_Put I cn s1)))"

definition PeerCertificates ::
  "'s PoolInterface \<Rightarrow> PooledLDAPClient \<Rightarrow> 's \<Rightarrow> ((client_error + string list) \<times> PooledLDAPClient \<times> 's) option" where
  "PeerCertificates I c s =
     (if \<not> TLS (clientConfig c) then Some (Inr [], c, s)
      else case protected_call I
             (\<lambda>s. borrow_certificates I (WithTimeout I (currentBaseContext c) DefaultSearchTimeout s))
             (circuitBreaker c) s of
        None \<Rightarrow> None
      | Some (err, certs, cb1, s1) \<Rightarrow>
          Some (case err of
                  Some e \<Rightarrow> Inl (call_error e)
                | None \<Rightarrow> Inr (case certs of Some r \<Rightarrow> r | None \<Rightarrow> []), c\<lparr>circuitBreaker := cb1\<rparr>, s1))"

definition Client_Close :: "'s PoolInterface \<Rightarrow> 's \<Rightarrow> 's" where
  "Client_Close I s = pool_Close I s"

definition Client_IsHealthy :: "PooledLDAPClient \<Rightarrow> bool" where
  "Client_IsHealthy c = IsHealthy (circuitBreaker c)"

definition Client_Stats :: "PooledLDAPClient \<Rightarrow> ConnectionPool \<Rightarrow> PoolStats \<times> CircuitBreakerStats \<times> bool" where
  "Client_Stats c p = (Stats p, GetStats (circuitBreaker c), isAdaptive c)"

subsection \<open>The contract of a pool\<close>

text \<open>
  What the client needs of its pool: \<open>inv own s\<close> says that the client holds exactly the
  connections \<open>own\<close>. \<open>Get\<close> hands out a connection it does not hold yet, \<open>Put\<close> and \<open>Discard\<close> take
  one back, searching and starting a context change nothing of this.
\<close>

lemma protected_call_eq:
  "protected_call I body cb s =
     (case checkCanExecute (Clock I s) cb of
        (False, cb1) \<Rightarrow> Some (Some ErrCircuitBreakerOpen, None, cb1, s)
      | (True, cb1) \<Rightarrow>
          (case body s of
             None \<Rightarrow> None
           | Some (Inl e, s1) \<Rightarrow>
               Some (Some (FunctionError e), None, recordResult (Clock I s1) (Some e) cb1, s1)
           | Some (Inr r, s1) \<Rightarrow>
               Some (None, Some r, recordResult (Clock I s1) (None :: client_error option) cb1, s1)))"
proof (cases "checkCanExecute (Clock I s) cb")
  case (Pair ok cb1)
  show ?thesis
  proof (cases ok)
    case False
    then show ?thesis by (simp add: protected_call_def Call_def Pair)
  next
    case True
    show ?thesis
    proof (cases "body s")
      case None
      then show ?thesis using True by (simp add: protected_call_def Call_def Pair closure_def)
    next
      case (Some q)
      obtain r s1 where q: "q = (r, s1)" by fastforce
      have b: "body s = Some (r, s1)" using Some q by simp
      show ?thesis
      proof (cases r)
        case (Inl e)
        have "closure body (Some (s, None)) = (Some e, Some (s1, None))" by (simp add: closure_def b Inl)
        then show ?thesis using True by (simp add: protected_call_def Call_def Pair b Inl)
      next
        case (Inr x)
        have "closure body (Some (s, None)) = (None, Some (s1, Some x))" by (simp add: closure_def b Inr)
        then show ?thesis using True by (simp add: protected_call_def Call_def Pair b Inr)
      qed
    qed
  qed
qed

locale conn_provider =
  fixes inv :: "nat set \<Rightarrow> 's \<Rightarrow> bool"
    and I :: "'s PoolInterface"
  assumes get_conn: "inv own s \<Longrightarrow> pool_Get I s = Some (Inr c, s') \<Longrightarrow> c \<notin> own \<and> inv (insert c own) s'"
    and get_error: "inv own s \<Longrightarrow> pool_Get I s = Some (Inl e, s') \<Longrightarrow> inv own s'"
    and put_back: "inv own s \<Longrightarrow> c \<in> own \<Longrightarrow> inv (own - {c}) (pool_Put I c s)"
    and discard: "inv own s \<Longrightarrow> c \<in> own \<Longrightarrow> inv (own - {c}) (pool_Discard I c s)"
    and search_keeps: "inv own s \<Longrightarrow> inv own (snd (conn_Search I c req s))"
    and context_keeps: "inv own s \<Longrightarrow> inv own (WithTimeout I ctx d s)"
begin

lemma give_back:
  assumes "inv (insert c own) s" "c \<notin> own"
  shows "inv own (pool_Put I c s)" and "inv own (pool_Discard I c s)"
proof -
  have e: "insert c own - {c} = own" using assms(2) by simp
  show "inv own (pool_Put I c s)" using put_back [OF assms(1) insertI1] by (simp add: e)
  show "inv own (pool_Discard I c s)" using discard [OF assms(1) insertI1] by (simp add: e)
qed

lemma search_attempts_balanced:
  "inv own s \<Longrightarrow> search_attempts I req err n s = Some (r, s') \<Longrightarrow> inv own s'"
proof (induction n arbitrary: err s)
  case (Suc n)
  from Suc.prems(2) obtain g s1 where G: "pool_Get I s = Some (g, s1)"
    by (auto split: option.splits)
  show ?case
  proof (cases g)
    case (Inl e)
    with G Suc.prems get_error [OF Suc.prems(1)] show ?thesis by auto
  next
    case (Inr c)
    obtain q s2 where S: "conn_Search I c req s1 = (q, s2)" by fastforce
    have c: "c \<notin> own" "inv (insert c own) s1" using get_conn [OF Suc.prems(1)] G Inr by auto
    have s2: "inv (insert c own) s2" using search_keeps [OF c(2), of c req] S by simp
    show ?thesis using Suc.prems(2) G Inr S give_back [OF s2 c(1)]
      Suc.IH [of "pool_Discard I c s2"] by (auto split: sum.splits if_splits)
  qed
qed simp

lemma runSearch_balanced:
  "inv own s \<Longrightarrow> runSearch I req s = Some (r, s') \<Longrightarrow> inv own s'"
  unfolding runSearch_def by (rule search_attempts_balanced)

lemma borrow_certificates_balanced:
  "inv own s \<Longrightarrow> borrow_certificates I s = Some (r, s') \<Longrightarrow> inv own s'"
proof -
  assume s: "inv own s" and b: "borrow_certificates I s = Some (r, s')"
  from b obtain g s1 where G: "pool_Get I s = Some (g, s1)"
    by (auto simp: borrow_certificates_def split: option.splits)
  show "inv own s'"
  proof (cases g)
    case (Inl e)
    with b G get_error [OF s] show ?thesis by (auto simp: borrow_certificates_def)
  next
    case (Inr c)
    note c = get_conn [OF s G [unfolded Inr]]
    have "s' = pool_Put I c s1" using b G Inr by (auto simp: borrow_certificates_def split: option.splits)
    then show ?thesis using give_back(1) c by simp
  qed
qed

lemma protected_call_balanced:
  assumes "\<And>s r s'. inv own s \<Longrightarrow> body s = Some (r, s') \<Longrightarrow> inv own s'"
    and "inv own s" "protected_call I body cb s = Some (err, v, cb', s')"
  shows "inv own s'"
proof -
  obtain ok cb1 where ok: "checkCanExecute (Clock I s) cb = (ok, cb1)" by fastforce
  show ?thesis
  proof (cases "ok \<and> body s \<noteq> None")
    case False
    then show ?thesis using assms(2,3) ok
      by (cases ok; cases "body s") (simp_all add: protected_call_eq)
  next
    case True
    then obtain r s1 where b: "body s = Some (r, s1)" by auto
    have "s' = s1" using assms(3) ok True b by (cases r) (simp_all add: protected_call_eq)
    then show ?thesis using assms(1) [OF assms(2) b] by simp
  qed
qed

lemma guarded_search_balanced:
  "inv own s \<Longrightarrow> guarded_search I req c s = Some (r, c', s') \<Longrightarrow> inv own s'"
proof -
  assume s: "inv own s" and g: "guarded_search I req c s = Some (r, c', s')"
  from g obtain err v cb1 where p: "protected_call I
      (\<lambda>s. runSearch I req (WithTimeout I (currentBaseContext c) DefaultSearchTimeout s))
      (circuitBreaker c) s = Some (err, v, cb1, s')"
    by (auto simp: guarded_search_def Let_def split: option.splits)
  show "inv own s'"
    by (rule protected_call_balanced [OF _ s p]) (auto intro: runSearch_balanced context_keeps)
qed

lemma PeerCertificates_balanced:
  "inv own s \<Longrightarrow> PeerCertificates I c s = Some (r, c', s') \<Longrightarrow> inv own s'"
proof -
  assume s: "inv own s" and g: "PeerCertificates I c s = Some (r, c', s')"
  show "inv own s'"
  proof (cases "TLS (clientConfig c)")
    case True
    with g obtain err v cb1 where p: "protected_call I
        (\<lambda>s. borrow_certificates I (WithTimeout I (currentBaseContext c) DefaultSearchTimeout s))
        (circuitBreaker c) s = Some (err, v, cb1, s')"
      by (auto simp: PeerCertificates_def split: option.splits)
    show ?thesis
      by (rule protected_call_balanced [OF _ s p]) (auto intro: borrow_certificates_balanced context_keeps)
  qed (use s g in \<open>auto simp: PeerCertificates_def\<close>)
qed

end

subsection \<open>The connection pool keeps the contract\<close>

definition pool_interface ::
  "'w Env \<Rightarrow> (nat \<Rightarrow> duration \<Rightarrow> 'w \<Rightarrow> 'w) \<Rightarrow> (ConnectionPool \<times> 'w) PoolInterface" where
  "pool_interface L start =
     \<lparr>pool_Get = (\<lambda>(p, w). Get (\<lambda>p w. (p, w)) L p w),
      pool_Put = (\<lambda>c (p, w). Put L (Some c) p w),
      pool_Discard = (\<lambda>c (p, w). Discard L (Some c) p w),
      pool_Close = (\<lambda>(p, w). Close L p w),
      conn_Search = (\<lambda>c req (p, w).
        (case conn (heap p c) of
           None \<Rightarrow> (Inl ''invalid memory address or nil pointer dereference'', (p, w))
         | Some h \<Rightarrow> (let (r, w1) = ConnSearch L h req w in (r, (p, w1))))),
      conn_TLSState = (\<lambda>c (p, w).
        (case conn (heap p c) of None \<Rightarrow> None | Some h \<Rightarrow> TLSConnectionState L h w)),
      WithTimeout = (\<lambda>ctx d (p, w). (p, start ctx d w)),
      Clock = (\<lambda>(p, w). fst (Now L w))\<rparr>"

definition holds_conns :: "nat set \<Rightarrow> ConnectionPool \<times> 'w \<Rightarrow> bool" where
  "holds_conns own s = acct own (fst s)"

lemma acct_Get_alone:
  assumes "acct own p" "Get (\<lambda>p w. (p, w)) L p w = Some (r, p', w')"
  shows "case r of Inr c \<Rightarrow> c \<notin> own \<and> acct (insert c own) p' | Inl _ \<Rightarrow> acct own p'"
proof -
  have "others_keep (\<lambda>A. A = own) own (\<lambda>p w. (p, w))" by (auto simp: others_keep_def)
  from acct_Get [OF assms(1) subset_refl refl this assms(2)] show ?thesis by (auto simp: got_def)
qed

interpretation lp: conn_provider holds_conns "pool_interface L start" for L start
proof
  fix own s c s' e req ctx d
  assume i: "holds_conns own (s :: ConnectionPool \<times> 'a)"
  show "pool_Get (pool_interface L start) s = Some (Inr c, s') \<Longrightarrow> c \<notin> own \<and> holds_conns (insert c own) s'"
    using i acct_Get_alone [of own "fst s" L "snd s" "Inr c" "fst s'" "snd s'"]
    by (auto simp: holds_conns_def pool_interface_def split_beta)
  show "pool_Get (pool_interface L start) s = Some (Inl e, s') \<Longrightarrow> holds_conns own s'"
    using i acct_Get_alone [of own "fst s" L "snd s" "Inl e" "fst s'" "snd s'"]
    by (auto simp: holds_conns_def pool_interface_def split_beta)
  show "c \<in> own \<Longrightarrow> holds_conns (own - {c}) (pool_Put (pool_interface L start) c s)"
    using i acct_Put [of own "fst s" c L "snd s"] by (auto simp: holds_conns_def pool_interface_def split_beta)
  show "c \<in> own \<Longrightarrow> holds_conns (own - {c}) (pool_Discard (pool_interface L start) c s)"
    using i acct_Discard [of own "fst s" c L "snd s"] by (auto simp: holds_conns_def pool_interface_def split_beta)
  show "holds_conns own (snd (conn_Search (pool_interface L start) c req s))"
    using i by (auto simp: holds_conns_def pool_interface_def split_beta split: option.splits)
  show "holds_conns own (WithTimeout (pool_interface L start) ctx d s)"
    using i by (auto simp: holds_conns_def pool_interface_def split_beta)
qed

subsection \<open>Properties of the client\<close>

text \<open>The requests a client serves, and their common results.\<close>

datatype client_op =
    DoSearch string string "string list"
  | DoContextCSN string
  | DoSuffix string string "string list"
  | DoAccessLog string "string list"
  | DoConfig string "string list"
  | DoRootDSE "string list"
  | DoCertificates

fun client_do ::
  "(string \<Rightarrow> bool) \<Rightarrow> 's PoolInterface \<Rightarrow> client_op \<Rightarrow> PooledLDAPClient \<Rightarrow> 's
     \<Rightarrow> ((client_error + (Entry list + string list)) \<times> PooledLDAPClient \<times> 's) option" where
  "client_do P I op c s =
     (let search = map_option (\<lambda>(r, c1, s1). (map_sum id Inl r, c1, s1))
      in case op of
        DoSearch b f as \<Rightarrow> search (Search P I b f as c s)
      | DoContextCSN d \<Rightarrow> search (SearchContextCSN P I d c s)
      | DoSuffix d f as \<Rightarrow> search (SearchSuffix P I d f as c s)
      | DoAccessLog f as \<Rightarrow> search (SearchAccessLog I f as c s)
      | DoConfig f as \<Rightarrow> search (SearchConfig I f as c s)
      | DoRootDSE as \<Rightarrow> search (SearchRootDSE I as c s)
      | DoCertificates \<Rightarrow> map_option (\<lambda>(r, c1, s1). (map_sum id Inr r, c1, s1)) (PeerCertificates I c s))"

definition search_result ::
  "((client_error + Entry list) \<times> PooledLDAPClient \<times> 's) option
     \<Rightarrow> ((client_error + (Entry list + string list)) \<times> PooledLDAPClient \<times> 's) option" where
  "search_result = map_option (\<lambda>(r, c1, s1). (map_sum id Inl r, c1, s1))"

text \<open>Every request is refused before it starts, or is one guarded search or certificate read.\<close>

lemma client_do_cases:
  "(\<exists>e. client_do P I op c s = Some (Inl e, c, s)) \<or>
   (\<exists>req. client_do P I op c s = search_result (guarded_search I req c s)) \<or>
   client_do P I op c s = map_option (\<lambda>(r, c1, s1). (map_sum id Inr r, c1, s1)) (PeerCertificates I c s)"
proof (cases op)
  case (DoSearch b f as)
  then show ?thesis
    by (simp add: Search_def search_result_def split: option.splits) blast
next
  case (DoContextCSN d)
  then show ?thesis
    by (simp add: SearchContextCSN_def search_result_def split: option.splits) blast
next
  case (DoSuffix d f as)
  then show ?thesis
    by (simp add: SearchSuffix_def search_result_def split: option.splits) blast
next
  case (DoAccessLog f as)
  then show ?thesis
    by (simp add: SearchAccessLog_def search_result_def split: option.splits) blast
next
  case (DoConfig f as)
  then show ?thesis
    by (simp add: SearchConfig_def search_result_def split: option.splits) blast
next
  case (DoRootDSE as)
  then show ?thesis
    by (simp add: SearchRootDSE_def search_result_def split: option.splits) blast
qed simp

text \<open>C5. No request of the client leaks or double-returns a connection: whatever it asks, whatever
  the server answers - results, LDAP errors, dropped connections, failed dials - and whether the
  breaker lets it through or not, once the request has returned the client holds exactly the
  connections it held before, and the pool's counters are right.\<close>

theorem requests_leak_no_connection:
  "acct own p \<Longrightarrow> client_do P (pool_interface L start) op c (p, w) = Some (r, c', (p', w')) \<Longrightarrow> acct own p'"
proof -
  assume a: "acct own p" and d: "client_do P (pool_interface L start) op c (p, w) = Some (r, c', (p', w'))"
  have h: "holds_conns own (p, w)" using a by (simp add: holds_conns_def)
  consider "\<exists>e. client_do P (pool_interface L start) op c (p, w) = Some (Inl e, c, (p, w))"
    | req where "client_do P (pool_interface L start) op c (p, w) =
        search_result (guarded_search (pool_interface L start) req c (p, w))"
    | "client_do P (pool_interface L start) op c (p, w) =
        map_option (\<lambda>(r, c1, s1). (map_sum id Inr r, c1, s1)) (PeerCertificates (pool_interface L start) c (p, w))"
    using client_do_cases [of P "pool_interface L start" op c "(p, w)"] by blast
  then have "holds_conns own (p', w')"
  proof cases
    case 1
    then show ?thesis using h d by auto
  next
    case 2
    then show ?thesis using d lp.guarded_search_balanced [OF h] by (auto simp: search_result_def)
  next
    case 3
    then show ?thesis using d lp.PeerCertificates_balanced [OF h] by auto
  qed
  then show "acct own p'" by (simp add: holds_conns_def)
qed

definition demo_client :: PooledLDAPClient where
  "demo_client =
     \<lparr>clientConfig = plain_config, circuitBreaker = NewCircuitBreaker DefaultCircuitBreakerConfig,
      isAdaptive = False, cbMonitoring = False, clientServerName = '''', component = ''ldap'',
      baseCtx = None, cbLog = []\<rparr>"

definition dropping_env :: "time Env" where
  "dropping_env = clock_env\<lparr>ConnSearch := (\<lambda>h r w. (Inl ''connection closed'', w))\<rparr>"

lemma fresh_pool_exists:
  "\<exists>p0. NewConnectionPoolWithType plain_config 2 False ''srv'' '''' = Some p0 \<and> acct {} p0 \<and>
     \<not> poolMonitoring p0 \<and> chan p0 = [] \<and> \<not> closed p0 \<and> activeConns p0 = 0 \<and> maxConnections p0 = 2 \<and>
     poolConfig p0 = plain_config \<and> allocated p0 = 0"
  by (simp add: NewConnectionPoolWithType_def acct_def)

lemma fresh_get:
  assumes "\<not> poolMonitoring p" "chan p = []" "\<not> closed p" "activeConns p = 0" "maxConnections p = 2"
    "poolConfig p = plain_config" "allocated p = 0"
  shows "\<exists>q. Get (\<lambda>p w. (p, w)) dropping_env p w = Some (Inr 0, q, w) \<and> \<not> poolMonitoring q"
  using assms by (simp add: pool_eval dropping_env_def)

lemma requests_leak_no_connection_witness:
  "\<exists>p r c' p' w'. client_do (\<lambda>_. True) (pool_interface dropping_env (\<lambda>_ _ w. w)) (DoRootDSE []) demo_client (p, 0)
     = Some (r, c', (p', w')) \<and> acct {} p'"
proof -
  let ?I = "pool_interface dropping_env (\<lambda>_ _ w. w)"
  obtain p where p: "acct {} p" "\<not> poolMonitoring p" "chan p = []" "\<not> closed p" "activeConns p = 0"
    "maxConnections p = 2" "poolConfig p = plain_config" "allocated p = 0"
    using fresh_pool_exists by blast
  have ok: "\<exists>cb1. checkCanExecute (Clock ?I (p, 0)) (circuitBreaker demo_client) = (True, cb1)"
    by (simp add: checkCanExecute_def canExecuteUnsafe.simps demo_client_def NewCircuitBreaker_def Let_def)
  have n: "isNetworkError ''connection closed''" by code_simp
  have "\<exists>r q. runSearch ?I req (p, 0) = Some (r, q)" for req
    using p by (simp add: runSearch_def numeral_2_eq_2 pool_interface_def pool_eval dropping_env_def n)
  then have run: "\<exists>r q. runSearch ?I req (WithTimeout ?I ctx d (p, 0)) = Some (r, q)" for req ctx d
    by (simp add: pool_interface_def)
  have "guarded_search ?I req demo_client (p, 0) \<noteq> None" for req
    using ok run [of req "currentBaseContext demo_client" DefaultSearchTimeout]
    by (auto simp: guarded_search_def protected_call_eq Let_def split: sum.splits)
  then obtain r c' s' where
    "client_do (\<lambda>_. True) ?I (DoRootDSE []) demo_client (p, 0) = Some (r, c', s')"
    by (fastforce simp: SearchRootDSE_def)
  then have "client_do (\<lambda>_. True) ?I (DoRootDSE []) demo_client (p, 0) = Some (r, c', (fst s', snd s'))"
    by simp
  from requests_leak_no_connection [OF p(1) this] this show ?thesis by blast
qed

text \<open>C29. While the breaker is open and its window has not passed, no request reaches the pool or
  the server: every search and certificate read returns at once, with the pool and the world
  untouched, and the breaker stays open.\<close>

theorem open_breaker_stops_traffic:
  "cbState (circuitBreaker c) = StateOpen \<Longrightarrow>
   time_Sub (Clock I s) (lastFailureTime (circuitBreaker c)) < Timeout (cbConfig (circuitBreaker c)) \<Longrightarrow>
   client_do P I op c s = Some (r, c', s') \<Longrightarrow>
   s' = s \<and> cbState (circuitBreaker c') = StateOpen"
proof -
  assume o: "cbState (circuitBreaker c) = StateOpen"
    and t: "time_Sub (Clock I s) (lastFailureTime (circuitBreaker c)) < Timeout (cbConfig (circuitBreaker c))"
    and d: "client_do P I op c s = Some (r, c', s')"
  have e: "\<exists>cb1. checkCanExecute (Clock I s) (circuitBreaker c) = (False, cb1) \<and> cbState cb1 = StateOpen"
    using o t by (simp add: checkCanExecute_def canExecuteUnsafe.simps Let_def)
  then obtain cb1 where e: "checkCanExecute (Clock I s) (circuitBreaker c) = (False, cb1)" "cbState cb1 = StateOpen"
    by blast
  have p: "protected_call I body (circuitBreaker c) s = Some (Some ErrCircuitBreakerOpen, None, cb1, s)" for body
    by (simp add: protected_call_eq e)
  have m: "circuitBreaker (recordCallMonitoring err (c\<lparr>circuitBreaker := cb1\<rparr>)) = cb1" for err
    by (simp add: recordCallMonitoring_def record_cb_def split: option.splits cb_error.splits)
  show "s' = s \<and> cbState (circuitBreaker c') = StateOpen"
    using client_do_cases [of P I op c s] d o e(2)
    by (auto simp: search_result_def guarded_search_def PeerCertificates_def p m Let_def split: if_splits)
qed

text \<open>C36. The server-side limit of an accesslog scan, for every positive timeout. With a timeout of
  two seconds or more it is the largest whole number of seconds that ends at least the margin
  before the client's own deadline; with a shorter one it is one second, which leaves less than
  the margin (and none at all with a timeout of one second).\<close>

theorem accesslog_limit_before_deadline:
  assumes "0 < LDAPTimeout (clientConfig c)"
  shows "if 2 * second \<le> LDAPTimeout (clientConfig c)
    then 1 \<le> accesslogTimeLimitSeconds c \<and>
      accesslogTimeLimitSeconds c * second \<le> LDAPTimeout (clientConfig c) - AccesslogTimeLimitMargin \<and>
      LDAPTimeout (clientConfig c) - AccesslogTimeLimitMargin < (accesslogTimeLimitSeconds c + 1) * second
    else accesslogTimeLimitSeconds c = 1"
proof -
  define d where "d = LDAPTimeout (clientConfig c) - second"
  have l: "accesslogTimeLimitSeconds c = (let secs = go_div d second in if secs < 1 then 1 else secs)"
    by (simp add: accesslogTimeLimitSeconds_def AccesslogTimeLimitMargin_def d_def)
  show ?thesis
  proof (cases "second \<le> d")
    case True
    then have g: "go_div d second = d div second" by (simp add: go_div_def second_def)
    have "1 \<le> d div second" "d div second * second \<le> d" "d < (d div second + 1) * second"
      using True by (simp_all add: second_def)
    then show ?thesis using True l g by (simp add: d_def AccesslogTimeLimitMargin_def)
  next
    case False
    then have "go_div d second < 1" using assms by (auto simp: go_div_def second_def d_def)
    then show ?thesis using False l by (simp add: d_def)
  qed
qed

lemma accesslog_limit_before_deadline_witness:
  "accesslogTimeLimitSeconds (demo_client\<lparr>clientConfig := plain_config\<lparr>LDAPTimeout := 10 * second\<rparr>\<rparr>) = 9"
  using accesslog_limit_before_deadline [of "demo_client\<lparr>clientConfig := plain_config\<lparr>LDAPTimeout := 10 * second\<rparr>\<rparr>"]
  by (simp add: second_def AccesslogTimeLimitMargin_def)

lemma open_breaker_stops_traffic_witness:
  "\<forall>p. \<exists>c' r. client_do (\<lambda>_. True) (pool_interface clock_env (\<lambda>_ _ w. w)) (DoRootDSE [])
     (demo_client\<lparr>circuitBreaker := (circuitBreaker demo_client)\<lparr>cbState := StateOpen, lastFailureTime := 0\<rparr>\<rparr>)
     (p, 5) = Some (r, c', (p, 5)) \<and> cbState (circuitBreaker c') = StateOpen"
proof (rule allI)
  fix p :: ConnectionPool
  let ?I = "pool_interface clock_env (\<lambda>_ _ w. w)"
  let ?c = "demo_client\<lparr>circuitBreaker := (circuitBreaker demo_client)\<lparr>cbState := StateOpen, lastFailureTime := 0\<rparr>\<rparr>"
  have t: "time_Sub (Clock ?I (p, 5)) (lastFailureTime (circuitBreaker ?c)) < Timeout (cbConfig (circuitBreaker ?c))"
    by (simp add: pool_interface_def clock_env_simps demo_client_def NewCircuitBreaker_def
        DefaultCircuitBreakerConfig_def time_Sub_def min_duration_def max_duration_def second_def Let_def)
  have o: "cbState (circuitBreaker ?c) = StateOpen" by simp
  have "checkCanExecute (Clock ?I (p, 5)) (circuitBreaker ?c) =
     (False, (circuitBreaker ?c)\<lparr>totalRequests := totalRequests (circuitBreaker ?c) + 1,
        blockedRequests := blockedRequests (circuitBreaker ?c) + 1\<rparr>)"
    using t by (simp add: checkCanExecute_def canExecuteUnsafe.simps Let_def)
  then obtain r c' s' where
    "client_do (\<lambda>_. True) ?I (DoRootDSE []) ?c (p, 5) = Some (r, c', s')"
    by (simp add: SearchRootDSE_def guarded_search_def protected_call_eq Let_def)
  with open_breaker_stops_traffic [OF o t this]
  show "\<exists>c' r. client_do (\<lambda>_. True) ?I (DoRootDSE []) ?c (p, 5) = Some (r, c', (p, 5)) \<and>
      cbState (circuitBreaker c') = StateOpen"
    by blast
qed

text \<open>An answer of the server is enough to count against the breaker: a search the server
  answers with a result code - no such object, insufficient access - is a failed request for a
  closed breaker, exactly like an unreachable server, although the connection is kept.\<close>

theorem ldap_result_code_counts_as_failure:
  "cbState cb = StateClosed \<Longrightarrow> failures cb + 1 < MaxFailures (cbConfig cb) \<Longrightarrow> failures cb = 0 \<Longrightarrow>
   pool_Get I s = Some (Inr conn0, s1) \<Longrightarrow> conn_Search I conn0 req s1 = (Inl err, s2) \<Longrightarrow>
   \<not> isNetworkError err \<Longrightarrow>
   \<exists>cb' s'. protected_call I (runSearch I req) cb s = Some (Some (FunctionError (LDAPError err)), None, cb', s') \<and>
     failures cb' = 1 \<and> failedRequests cb' = failedRequests cb + 1 \<and> s' = pool_Put I conn0 s2"
  by (simp add: protected_call_eq checkCanExecute_def canExecuteUnsafe.simps Let_def runSearch_def
      numeral_2_eq_2 recordResult_def onFailure_def)

definition refused_interface :: "unit PoolInterface" where
  "refused_interface =
     \<lparr>pool_Get = (\<lambda>s. Some (Inr 0, s)), pool_Put = (\<lambda>c s. s), pool_Discard = (\<lambda>c s. s), pool_Close = (\<lambda>s. s),
      conn_Search = (\<lambda>c r s. (Inl ''LDAP Result Code 32: No Such Object'', s)), conn_TLSState = (\<lambda>c s. None),
      WithTimeout = (\<lambda>c d s. s), Clock = (\<lambda>s. 0)\<rparr>"

lemma ldap_result_code_counts_as_failure_witness:
  "\<exists>cb' s'. protected_call refused_interface (runSearch refused_interface ping_request)
      (NewCircuitBreaker DefaultCircuitBreakerConfig) () =
      Some (Some (FunctionError (LDAPError ''LDAP Result Code 32: No Such Object'')), None, cb', s') \<and> failures cb' = 1"
proof -
  let ?cb = "NewCircuitBreaker DefaultCircuitBreakerConfig"
  have c: "cbState ?cb = StateClosed" "failures ?cb + 1 < MaxFailures (cbConfig ?cb)" "failures ?cb = 0"
    by (simp_all add: NewCircuitBreaker_def DefaultCircuitBreakerConfig_def Let_def second_def)
  have n: "\<not> isNetworkError ''LDAP Result Code 32: No Such Object''" by code_simp
  have g: "pool_Get refused_interface () = Some (Inr 0, ())"
    "conn_Search refused_interface 0 ping_request () = (Inl ''LDAP Result Code 32: No Such Object'', ())"
    by (simp_all add: refused_interface_def)
  from ldap_result_code_counts_as_failure [OF c g n] show ?thesis by blast
qed

end
