(* ===== verification/GoTime.thy ===== *)
theory GoTime
  imports GoStrings
begin

section \<open>Dates: formatting and parsing GeneralizedTime\<close>

text \<open>
  The part of Go's package \<open>time\<close> that turns instants into the stamps of the accesslog and back:
  the proleptic Gregorian calendar, \<open>Format\<close> with the layout 20060102150405.000000Z and with
  2006-01-02, and \<open>Parse\<close> with the layouts of the accesslog and CSN code. An instant counts
  nanoseconds from the first of January of year 1, UTC.
\<close>

subsection \<open>The calendar\<close>

definition is_leap :: "int \<Rightarrow> bool" where
  "is_leap y \<longleftrightarrow> y mod 4 = 0 \<and> (y mod 100 \<noteq> 0 \<or> y mod 400 = 0)"

definition days_in_month :: "int \<Rightarrow> int \<Rightarrow> int" where
  "days_in_month y m =
     (if m = 2 then (if is_leap y then 29 else 28)
      else if m = 4 \<or> m = 6 \<or> m = 9 \<or> m = 11 then 30 else 31)"

definition days_before_year :: "int \<Rightarrow> int" where
  "days_before_year y = 365 * (y - 1) + (y - 1) div 4 - (y - 1) div 100 + (y - 1) div 400"

definition days_before_month :: "int \<Rightarrow> int \<Rightarrow> int" where
  "days_before_month y m = sum_list (map (\<lambda>i. days_in_month y i) [1..m - 1])"

record civil =
  c_year :: int
  c_month :: int
  c_day :: int
  c_hour :: int
  c_min :: int
  c_sec :: int
  c_nsec :: int

definition civil_ok :: "civil \<Rightarrow> bool" where
  "civil_ok c \<longleftrightarrow>
     1 \<le> c_month c \<and> c_month c \<le> 12 \<and>
     1 \<le> c_day c \<and> c_day c \<le> days_in_month (c_year c) (c_month c) \<and>
     0 \<le> c_hour c \<and> c_hour c < 24 \<and> 0 \<le> c_min c \<and> c_min c < 60 \<and>
     0 \<le> c_sec c \<and> c_sec c < 60 \<and> 0 \<le> c_nsec c \<and> c_nsec c < second"

definition civil_days :: "civil \<Rightarrow> int" where
  "civil_days c = days_before_year (c_year c) + days_before_month (c_year c) (c_month c) + c_day c - 1"

definition civil_time :: "civil \<Rightarrow> time" where
  "civil_time c =
     (((civil_days c * 24 + c_hour c) * 60 + c_min c) * 60 + c_sec c) * second + c_nsec c"

text \<open>The date of an instant: the year is found by walking up from a lower estimate.\<close>

lemma div_Suc_int:
  "0 < k \<Longrightarrow> (x + 1) div k = x div k + (if (x + 1) mod k = 0 then 1 else 0)" for x k :: int
proof -
  assume k: "0 < k"
  define q r where "q = (x + 1) div k" and "r = (x + 1) mod k"
  have e: "x + 1 = k * q + r" "0 \<le> r" "r < k" using k by (simp_all add: q_def r_def)
  show "(x + 1) div k = x div k + (if (x + 1) mod k = 0 then 1 else 0)"
  proof (cases "r = 0")
    case True
    then have "x = k * (q - 1) + (k - 1)" using e by (simp add: algebra_simps)
    then have "x div k = q - 1" using k by (intro int_div_pos_eq [where r = "k - 1"]) linarith+
    then show ?thesis using True by (simp add: q_def r_def)
  next
    case False
    then have "x = k * q + (r - 1)" using e by simp
    then have "x div k = q" using e False by (intro int_div_pos_eq [where r = "r - 1"]) linarith+
    then show ?thesis using False by (simp add: q_def r_def)
  qed
qed

lemma leap_sum:
  fixes P :: bool and a b c x4 x100 x400 y4 y100 y400 d d' n :: int
  assumes "c = 0 \<Longrightarrow> b = 0" "b = 0 \<Longrightarrow> a = 0"
    and "y4 = x4 + (if a = 0 then 1 else 0)" "y100 = x100 + (if b = 0 then 1 else 0)"
    "y400 = x400 + (if c = 0 then 1 else 0)"
    and "P = (a = 0 \<and> (b \<noteq> 0 \<or> c = 0))"
    and "d' = 365 * n + y4 - y100 + y400" "d = 365 * (n - 1) + x4 - x100 + x400"
  shows "d' = d + (if P then 366 else 365)"
  unfolding assms(3-8) using assms(1,2)
  by (cases "a = 0"; cases "b = 0"; cases "c = 0") (simp_all add: algebra_simps)

lemma days_before_year_Suc:
  "days_before_year (y + 1) = days_before_year y + (if is_leap y then 366 else 365)"
proof -
  define x where "x = y - 1"
  define a b c where "a = (x + 1) mod 4" and "b = (x + 1) mod 100" and "c = (x + 1) mod 400"
  have "c = 0 \<Longrightarrow> b = 0" "b = 0 \<Longrightarrow> a = 0"
    unfolding a_def b_def c_def by (simp_all add: mod_eq_0_iff_dvd dvd_trans [of 100 400] dvd_trans [of 4 100])
  moreover have "(x + 1) div 4 = x div 4 + (if a = 0 then 1 else 0)"
    "(x + 1) div 100 = x div 100 + (if b = 0 then 1 else 0)"
    "(x + 1) div 400 = x div 400 + (if c = 0 then 1 else 0)"
    unfolding a_def b_def c_def by (rule div_Suc_int, simp)+
  moreover have "is_leap y = (a = 0 \<and> (b \<noteq> 0 \<or> c = 0))"
    by (simp add: is_leap_def a_def b_def c_def x_def)
  moreover have "days_before_year (y + 1) = 365 * y + (x + 1) div 4 - (x + 1) div 100 + (x + 1) div 400"
    "days_before_year y = 365 * (y - 1) + x div 4 - x div 100 + x div 400"
    by (simp_all add: days_before_year_def x_def)
  ultimately show ?thesis by (rule leap_sum)
qed

lemma days_before_year_lower: "365 * (y - 1) \<le> days_before_year y" if "1 \<le> y"
proof -
  have "(y - 1) div 100 \<le> (y - 1) div 4" using that by (intro zdiv_mono2) auto
  moreover have "0 \<le> (y - 1) div 400" using that by (simp add: pos_imp_zdiv_nonneg_iff)
  ultimately show ?thesis by (simp add: days_before_year_def)
qed

function year_loop :: "int \<Rightarrow> int \<Rightarrow> int" where
  "year_loop n y = (if 1 \<le> y \<and> days_before_year (y + 1) \<le> n then year_loop n (y + 1) else y)"
  by auto
termination
proof (relation "measure (\<lambda>(n, y). nat (n - y))")
  fix n y :: int
  assume a: "1 \<le> y \<and> days_before_year (y + 1) \<le> n"
  then have "365 * y \<le> n" using days_before_year_lower [of "y + 1"] by simp
  then have "y < n" using a by simp
  then show "((n, y + 1), n, y) \<in> measure (\<lambda>(n, y). nat (n - y))" by simp
qed simp

declare year_loop.simps [simp del]

fun month_loop :: "int \<Rightarrow> nat \<Rightarrow> int \<Rightarrow> int \<Rightarrow> int \<times> int" where
  "month_loop y 0 m k = (m, k)"
| "month_loop y (Suc n) m k =
     (if days_in_month y m \<le> k then month_loop y n (m + 1) (k - days_in_month y m) else (m, k))"

definition civil_of :: "time \<Rightarrow> civil" where
  "civil_of t =
     (let ns = t mod second; s = t div second; days = s div 86400; sod = s mod 86400;
          y = year_loop days (days div 366 + 1);
          (m, k) = month_loop y 11 1 (days - days_before_year y)
      in \<lparr>c_year = y, c_month = m, c_day = k + 1, c_hour = sod div 3600,
          c_min = sod mod 3600 div 60, c_sec = sod mod 60, c_nsec = ns\<rparr>)"

subsection \<open>Formatting\<close>

text \<open>Decimal digits of fixed width, most significant first.\<close>

fun digits :: "nat \<Rightarrow> int \<Rightarrow> string" where
  "digits 0 n = []"
| "digits (Suc w) n = digits w (n div 10) @ [digit_char (nat (n mod 10))]"

definition format_generalized :: "time \<Rightarrow> string" where
  "format_generalized t =
     (let c = civil_of t
      in digits 4 (c_year c) @ digits 2 (c_month c) @ digits 2 (c_day c) @ digits 2 (c_hour c) @
         digits 2 (c_min c) @ digits 2 (c_sec c) @ ''.'' @ digits 6 (c_nsec c div 1000) @ ''Z'')"

definition format_date :: "time \<Rightarrow> string" where
  "format_date t =
     (let c = civil_of t
      in digits 4 (c_year c) @ ''-'' @ digits 2 (c_month c) @ ''-'' @ digits 2 (c_day c))"

subsection \<open>Parsing\<close>

definition num :: "nat \<Rightarrow> string \<Rightarrow> (int \<times> string) option" where
  "num w s =
     (if length (take w s) = w \<and> list_all is_digit (take w s)
      then Some (digits_val (take w s), drop w s) else None)"

definition comma_or_period :: "char \<Rightarrow> bool" where
  "comma_or_period c \<longleftrightarrow> c = CHR ''.'' \<or> c = CHR '',''"

text \<open>The digits of a fraction as nanoseconds: nine digits count, fewer are scaled.\<close>

definition fraction_ns :: "string \<Rightarrow> int" where
  "fraction_ns ds = (let d = take 9 ds in digits_val d * 10 ^ (9 - length d))"

text \<open>
  What follows the seconds: the six digits of the layout's fraction, or, when the layout has
  none, any fraction the value happens to have.
\<close>

definition parse_fraction :: "bool \<Rightarrow> string \<Rightarrow> (int \<times> string) option" where
  "parse_fraction six s =
     (if six
      then (case s of
              [] \<Rightarrow> None
            | c # r \<Rightarrow>
                (if comma_or_period c \<and> num 6 r \<noteq> None
                 then Some (fraction_ns (take 6 r), drop 6 r) else None))
      else (case s of
              c # d # r \<Rightarrow>
                (if comma_or_period c \<and> is_digit d
                 then Some (fraction_ns (takeWhile is_digit (d # r)), dropWhile is_digit (d # r))
                 else Some (0, s))
            | _ \<Rightarrow> Some (0, s)))"

text \<open>\<open>time.Parse\<close> with layout 20060102150405, optionally .000000, optionally Z.\<close>

definition parse_time :: "bool \<Rightarrow> bool \<Rightarrow> string \<Rightarrow> time option" where
  "parse_time six zulu s =
     (case num 4 s of None \<Rightarrow> None | Some (y, s1) \<Rightarrow>
     (case num 2 s1 of None \<Rightarrow> None | Some (mo, s2) \<Rightarrow>
     (case num 2 s2 of None \<Rightarrow> None | Some (d, s3) \<Rightarrow>
     (case num 2 s3 of None \<Rightarrow> None | Some (h, s4) \<Rightarrow>
     (case num 2 s4 of None \<Rightarrow> None | Some (mi, s5) \<Rightarrow>
     (case num 2 s5 of None \<Rightarrow> None | Some (sec, s6) \<Rightarrow>
     (case parse_fraction six s6 of None \<Rightarrow> None | Some (ns, s7) \<Rightarrow>
        let c = \<lparr>c_year = y, c_month = mo, c_day = d, c_hour = h, c_min = mi, c_sec = sec, c_nsec = ns\<rparr>
        in if s7 = (if zulu then ''Z'' else '''') \<and> civil_ok c then Some (civil_time c) else None)))))))"

subsection \<open>The date of an instant is right\<close>

lemma days_before_year_upper: "days_before_year y \<le> 366 * (y - 1)" if "1 \<le> y"
proof -
  have "(y - 1) div 400 \<le> (y - 1) div 100" using that by (intro zdiv_mono2) auto
  moreover have "(y - 1) div 4 \<le> (y - 1) div 1" using that by (intro zdiv_mono2) auto
  ultimately show ?thesis by (simp add: days_before_year_def)
qed

lemma days_before_year_mono: "a \<le> b \<Longrightarrow> days_before_year a \<le> days_before_year b"
proof (induction b rule: int_ge_induct)
  case (step i)
  then show ?case by (simp add: days_before_year_Suc)
qed simp

lemma year_loop_correct:
  "1 \<le> y \<Longrightarrow> days_before_year y \<le> n \<Longrightarrow>
     1 \<le> year_loop n y \<and> days_before_year (year_loop n y) \<le> n \<and> n < days_before_year (year_loop n y + 1)"
proof (induction n y rule: year_loop.induct)
  case (1 n y)
  show ?case
  proof (cases "days_before_year (y + 1) \<le> n")
    case True
    then show ?thesis using 1 by (subst (1 2 3) year_loop.simps) auto
  next
    case False
    then show ?thesis using 1 by (simp add: year_loop.simps)
  qed
qed

lemma days_in_month_pos: "28 \<le> days_in_month y m" "days_in_month y m \<le> 31"
  by (auto simp: days_in_month_def)

lemma days_before_month_Suc:
  "1 \<le> m \<Longrightarrow> days_before_month y (m + 1) = days_before_month y m + days_in_month y m"
proof -
  assume m: "1 \<le> m"
  have "[1..m] = [1..m - 1] @ [m]" using upto_rec2 [of 1 m] m by simp
  then show ?thesis by (simp add: days_before_month_def)
qed

lemma days_before_month_mono:
  assumes "1 \<le> a" "a \<le> b"
  shows "days_before_month y a \<le> days_before_month y b"
  using assms(2)
proof (induction b rule: int_ge_induct)
  case (step i)
  then show ?case using assms(1) days_before_month_Suc [of i y] days_in_month_pos(1) [of y i] by simp
qed simp

lemma days_before_month_13: "days_before_month y 13 = (if is_leap y then 366 else 365)"
proof -
  have "[1..12::int] = [1, 2, 3, 4, 5, 6, 7, 8, 9, 10, 11, 12]" by (simp add: upto.simps)
  then show ?thesis by (simp add: days_before_month_def days_in_month_def)
qed

lemma days_before_month_1 [simp]: "days_before_month y 1 = 0"
  by (simp add: days_before_month_def)

lemma month_loop_correct:
  "1 \<le> m \<Longrightarrow> m + int n = 12 \<Longrightarrow> 0 \<le> k \<Longrightarrow> k + days_before_month y m < days_before_month y 13 \<Longrightarrow>
     month_loop y n m k = (m', k') \<Longrightarrow>
     1 \<le> m' \<and> m' \<le> 12 \<and> 0 \<le> k' \<and> k' < days_in_month y m' \<and>
     days_before_month y m' + k' = days_before_month y m + k"
proof (induction n arbitrary: m k)
  case 0
  then have "m = 12" by simp
  then show ?case using 0 days_before_month_Suc [of 12 y] by simp
next
  case (Suc n)
  show ?case
  proof (cases "days_in_month y m \<le> k")
    case True
    then have "month_loop y n (m + 1) (k - days_in_month y m) = (m', k')" using Suc.prems(5) by simp
    from Suc.IH [OF _ _ _ _ this] show ?thesis
      using True Suc.prems days_before_month_Suc [of m y] by simp
  next
    case False
    then show ?thesis using Suc.prems by auto
  qed
qed

lemma civil_of_correct:
  assumes "0 \<le> t"
  shows "civil_ok (civil_of t)" and "civil_time (civil_of t) = t" and "1 \<le> c_year (civil_of t)"
proof -
  define s n sod where "s = t div second" and "n = s div 86400" and "sod = s mod 86400"
  have s: "0 \<le> s" "0 \<le> n" "0 \<le> sod" "sod < 86400"
    using assms by (simp_all add: s_def n_def sod_def second_def pos_imp_zdiv_nonneg_iff)
  define y0 where "y0 = n div 366 + 1"
  have y0: "1 \<le> y0" using s by (simp add: y0_def pos_imp_zdiv_nonneg_iff)
  have "366 * (y0 - 1) \<le> n" by (simp add: y0_def)
  then have "days_before_year y0 \<le> n" using days_before_year_upper [OF y0] by linarith
  define y where "y = year_loop n y0"
  have y: "1 \<le> y" "days_before_year y \<le> n" "n < days_before_year (y + 1)"
    using year_loop_correct [OF y0 \<open>days_before_year y0 \<le> n\<close>] by (auto simp: y_def)
  obtain m k where mk: "month_loop y 11 1 (n - days_before_year y) = (m, k)" by fastforce
  have "n - days_before_year y + days_before_month y 1 < days_before_month y 13"
    using y(3) by (simp add: days_before_year_Suc days_before_month_13 split: if_splits)
  from month_loop_correct [OF _ _ _ this mk] y
  have m: "1 \<le> m" "m \<le> 12" "0 \<le> k" "k < days_in_month y m"
    "days_before_month y m + k = n - days_before_year y" by simp_all
  have c: "civil_of t = \<lparr>c_year = y, c_month = m, c_day = k + 1, c_hour = sod div 3600,
      c_min = sod mod 3600 div 60, c_sec = sod mod 60, c_nsec = t mod second\<rparr>"
    by (simp add: civil_of_def Let_def s_def [symmetric] n_def [symmetric] sod_def [symmetric]
        y0_def [symmetric] y_def [symmetric] mk)
  have h: "0 \<le> sod div 3600" "sod div 3600 < 24" "0 \<le> sod mod 3600 div 60" "sod mod 3600 div 60 < 60"
    using s by (simp_all add: pos_imp_zdiv_nonneg_iff div_less_iff_less_mult)
  show "civil_ok (civil_of t)" using m h by (simp add: c civil_ok_def second_def)
  show "1 \<le> c_year (civil_of t)" using y by (simp add: c)
  have d: "civil_days (civil_of t) = n" using m(5) by (simp add: civil_days_def c)
  have e: "(sod div 3600 * 60 + sod mod 3600 div 60) * 60 + sod mod 60 = sod"
  proof -
    have "sod mod 3600 mod 60 = sod mod 60" by (rule mod_mod_cancel) simp
    then have "sod mod 3600 div 60 * 60 + sod mod 60 = sod mod 3600"
      by (metis div_mult_mod_eq)
    moreover have "sod div 3600 * 3600 + sod mod 3600 = sod" by (rule div_mult_mod_eq)
    moreover have "(u * 60 + v) * 60 + w = x" if "v * 60 + w = z" "u * 3600 + z = x" for u v w x z :: int
      using that by simp
    ultimately show ?thesis by blast
  qed
  have "((n * 24 + sod div 3600) * 60 + sod mod 3600 div 60) * 60 + sod mod 60 = n * 86400 + sod"
    using e by (simp add: algebra_simps)
  also have "... = s" by (simp add: n_def sod_def)
  finally show "civil_time (civil_of t) = t"
    unfolding civil_time_def d by (simp add: c s_def)
qed

subsection \<open>Digits\<close>

lemma digit_char_digit:
  "0 \<le> d \<Longrightarrow> d < 10 \<Longrightarrow> is_digit (digit_char (nat d)) \<and> digit_val (digit_char (nat d)) = d"
proof -
  assume d: "0 \<le> d" "d < 10"
  then have "48 + nat d < 256" by simp
  then have "(of_char (digit_char (nat d)) :: nat) = 48 + nat d" by (simp add: digit_char_def)
  then show ?thesis using d by (simp add: is_digit_def digit_val_def Let_def)
qed

lemma length_digits [simp]: "length (digits w n) = w"
  by (induction w n rule: digits.induct) auto

lemma digits_are_digits: "list_all is_digit (digits w n)"
  by (induction w n rule: digits.induct) (auto simp: digit_char_digit)

lemma digits_val_snoc: "digits_val (s @ [c]) = 10 * digits_val s + digit_val c"
  by (simp add: digits_val_def)

lemma digits_val_digits: "0 \<le> n \<Longrightarrow> n < 10 ^ w \<Longrightarrow> digits_val (digits w n) = n"
proof (induction w n rule: digits.induct)
  case (1 n)
  then show ?case by (simp add: digits_val_def)
next
  case (2 w n)
  have "n div 10 < 10 ^ w" using 2 by (simp add: div_less_iff_less_mult)
  then have "digits_val (digits w (n div 10)) = n div 10" using 2 by (simp add: pos_imp_zdiv_nonneg_iff)
  then show ?case by (simp add: digits_val_snoc digit_char_digit)
qed

lemma num_digits: "0 \<le> n \<Longrightarrow> n < 10 ^ w \<Longrightarrow> num w (digits w n @ s) = Some (n, s)"
  by (simp add: num_def digits_are_digits digits_val_digits)

lemma digit_char_less:
  "0 \<le> a \<Longrightarrow> a < 10 \<Longrightarrow> 0 \<le> b \<Longrightarrow> b < 10 \<Longrightarrow>
     ((of_char (digit_char (nat a)) :: nat) < of_char (digit_char (nat b))) = (a < b) \<and>
     (digit_char (nat a) = digit_char (nat b)) = (a = b)"
proof -
  assume a: "0 \<le> a" "a < 10" "0 \<le> b" "b < 10"
  have v: "(of_char (digit_char (nat d)) :: nat) = 48 + nat d" if "0 \<le> d" "d < 10" for d
    using that by (simp add: digit_char_def)
  have "nat a = nat b" if "digit_char (nat a) = digit_char (nat b)"
  proof -
    have "48 + nat a = 48 + nat b"
      by (rule trans [OF v [OF a(1,2), symmetric] trans [OF arg_cong [OF that, of of_char] v [OF a(3,4)]]])
    then show ?thesis by (rule add_left_imp_eq)
  qed
  then have "(digit_char (nat a) = digit_char (nat b)) = (a = b)" using a by (metis nat_eq_iff2 nat_0_le)
  moreover have "((of_char (digit_char (nat a)) :: nat) < of_char (digit_char (nat b))) = (a < b)"
    unfolding v [OF a(1,2)] v [OF a(3,4)] using a by auto
  ultimately show ?thesis by blast
qed

lemma str_less_app_same_length:
  "length a = length b \<Longrightarrow> str_less (a @ s) (b @ t) \<longleftrightarrow> str_less a b \<or> a = b \<and> str_less s t"
proof (induction a arbitrary: b)
  case (Cons x a)
  then show ?case by (cases b) auto
qed simp

lemma ten_less:
  "m = 10 * a + b \<Longrightarrow> n = 10 * c + d \<Longrightarrow> 0 \<le> b \<Longrightarrow> b < 10 \<Longrightarrow> 0 \<le> d \<Longrightarrow> d < 10 \<Longrightarrow>
     m < n \<longleftrightarrow> a < c \<or> a = c \<and> b < d" for a b c d m n :: int
  by linarith

lemma str_less_digits:
  "0 \<le> m \<Longrightarrow> m < 10 ^ w \<Longrightarrow> 0 \<le> n \<Longrightarrow> n < 10 ^ w \<Longrightarrow>
     str_less (digits w m) (digits w n) = (m < n) \<and> (digits w m = digits w n) = (m = n)"
proof (induction w arbitrary: m n)
  case (Suc w)
  have r: "0 \<le> m div 10" "m div 10 < 10 ^ w" "0 \<le> n div 10" "n div 10 < 10 ^ w"
    using Suc.prems by (simp_all add: pos_imp_zdiv_nonneg_iff div_less_iff_less_mult)
  note IH = Suc.IH [OF r]
  have d: "m = 10 * (m div 10) + m mod 10" "n = 10 * (n div 10) + n mod 10" by simp_all
  have b: "0 \<le> m mod 10" "m mod 10 < 10" "0 \<le> n mod 10" "n mod 10 < 10" by simp_all
  have lt: "m < n \<longleftrightarrow> m div 10 < n div 10 \<or> m div 10 = n div 10 \<and> m mod 10 < n mod 10"
    by (rule ten_less [OF d b])
  have eq: "m = n \<longleftrightarrow> m div 10 = n div 10 \<and> m mod 10 = n mod 10"
    using d by metis
  show ?case
    unfolding digits.simps str_less_app_same_length [OF trans [OF length_digits length_digits [symmetric]]]
    using IH digit_char_less [OF b] lt eq by simp
qed auto


lemma digits_eq_iff:
  "0 \<le> m \<Longrightarrow> m < 10 ^ w \<Longrightarrow> 0 \<le> n \<Longrightarrow> n < 10 ^ w \<Longrightarrow> (digits w m = digits w n) = (m = n)"
  using str_less_digits by blast

lemma str_less_digits_iff:
  "0 \<le> m \<Longrightarrow> m < 10 ^ w \<Longrightarrow> 0 \<le> n \<Longrightarrow> n < 10 ^ w \<Longrightarrow> str_less (digits w m) (digits w n) = (m < n)"
  using str_less_digits by blast

subsection \<open>Stamps order as instants do\<close>

lemma radix_less:
  "0 \<le> x \<Longrightarrow> x < k \<Longrightarrow> 0 \<le> y \<Longrightarrow> y < k \<Longrightarrow> a * k + x < b * k + y \<longleftrightarrow> a < b \<or> a = b \<and> x < y"
  for a b k x y :: int
proof -
  have *: "a * k + x < b * k + y" if "a < b" "x < k" "0 \<le> y" "0 \<le> x" for a b x y :: int
  proof -
    have "(a + 1) * k \<le> b * k" using that by (intro mult_right_mono) auto
    then show ?thesis using that by (simp add: algebra_simps)
  qed
  assume "0 \<le> x" "x < k" "0 \<le> y" "y < k"
  then show ?thesis using * [of a b x y] * [of b a y x] by (cases a b rule: linorder_cases) auto
qed

lemma radix_eq:
  "0 \<le> x \<Longrightarrow> x < k \<Longrightarrow> 0 \<le> y \<Longrightarrow> y < k \<Longrightarrow> a * k + x = b * k + y \<longleftrightarrow> a = b \<and> x = y" for a b k x y :: int
  using radix_less [of x k y a b] radix_less [of y k x b a] by fastforce

lemma mixed_less:
  fixes D H M S U D' H' M' S' U' :: int
  assumes "0 \<le> H" "H < 24" "0 \<le> M" "M < 60" "0 \<le> S" "S < 60" "0 \<le> U" "U < 1000000"
    and "0 \<le> H'" "H' < 24" "0 \<le> M'" "M' < 60" "0 \<le> S'" "S' < 60" "0 \<le> U'" "U' < 1000000"
  shows "(((D * 24 + H) * 60 + M) * 60 + S) * 1000000 + U < (((D' * 24 + H') * 60 + M') * 60 + S') * 1000000 + U' \<longleftrightarrow>
    D < D' \<or> D = D' \<and> (H < H' \<or> H = H' \<and> (M < M' \<or> M = M' \<and> (S < S' \<or> S = S' \<and> U < U')))"
  unfolding radix_less [OF assms(7,8,15,16)] radix_less [OF assms(5,6,13,14)] radix_eq [OF assms(5,6,13,14)]
    radix_less [OF assms(3,4,11,12)] radix_eq [OF assms(3,4,11,12)]
    radix_less [OF assms(1,2,9,10)] radix_eq [OF assms(1,2,9,10)]
  by blast

lemma civil_day_bounds:
  assumes "civil_ok c"
  shows "days_before_year (c_year c) + days_before_month (c_year c) (c_month c) \<le> civil_days c"
    and "civil_days c < days_before_year (c_year c) + days_before_month (c_year c) (c_month c + 1)"
    and "days_before_year (c_year c) \<le> civil_days c" and "civil_days c < days_before_year (c_year c + 1)"
proof -
  have m: "1 \<le> c_month c" "c_month c \<le> 12" using assms by (simp_all add: civil_ok_def)
  show 1: "days_before_year (c_year c) + days_before_month (c_year c) (c_month c) \<le> civil_days c"
    "civil_days c < days_before_year (c_year c) + days_before_month (c_year c) (c_month c + 1)"
    using assms m by (simp_all add: civil_ok_def civil_days_def days_before_month_Suc)
  show "days_before_year (c_year c) \<le> civil_days c"
    using 1(1) days_before_month_mono [of 1 "c_month c" "c_year c"] m by simp
  have "days_before_month (c_year c) (c_month c + 1) \<le> days_before_month (c_year c) 13"
    using m by (intro days_before_month_mono) simp_all
  also have "days_before_year (c_year c) + ... = days_before_year (c_year c + 1)"
    by (simp add: days_before_month_13 days_before_year_Suc)
  finally show "civil_days c < days_before_year (c_year c + 1)" using 1(2) by simp
qed

definition date_less :: "civil \<Rightarrow> civil \<Rightarrow> bool" where
  "date_less a b \<longleftrightarrow>
     c_year a < c_year b \<or> c_year a = c_year b \<and>
       (c_month a < c_month b \<or> c_month a = c_month b \<and> c_day a < c_day b)"

lemma date_less_days:
  assumes "civil_ok a" "civil_ok b" "date_less a b"
  shows "civil_days a < civil_days b"
proof -
  consider "c_year a + 1 \<le> c_year b" | "c_year a = c_year b" "c_month a + 1 \<le> c_month b"
    | "c_year a = c_year b" "c_month a = c_month b" "c_day a < c_day b"
    using assms(3) by (auto simp: date_less_def)
  then show ?thesis
  proof cases
    case 1
    then show ?thesis
      using civil_day_bounds(4) [OF assms(1)] civil_day_bounds(3) [OF assms(2)]
        days_before_year_mono [OF 1] by linarith
  next
    case 2
    have "1 \<le> c_month a + 1" using assms(1) by (simp add: civil_ok_def)
    from days_before_month_mono [OF this 2(2), of "c_year b"] show ?thesis
      using civil_day_bounds(2) [OF assms(1)] civil_day_bounds(1) [OF assms(2)] unfolding 2(1) by linarith
  next
    case 3
    then show ?thesis by (simp add: civil_days_def)
  qed
qed

lemma date_trichotomy:
  "date_less a b \<or> c_year a = c_year b \<and> c_month a = c_month b \<and> c_day a = c_day b \<or> date_less b a"
  by (auto simp: date_less_def)

lemma civil_days_less_iff:
  assumes "civil_ok a" "civil_ok b"
  shows "civil_days a < civil_days b \<longleftrightarrow> date_less a b"
    and "civil_days a = civil_days b \<longleftrightarrow> c_year a = c_year b \<and> c_month a = c_month b \<and> c_day a = c_day b"
proof -
  have eq: "civil_days a = civil_days b" if "c_year a = c_year b \<and> c_month a = c_month b \<and> c_day a = c_day b"
    using that by (simp add: civil_days_def)
  show "civil_days a < civil_days b \<longleftrightarrow> date_less a b"
    using date_trichotomy [of a b] date_less_days [OF assms] date_less_days [OF assms(2,1)] eq by fastforce
  show "civil_days a = civil_days b \<longleftrightarrow> c_year a = c_year b \<and> c_month a = c_month b \<and> c_day a = c_day b"
    using date_trichotomy [of a b] date_less_days [OF assms] date_less_days [OF assms(2,1)] eq by fastforce
qed

lemma civil_time_us:
  "civil_time c div 1000 =
     (((civil_days c * 24 + c_hour c) * 60 + c_min c) * 60 + c_sec c) * 1000000 + c_nsec c div 1000"
proof -
  have "(S * second + n) div 1000 = S * 1000000 + n div 1000" for S n :: int
  proof -
    have "S * second + n = n + 1000 * (S * 1000000)" by (simp add: second_def)
    then show ?thesis by (simp only: div_mult_self2)
  qed
  then show ?thesis by (simp add: civil_time_def)
qed

definition stampable :: "time \<Rightarrow> bool" where
  "stampable t \<longleftrightarrow> 0 \<le> t \<and> c_year (civil_of t) \<le> 9999"

lemma stampable_fields:
  assumes "stampable t"
  shows "civil_ok (civil_of t)" "0 \<le> c_year (civil_of t)" "c_year (civil_of t) < 10 ^ 4"
    "0 \<le> c_month (civil_of t)" "c_month (civil_of t) < 10 ^ 2"
    "0 \<le> c_day (civil_of t)" "c_day (civil_of t) < 10 ^ 2"
    "0 \<le> c_hour (civil_of t)" "c_hour (civil_of t) < 10 ^ 2"
    "0 \<le> c_min (civil_of t)" "c_min (civil_of t) < 10 ^ 2"
    "0 \<le> c_sec (civil_of t)" "c_sec (civil_of t) < 10 ^ 2"
    "0 \<le> c_nsec (civil_of t) div 1000" "c_nsec (civil_of t) div 1000 < 10 ^ 6"
proof -
  have t: "0 \<le> t" "c_year (civil_of t) \<le> 9999" using assms by (simp_all add: stampable_def)
  note c = civil_of_correct [OF t(1)]
  show ok: "civil_ok (civil_of t)" by (rule c(1))
  note f = ok [unfolded civil_ok_def]
  have "days_in_month (c_year (civil_of t)) (c_month (civil_of t)) \<le> 31" by (rule days_in_month_pos)
  then show "0 \<le> c_year (civil_of t)" "c_year (civil_of t) < 10 ^ 4"
    "0 \<le> c_month (civil_of t)" "c_month (civil_of t) < 10 ^ 2"
    "0 \<le> c_day (civil_of t)" "c_day (civil_of t) < 10 ^ 2"
    "0 \<le> c_hour (civil_of t)" "c_hour (civil_of t) < 10 ^ 2"
    "0 \<le> c_min (civil_of t)" "c_min (civil_of t) < 10 ^ 2"
    "0 \<le> c_sec (civil_of t)" "c_sec (civil_of t) < 10 ^ 2" using f t(2) c(3) by simp_all
  have n: "0 \<le> c_nsec (civil_of t)" "c_nsec (civil_of t) < 10 ^ 6 * 1000" using f by (simp_all add: second_def)
  show "0 \<le> c_nsec (civil_of t) div 1000" using n(1) by (simp add: pos_imp_zdiv_nonneg_iff)
  show "c_nsec (civil_of t) div 1000 < 10 ^ 6" 
  proof -
    have "c_nsec (civil_of t) div 1000 \<le> (10 ^ 6 * 1000 - 1) div 1000" using n(2) by (intro zdiv_mono1) simp_all
    then show ?thesis by simp
  qed
qed

lemma stamp_order:
  assumes "stampable a" "stampable b"
  shows "str_less (format_generalized a) (format_generalized b) \<longleftrightarrow> a div 1000 < b div 1000"
proof -
  note fa = stampable_fields [OF assms(1)] and fb = stampable_fields [OF assms(2)]
  have t: "a = civil_time (civil_of a)" "b = civil_time (civil_of b)"
    using assms civil_of_correct(2) by (simp_all add: stampable_def)
  define c d where "c = civil_of a" and "d = civil_of b"
  note f = fa [folded c_def] fb [folded d_def]
  have "str_less (format_generalized a) (format_generalized b) \<longleftrightarrow>
      date_less c d \<or> (c_year c = c_year d \<and> c_month c = c_month d \<and> c_day c = c_day d) \<and>
        (c_hour c < c_hour d \<or> c_hour c = c_hour d \<and>
          (c_min c < c_min d \<or> c_min c = c_min d \<and>
            (c_sec c < c_sec d \<or> c_sec c = c_sec d \<and> c_nsec c div 1000 < c_nsec d div 1000)))"
    using f by (auto simp: format_generalized_def Let_def c_def [symmetric] d_def [symmetric] date_less_def
        str_less_app_same_length str_less_digits_iff digits_eq_iff)
  also have "... \<longleftrightarrow> civil_time c div 1000 < civil_time d div 1000"
    unfolding civil_time_us civil_days_less_iff [OF f(1,16), symmetric]
    using f(14,15,29,30) f(1,16) [unfolded civil_ok_def]
    by (subst mixed_less) (simp_all add: civil_days_less_iff [OF f(1,16)])
  finally show ?thesis by (metis t c_def d_def)
qed

lemma fraction_ns_digits6: "0 \<le> k \<Longrightarrow> k < 10 ^ 6 \<Longrightarrow> fraction_ns (digits 6 k) = k * 1000"
  by (simp add: fraction_ns_def digits_val_digits)

lemma parse_format:
  assumes "stampable t"
  shows "parse_time True True (format_generalized t) = Some (t - t mod 1000)"
proof -
  note f = stampable_fields [OF assms]
  define c where "c = civil_of t"
  note f = f [folded c_def]
  have t: "civil_time c = t" using assms civil_of_correct(2) by (simp add: stampable_def c_def)
  have ok: "civil_ok (c\<lparr>c_nsec := c_nsec c div 1000 * 1000\<rparr>)"
    using f(1,14,15) by (simp add: civil_ok_def second_def)
  have m: "c_nsec c div 1000 * 1000 = c_nsec c - c_nsec c mod 1000" by (simp add: minus_mod_eq_div_mult)
  have "civil_time (c\<lparr>c_nsec := c_nsec c div 1000 * 1000\<rparr>) = t - c_nsec c mod 1000"
    unfolding m using t by (simp add: civil_time_def civil_days_def)
  moreover have "c_nsec c mod 1000 = t mod 1000"
  proof -
    have "(S * second + n) mod 1000 = n mod 1000" for S n :: int
    proof -
      have "S * second + n = n + 1000 * (S * 1000000)" by (simp add: second_def)
      then show ?thesis by (simp only: mod_mult_self2)
    qed
    then show ?thesis unfolding t [symmetric] civil_time_def by simp
  qed
  ultimately have v: "civil_time (c\<lparr>c_nsec := c_nsec c div 1000 * 1000\<rparr>) = t - t mod 1000" by simp
  define R where "R = ''.'' @ digits 6 (c_nsec c div 1000) @ ''Z''"
  have frac: "parse_fraction True R = Some (c_nsec c div 1000 * 1000, ''Z'')"
    using f(14,15) by (simp add: R_def parse_fraction_def comma_or_period_def num_digits fraction_ns_digits6)
  have e: "c\<lparr>c_nsec := n\<rparr> = \<lparr>c_year = c_year c, c_month = c_month c, c_day = c_day c, c_hour = c_hour c,
      c_min = c_min c, c_sec = c_sec c, c_nsec = n\<rparr>" for n by simp
  show ?thesis
    unfolding parse_time_def format_generalized_def Let_def c_def [symmetric] R_def [symmetric]
    using f ok v unfolding e by (simp add: num_digits frac)
qed

end
