(* ===== verification/Accesslog.thy ===== *)
theory Accesslog
  imports GoTime Ldap
begin

section \<open>The accesslog streams and CSN values\<close>

text \<open>
  pkg/accesslog/accesslog.go and pkg/csn/csn.go: the cursors over the three streams of
  cn=accesslog, the filter of an incremental scan, the decision which entries are new, the
  readers of audit attributes and time stamps. The six scans of pkg/events and pkg/exporter share
  one loop, \<open>stream_loop\<close>; its lemmas say which entries reach the body and where the cursor
  ends. The last section runs a scan over a log that grows between the scans.
\<close>

subsection \<open>Cursors\<close>

datatype Stream = StreamBind | StreamWrite | StreamLock

definition BindBaseFilter :: string where
  "BindBaseFilter = ''(objectClass=auditBind)''"

definition WriteBaseFilter :: string where
  "WriteBaseFilter =
     ''(|(objectClass=auditAdd)(objectClass=auditModify)(objectClass=auditDelete)(objectClass=auditModRDN))''"

definition LockBaseFilter :: string where
  "LockBaseFilter = ''(&(objectClass=auditModify)(reqMod=pwdAccountLockedTime:*))''"

record CursorState =
  BindCursor :: string
  BindReady :: bool
  WriteCursor :: string
  WriteReady :: bool
  LockCursor :: string
  LockReady :: bool

text \<open>\<open>NowGeneralizedTime\<close> and \<open>NewCursorState\<close> at the instant the clock gives.\<close>

definition NowGeneralizedTime :: "time \<Rightarrow> string" where
  "NowGeneralizedTime now = format_generalized now"

definition NewCursorState :: "time \<Rightarrow> CursorState" where
  "NewCursorState t =
     (let now = NowGeneralizedTime t
      in \<lparr>BindCursor = now, BindReady = False, WriteCursor = now, WriteReady = False,
          LockCursor = now, LockReady = False\<rparr>)"

fun Cursor_Get :: "CursorState \<Rightarrow> Stream \<Rightarrow> string \<times> bool" where
  "Cursor_Get c StreamBind = (BindCursor c, BindReady c)"
| "Cursor_Get c StreamWrite = (WriteCursor c, WriteReady c)"
| "Cursor_Get c StreamLock = (LockCursor c, LockReady c)"

fun Advance :: "CursorState \<Rightarrow> Stream \<Rightarrow> string \<Rightarrow> CursorState" where
  "Advance c StreamBind maxSeen = c\<lparr>BindCursor := maxSeen, BindReady := True\<rparr>"
| "Advance c StreamWrite maxSeen = c\<lparr>WriteCursor := maxSeen, WriteReady := True\<rparr>"
| "Advance c StreamLock maxSeen = c\<lparr>LockCursor := maxSeen, LockReady := True\<rparr>"

definition BuildIncrementalFilter :: "string \<Rightarrow> string \<Rightarrow> string" where
  "BuildIncrementalFilter base cursor =
     (if cursor = '''' then base else ''(&'' @ base @ ''(reqStart>='' @ cursor @ ''))'')"

definition ShouldEmit :: "string \<Rightarrow> string \<Rightarrow> bool \<Rightarrow> string \<Rightarrow> bool \<times> string" where
  "ShouldEmit reqStart cursor baseline maxSeen =
     (if reqStart = '''' then (False, maxSeen)
      else let next = (if str_less maxSeen reqStart then reqStart else maxSeen)
           in if baseline then (False, next)
              else if reqStart = cursor then (False, next)
              else (True, next))"

definition MaxString :: "string \<Rightarrow> string \<Rightarrow> string" where
  "MaxString a b = (if str_less a b then b else a)"

subsection \<open>Reading audit entries\<close>

fun find_attr :: "(string \<times> string list) list \<Rightarrow> string \<Rightarrow> string" where
  "find_attr [] name = ''''"
| "find_attr ((n, vs) # as) name = (if n = name \<and> vs \<noteq> [] then hd vs else find_attr as name)"

definition Attr :: "Entry \<Rightarrow> string \<Rightarrow> string" where
  "Attr entry name = find_attr (EntryAttributes entry) name"

definition TrimDNPrefix :: "string \<Rightarrow> string" where
  "TrimDNPrefix v = TrimPrefix v ''dn:''"

definition ExtractUserNameFromDN :: "string \<Rightarrow> string" where
  "ExtractUserNameFromDN dn =
     (if dn = '''' then ''''
      else case SplitN (hd (SplitN dn CHR '','' 2)) CHR ''='' 2 of
             [k, v] \<Rightarrow> v
           | _ \<Rightarrow> dn)"

text \<open>The values of all attributes called reqMod, in order.\<close>

definition req_mods :: "Entry \<Rightarrow> string list" where
  "req_mods entry = concat (map snd (filter (\<lambda>a. fst a = ''reqMod'') (EntryAttributes entry)))"

text \<open>The loop over the values with the set \<open>seen\<close> and the result list \<open>out\<close>.\<close>

fun touched_loop :: "string set \<Rightarrow> string list \<Rightarrow> string list \<Rightarrow> string list" where
  "touched_loop seen out [] = out"
| "touched_loop seen out (v # vs) =
     (let idx = IndexByte v CHR '':''
      in if idx \<le> 0 then touched_loop seen out vs
         else let name = take (nat idx) v
              in if name \<in> seen then touched_loop seen out vs
                 else touched_loop (insert name seen) (out @ [name]) vs)"

definition TouchedAttributes :: "Entry \<Rightarrow> string list" where
  "TouchedAttributes entry = touched_loop {} [] (req_mods entry)"

definition adds_attribute :: "string \<Rightarrow> string \<Rightarrow> bool" where
  "adds_attribute wantLower v =
     (let idx = IndexByte v CHR '':''
      in if idx \<le> 0 then False
         else if \<not> EqualFold (take (nat idx) v) wantLower then False
         else case drop (nat idx + 1) v of
                [] \<Rightarrow> False
              | op # _ \<Rightarrow> op = CHR ''+'' \<or> op = CHR ''='')"

definition HasReqModAddition :: "Entry \<Rightarrow> string \<Rightarrow> bool" where
  "HasReqModAddition entry attrName = list_ex (adds_attribute (ToLower attrName)) (req_mods entry)"

definition ClassifyBindResult :: "string \<Rightarrow> string" where
  "ClassifyBindResult code =
     (if code = ''0'' then ''success''
      else if code = ''49'' then ''invalid_credentials''
      else if code = ''50'' then ''insufficient_access''
      else if code = ''53'' then ''unwilling_to_perform''
      else if code = ''19'' then ''constraint_violation''
      else if code = '''' then ''unknown''
      else ''error_'' @ code)"

subsection \<open>Time stamps\<close>

definition normalizeGeneralizedTime :: "string \<Rightarrow> string" where
  "normalizeGeneralizedTime v =
     (if v = '''' then ''''
      else let hasZ = HasSuffix v ''Z'';
               body = (if hasZ then TrimSuffix v ''Z'' else v);
               dot = IndexByte body CHR ''.''
           in if dot < 0 then (if hasZ then body @ ''Z'' else body)
              else let head = take (nat dot) body;
                       frac = drop (nat dot + 1) body;
                       frac = (if 6 \<le> length frac then take 6 frac
                               else frac @ replicate (6 - length frac) CHR ''0'')
                   in if hasZ then head @ ''.'' @ frac @ ''Z'' else head @ ''.'' @ frac)"

text \<open>The three layouts are tried in order; \<open>None\<close> is the parse error.\<close>

definition ParseGeneralizedTime :: "string \<Rightarrow> time option" where
  "ParseGeneralizedTime v =
     (let normalized = normalizeGeneralizedTime v
      in if normalized = '''' then None
         else case parse_time True True normalized of
                Some t \<Rightarrow> Some t
              | None \<Rightarrow>
                 (case parse_time False True normalized of
                    Some t \<Rightarrow> Some t
                  | None \<Rightarrow> parse_time False False normalized))"

definition ParseReqStart :: "string \<Rightarrow> ('w \<Rightarrow> time \<times> 'w) \<Rightarrow> 'w \<Rightarrow> time \<times> 'w" where
  "ParseReqStart v now w =
     (case ParseGeneralizedTime v of Some t \<Rightarrow> (t, w) | None \<Rightarrow> now w)"

text \<open>
  \<open>csn.Parse\<close>. \<open>Inl\<close> is an error; \<open>None\<close> is the run-time panic of the slice expression
  \<open>timestamp[dotIdx+1 : zIdx]\<close> when the Z comes before the dot.
\<close>

datatype csn_error = TooFewComponents | MissingZ | BadTimestamp

definition csn_time :: "string \<Rightarrow> (csn_error + time) option" where
  "csn_time timestamp =
     (let dotIdx = IndexByte timestamp CHR ''.''
      in if 0 \<le> dotIdx
         then let zIdx = IndexByte timestamp CHR ''Z''
              in if zIdx < 0 then Some (Inl MissingZ)
                 else if zIdx < dotIdx + 1 then None
                 else let frac = take (nat (zIdx - (dotIdx + 1))) (drop (nat (dotIdx + 1)) timestamp);
                          frac = frac @ replicate (6 - length frac) CHR ''0'';
                          frac = take 6 frac;
                          normalized = take (nat (dotIdx + 1)) timestamp @ frac @ ''Z''
                      in (case parse_time True True normalized of
                            None \<Rightarrow> Some (Inl BadTimestamp)
                          | Some t \<Rightarrow> Some (Inr t))
         else (case parse_time False True timestamp of
                 None \<Rightarrow> Some (Inl BadTimestamp)
               | Some t \<Rightarrow> Some (Inr t)))"

definition csn_Parse :: "string \<Rightarrow> (csn_error + time \<times> string) option" where
  "csn_Parse csn =
     (let parts = SplitN csn CHR ''#'' 4
      in if length parts < 3 then Some (Inl TooFewComponents)
         else case csn_time (parts ! 0) of
                None \<Rightarrow> None
              | Some (Inl e) \<Rightarrow> Some (Inl e)
              | Some (Inr t) \<Rightarrow> Some (Inr (t, parts ! 2)))"

subsection \<open>The loop of a scan\<close>

text \<open>
  The loop over the entries of a search result that the scans of pkg/events and pkg/exporter
  share: \<open>body\<close> handles an entry that \<open>ShouldEmit\<close> passes and says how many outputs it made.
\<close>

fun stream_loop ::
  "string \<Rightarrow> bool \<Rightarrow> (Entry \<Rightarrow> 's \<Rightarrow> nat \<times> 's) \<Rightarrow> string \<Rightarrow> nat \<Rightarrow> 's \<Rightarrow> Entry list \<Rightarrow> nat \<times> string \<times> 's" where
  "stream_loop cur baseline body maxSeen count s [] = (count, maxSeen, s)"
| "stream_loop cur baseline body maxSeen count s (entry # entries) =
     (let (emitNow, next) = ShouldEmit (Attr entry ''reqStart'') cur baseline maxSeen
      in if \<not> emitNow then stream_loop cur baseline body next count s entries
         else let (n, s) = body entry s
              in stream_loop cur baseline body next (count + n) s entries)"

definition scan_stream ::
  "(string \<Rightarrow> string list \<Rightarrow> 's \<Rightarrow> ('e + Entry list) \<times> 's) \<Rightarrow> Stream \<Rightarrow> string \<Rightarrow> string list
     \<Rightarrow> (Entry \<Rightarrow> 's \<Rightarrow> nat \<times> 's) \<Rightarrow> CursorState \<Rightarrow> 's \<Rightarrow> ('e + nat) \<times> CursorState \<times> 's" where
  "scan_stream search stream base attrs body cursor s =
     (let (cur, ready) = Cursor_Get cursor stream;
          flt = BuildIncrementalFilter base cur
      in case search flt attrs s of
           (Inl err, s) \<Rightarrow> (Inl err, cursor, s)
         | (Inr entries, s) \<Rightarrow>
             let (count, maxSeen, s) = stream_loop cur (\<not> ready) body cur 0 s entries
             in (Inr count, Advance cursor stream maxSeen, s))"


subsection \<open>What reaches the body and where the cursor ends\<close>

abbreviation stamp :: "Entry \<Rightarrow> string" where
  "stamp e \<equiv> Attr e ''reqStart''"

definition fresh_entries :: "string \<Rightarrow> bool \<Rightarrow> Entry list \<Rightarrow> Entry list" where
  "fresh_entries cur baseline es =
     (if baseline then [] else filter (\<lambda>e. stamp e \<noteq> '''' \<and> stamp e \<noteq> cur) es)"

definition max_stamp :: "string \<Rightarrow> Entry list \<Rightarrow> string" where
  "max_stamp m es = foldl (\<lambda>m e. MaxString m (stamp e)) m es"

fun run_bodies :: "(Entry \<Rightarrow> 's \<Rightarrow> nat \<times> 's) \<Rightarrow> Entry list \<Rightarrow> nat \<Rightarrow> 's \<Rightarrow> nat \<times> 's" where
  "run_bodies body [] n s = (n, s)"
| "run_bodies body (e # es) n s = (let (k, s) = body e s in run_bodies body es (n + k) s)"

lemma str_less_Nil [simp]: "\<not> str_less s []"
  by (cases s) auto

lemma stream_loop_eq:
  "stream_loop cur baseline body m n s es =
     (let (k, s') = run_bodies body (fresh_entries cur baseline es) n s in (k, max_stamp m es, s'))"
proof (induction es arbitrary: m n s baseline)
  case Nil
  then show ?case by (simp add: fresh_entries_def max_stamp_def)
next
  case (Cons e es)
  obtain k s' where b: "body e s = (k, s')" by fastforce
  show ?case
    by (simp add: ShouldEmit_def Let_def Cons b fresh_entries_def max_stamp_def MaxString_def split: prod.splits)
qed

lemma MaxString_cases: "MaxString a b = a \<or> MaxString a b = b"
  by (simp add: MaxString_def)

lemma str_le_refl [simp]: "str_le s s"
  by (simp add: str_le_def)

lemma str_le_trans: "str_le a b \<Longrightarrow> str_le b c \<Longrightarrow> str_le a c"
  unfolding str_le_def using str_less_trans by blast

lemma str_le_less_trans: "str_le a b \<Longrightarrow> str_less b c \<Longrightarrow> str_less a c"
  unfolding str_le_def using str_less_trans by blast

lemma str_not_less: "\<not> str_less a b \<longleftrightarrow> str_le b a"
  unfolding str_le_def using str_less_linear [of a b] str_less_trans [of a b a] by auto

lemma str_less_imp_le: "str_less a b \<Longrightarrow> str_le a b"
  by (simp add: str_le_def)

lemma MaxString_le: "str_le a (MaxString a b)" "str_le b (MaxString a b)"
  using str_less_linear [of a b] by (auto simp: MaxString_def str_le_def)

lemma max_stamp_bounds: "str_le m (max_stamp m es)" "e \<in> set es \<Longrightarrow> str_le (stamp e) (max_stamp m es)"
proof -
  have "str_le m (max_stamp m es) \<and> (\<forall>e\<in>set es. str_le (stamp e) (max_stamp m es))"
  proof (induction es arbitrary: m)
    case (Cons x es)
    then have i: "str_le (MaxString m (stamp x)) (max_stamp m (x # es))"
      "\<forall>e\<in>set es. str_le (stamp e) (max_stamp m (x # es))" by (simp_all add: max_stamp_def)
    show ?case using str_le_trans [OF MaxString_le(1) i(1)] str_le_trans [OF MaxString_le(2) i(1)] i(2) by auto
  qed (simp add: max_stamp_def)
  then show "str_le m (max_stamp m es)" "e \<in> set es \<Longrightarrow> str_le (stamp e) (max_stamp m es)" by auto
qed

lemma max_stamp_member: "max_stamp m es = m \<or> (\<exists>e\<in>set es. max_stamp m es = stamp e)"
proof (induction es arbitrary: m)
  case (Cons x es)
  then show ?case using MaxString_cases [of m "stamp x"] by (fastforce simp: max_stamp_def)
qed (simp add: max_stamp_def)

definition cursor_of :: "CursorState \<Rightarrow> Stream \<Rightarrow> string" where
  "cursor_of c st = fst (Cursor_Get c st)"

definition ready_of :: "CursorState \<Rightarrow> Stream \<Rightarrow> bool" where
  "ready_of c st = snd (Cursor_Get c st)"

lemma Advance_same [simp]:
  "cursor_of (Advance c st m) st = m" "ready_of (Advance c st m) st"
  by (cases st; simp add: cursor_of_def ready_of_def)+

lemma Advance_other [simp]:
  "st' \<noteq> st \<Longrightarrow> Cursor_Get (Advance c st m) st' = Cursor_Get c st'"
  by (cases st; cases st') auto

lemma scan_stream_ok:
  assumes "search (BuildIncrementalFilter base (cursor_of c st)) attrs s = (Inr es, s)"
  shows "scan_stream search st base attrs body c s =
    (let (k, s') = run_bodies body (fresh_entries (cursor_of c st) (\<not> ready_of c st) es) 0 s
     in (Inr k, Advance c st (max_stamp (cursor_of c st) es), s'))"
  using assms
  by (cases "Cursor_Get c st") (simp add: scan_stream_def cursor_of_def ready_of_def stream_loop_eq split: prod.splits)

lemma scan_stream_fail:
  assumes "search (BuildIncrementalFilter base (cursor_of c st)) attrs s = (Inl err, s)"
  shows "scan_stream search st base attrs body c s = (Inl err, c, s)"
  using assms by (cases "Cursor_Get c st") (simp add: scan_stream_def cursor_of_def)

subsection \<open>Scans of a growing log\<close>

text \<open>
  The server's answer to a search over its log, \<open>matches\<close> being its evaluation of a filter on an
  entry; \<open>up\<close> says whether the search succeeds. A history is a list of steps: entries are
  appended, then one scan runs. \<open>delivered\<close> is what a reader should get: everything appended
  since the last successful scan, except what the first successful scan finds.
\<close>

definition log_search ::
  "(string \<Rightarrow> Entry \<Rightarrow> bool) \<Rightarrow> Entry list \<Rightarrow> bool \<Rightarrow> string \<Rightarrow> string list \<Rightarrow> 's \<Rightarrow> (string + Entry list) \<times> 's" where
  "log_search matches db up flt attrs s =
     (if up then Inr (filter (matches flt) db) else Inl ''search failed'', s)"

fun scan_history ::
  "((string \<Rightarrow> string list \<Rightarrow> 's \<Rightarrow> (string + Entry list) \<times> 's) \<Rightarrow> CursorState \<Rightarrow> 's
       \<Rightarrow> (string + nat) \<times> CursorState \<times> 's)
     \<Rightarrow> (string \<Rightarrow> Entry \<Rightarrow> bool) \<Rightarrow> (Entry list \<times> bool) list \<Rightarrow> Entry list \<Rightarrow> CursorState \<Rightarrow> 's
     \<Rightarrow> CursorState \<times> 's" where
  "scan_history scan matches [] db c s = (c, s)"
| "scan_history scan matches ((new, up) # steps) db c s =
     (let (r, c, s) = scan (log_search matches (db @ new) up) c s
      in scan_history scan matches steps (db @ new) c s)"

fun delivered :: "bool \<Rightarrow> Entry list \<Rightarrow> (Entry list \<times> bool) list \<Rightarrow> Entry list" where
  "delivered ready pend [] = []"
| "delivered ready pend ((new, up) # steps) =
     (if up then (if ready then pend @ new else []) @ delivered True [] steps
      else delivered ready (pend @ new) steps)"

abbreviation stamp_less :: "Entry \<Rightarrow> Entry \<Rightarrow> bool" where
  "stamp_less a b \<equiv> str_less (stamp a) (stamp b)"

definition appended :: "(Entry list \<times> bool) list \<Rightarrow> Entry list" where
  "appended steps = concat (map fst steps)"

lemma appended_simps [simp]:
  "appended [] = []" "appended ((new, up) # steps) = new @ appended steps"
  by (simp_all add: appended_def)

lemma run_bodies_append:
  "run_bodies body (xs @ ys) n s = (let (k, s') = run_bodies body xs n s in run_bodies body ys k s')"
  by (induction xs arbitrary: n s) (auto split: prod.splits)

lemma run_bodies_state: "snd (run_bodies body xs n s) = snd (run_bodies body xs m s)"
  by (induction xs arbitrary: n m s) (auto split: prod.splits)

lemma delivered_subset: "set (delivered r p steps) \<subseteq> set p \<union> set (appended steps)"
  by (induction r p steps rule: delivered.induct) (auto simp: appended_def)

lemma scan_history_exact:
  assumes law: "\<And>cur e. cur \<in> C \<Longrightarrow> e \<in> E \<Longrightarrow>
        matches (BuildIncrementalFilter base cur) e \<longleftrightarrow> matches base e \<and> str_le cur (stamp e)"
    and stamps: "\<And>e. e \<in> E \<Longrightarrow> stamp e \<in> C"
    and scan: "\<And>search c s. scan search c s = scan_stream search st base attrs body c s"
  shows "cursor_of c st \<in> C \<Longrightarrow> set (seen @ pend @ appended steps) \<subseteq> E \<Longrightarrow>
    (\<forall>e\<in>set (filter (matches base) seen). str_le (stamp e) (cursor_of c st)) \<Longrightarrow>
    (\<forall>e\<in>set (filter (matches base) (pend @ appended steps)). str_less (cursor_of c st) (stamp e)) \<Longrightarrow>
    sorted_wrt stamp_less (filter (matches base) (pend @ appended steps)) \<Longrightarrow>
    snd (scan_history scan matches steps (seen @ pend) c s) =
    snd (run_bodies body (filter (matches base) (delivered (ready_of c st) pend steps)) 0 s)"
proof (induction steps arbitrary: seen pend c s)
  case Nil
  then show ?case by simp
next
  case (Cons step steps)
  obtain new up where step: "step = (new, up)" by fastforce
  have app: "appended (step # steps) = new @ appended steps" by (simp add: appended_def step)
  define cur where "cur = cursor_of c st"
  note prems = Cons.prems [unfolded app, folded cur_def]
  show ?case
  proof (cases up)
    case False
    have f: "log_search matches (seen @ pend @ new) False (BuildIncrementalFilter base cur) attrs s =
        (Inl ''search failed'', s)" by (simp add: log_search_def)
    have "snd (scan_history scan matches steps (seen @ (pend @ new)) c s) =
        snd (run_bodies body (filter (matches base) (delivered (ready_of c st) (pend @ new) steps)) 0 s)"
      by (rule Cons.IH) (use prems in \<open>simp_all add: cur_def\<close>)
    moreover have "scan (log_search matches (seen @ pend @ new) False) c s = (Inl ''search failed'', c, s)"
      unfolding scan
      by (rule scan_stream_fail [where search = "log_search matches (seen @ pend @ new) False", OF f [unfolded cur_def]])
    ultimately show ?thesis using False by (simp add: step)
  next
    case True
    define es where "es = filter (matches (BuildIncrementalFilter base cur)) (seen @ pend @ new)"
    have f: "log_search matches (seen @ pend @ new) up (BuildIncrementalFilter base cur) attrs s = (Inr es, s)"
      using True by (simp add: log_search_def es_def)
    have es: "es = filter (\<lambda>e. matches base e \<and> str_le cur (stamp e)) (seen @ pend @ new)"
      unfolding es_def by (rule filter_cong [OF refl], rule law) (use prems in auto)
    have seen: "filter (\<lambda>e. stamp e \<noteq> [] \<and> stamp e \<noteq> cur)
        (filter (\<lambda>e. matches base e \<and> str_le cur (stamp e)) seen) = []"
    proof -
      have "stamp e = cur" if "e \<in> set seen" "matches base e" "str_le cur (stamp e)" for e
        using prems(3) that str_less_trans [of cur "stamp e" cur] by (auto simp: str_le_def)
      then show ?thesis by (auto simp: filter_empty_conv)
    qed
    have "str_less cur (stamp e) \<and> stamp e \<noteq> [] \<and> stamp e \<noteq> cur"
      if "e \<in> set (pend @ new)" "matches base e" for e
    proof -
      have "str_less cur (stamp e)" using that prems(4) by auto
      then show ?thesis by (metis str_less_Nil str_less_irrefl)
    qed
    then have pend: "filter (\<lambda>e. stamp e \<noteq> [] \<and> stamp e \<noteq> cur)
        (filter (\<lambda>e. matches base e \<and> str_le cur (stamp e)) (pend @ new)) = filter (matches base) (pend @ new)"
      unfolding filter_filter str_le_def by (intro filter_cong refl) blast
    have fr: "fresh_entries cur (\<not> ready_of c st) es =
        (if ready_of c st then filter (matches base) (pend @ new) else [])"
      using seen pend by (simp add: fresh_entries_def es)
    define cur' where "cur' = max_stamp cur es"
    obtain k s' where run: "run_bodies body (fresh_entries cur (\<not> ready_of c st) es) 0 s = (k, s')" by fastforce
    have scanned: "scan (log_search matches (seen @ pend @ new) up) c s = (Inr k, Advance c st cur', s')"
      using scan_stream_ok [where search = "log_search matches (seen @ pend @ new) up", OF f [unfolded cur_def], of body] run by (simp add: scan cur_def [symmetric] cur'_def)
    have es_set: "e \<in> set es \<longleftrightarrow> e \<in> set (seen @ pend @ new) \<and> matches base e \<and> str_le cur (stamp e)" for e
      by (auto simp: es)
    have cur'C: "cur' \<in> C"
      using max_stamp_member [of cur es] prems(1,2) stamps es_set unfolding cur'_def by fastforce
    have le: "str_le (stamp e) cur'" if "e \<in> set (filter (matches base) (seen @ pend @ new))" for e
    proof (cases "str_le cur (stamp e)")
      case True
      then show ?thesis using that es_set max_stamp_bounds(2) unfolding cur'_def by auto
    next
      case False
      then have "str_le (stamp e) cur" using str_less_linear [of cur "stamp e"] by (auto simp: str_le_def)
      then show ?thesis using max_stamp_bounds(1) str_le_trans unfolding cur'_def by blast
    qed
    have gt: "str_less cur' (stamp e)" if "e \<in> set (filter (matches base) (appended steps))" for e
    proof -
      have e: "str_less cur (stamp e)" using prems(4) that by auto
      consider "cur' = cur" | x where "x \<in> set es" "cur' = stamp x"
        using max_stamp_member [of cur es] unfolding cur'_def by blast
      then show ?thesis
      proof cases
        case (2 x)
        then consider "x \<in> set (filter (matches base) seen)" | "x \<in> set (filter (matches base) (pend @ new))"
          using es_set by auto
        then show ?thesis
        proof cases
          case 1
          then have "str_le (stamp x) cur" using prems(3) by blast
          then show ?thesis using e 2 str_le_less_trans by blast
        next
          case x: 2
          have "sorted_wrt stamp_less (filter (matches base) (pend @ new) @ filter (matches base) (appended steps))"
            using prems(5) by simp
          then show ?thesis using x that 2 unfolding sorted_wrt_append by blast
        qed
      qed (use e in simp)
    qed
    have "snd (scan_history scan matches steps ((seen @ pend @ new) @ []) (Advance c st cur') s') =
        snd (run_bodies body (filter (matches base) (delivered (ready_of (Advance c st cur') st) [] steps)) 0 s')"
      by (rule Cons.IH) (use prems(2,5) cur'C le gt in \<open>auto simp: sorted_wrt_append\<close>)
    moreover define F where "F = (if ready_of c st then filter (matches base) (pend @ new) else [])"
    moreover have "run_bodies body F 0 s = (k, s')" using run fr by (simp add: F_def)
    moreover have "filter (matches base) (delivered (ready_of c st) pend ((new, True) # steps)) =
        F @ filter (matches base) (delivered True [] steps)" by (simp add: F_def)
    ultimately show ?thesis
      using True scanned by (simp only: step run_bodies_append) (simp add: run_bodies_state [of _ _ k _ 0])
  qed
qed


lemma scan_history_above:
  assumes law: "\<And>cur e. cur \<in> C \<Longrightarrow> e \<in> E \<Longrightarrow>
        matches (BuildIncrementalFilter base cur) e \<longleftrightarrow> matches base e \<and> str_le cur (stamp e)"
    and stamps: "\<And>e. e \<in> E \<Longrightarrow> stamp e \<in> C"
    and scan: "\<And>search c s. scan search c s = scan_stream search st base attrs body c s"
  shows "cursor_of c st \<in> C \<Longrightarrow> set (db @ appended steps) \<subseteq> E \<Longrightarrow>
    \<exists>xs. snd (scan_history scan matches steps db c s) = snd (run_bodies body xs 0 s) \<and>
      (\<forall>x\<in>set xs. x \<in> set (db @ appended steps) \<and> str_less (cursor_of c st) (stamp x))"
proof (induction steps arbitrary: db c s)
  case Nil
  show ?case by (rule exI [of _ "[]"]) simp
next
  case (Cons step steps)
  obtain new up where step: "step = (new, up)" by fastforce
  have app: "appended (step # steps) = new @ appended steps" by (simp add: appended_def step)
  define cur where "cur = cursor_of c st"
  note prems = Cons.prems [unfolded app, folded cur_def]
  show ?case
  proof (cases up)
    case False
    have f: "log_search matches (db @ new) False (BuildIncrementalFilter base cur) attrs s =
        (Inl ''search failed'', s)" by (simp add: log_search_def)
    have "scan (log_search matches (db @ new) False) c s = (Inl ''search failed'', c, s)"
      unfolding scan
      by (rule scan_stream_fail [where search = "log_search matches (db @ new) False", OF f [unfolded cur_def]])
    then show ?thesis using Cons.IH [of c "db @ new" s] prems False by (simp add: step app cur_def)
  next
    case True
    define es where "es = filter (matches (BuildIncrementalFilter base cur)) (db @ new)"
    define fr where "fr = fresh_entries cur (\<not> ready_of c st) es"
    define cur' where "cur' = max_stamp cur es"
    have f: "log_search matches (db @ new) True (BuildIncrementalFilter base cur) attrs s = (Inr es, s)"
      by (simp add: log_search_def es_def)
    obtain k s' where run: "run_bodies body fr 0 s = (k, s')" by fastforce
    have scanned: "scan (log_search matches (db @ new) True) c s = (Inr k, Advance c st cur', s')"
      using scan_stream_ok [where search = "log_search matches (db @ new) True", OF f [unfolded cur_def], of body] run
      by (simp add: scan cur_def [symmetric] cur'_def fr_def)
    have es: "x \<in> set es \<longleftrightarrow> x \<in> set (db @ new) \<and> matches base x \<and> str_le cur (stamp x)" for x
      using law [of cur x] prems by (auto simp: es_def)
    have fr: "x \<in> set (db @ new) \<and> str_less cur (stamp x)" if "x \<in> set fr" for x
      using that es by (auto simp: fr_def fresh_entries_def str_le_def split: if_splits)
    have cur': "str_le cur cur'" "cur' \<in> C"
      using max_stamp_bounds(1) max_stamp_member [of cur es] prems stamps es unfolding cur'_def by fastforce+
    from Cons.IH [of "Advance c st cur'" "db @ new" s'] cur' prems
    obtain xs where xs: "snd (scan_history scan matches steps (db @ new) (Advance c st cur') s') =
        snd (run_bodies body xs 0 s')"
      "\<forall>x\<in>set xs. x \<in> set ((db @ new) @ appended steps) \<and> str_less cur' (stamp x)" by auto
    show ?thesis
    proof (intro exI conjI)
      show "snd (scan_history scan matches (step # steps) db c s) = snd (run_bodies body (fr @ xs) 0 s)"
        using True scanned run xs(1)
        by (simp only: step run_bodies_append) (simp add: run_bodies_state [of _ _ k _ 0])
      show "\<forall>x\<in>set (fr @ xs). x \<in> set (db @ appended (step # steps)) \<and> str_less (cursor_of c st) (stamp x)"
        using fr xs(2) str_le_less_trans [OF cur'(1)] by (auto simp: app cur_def)
    qed
  qed
qed

subsection \<open>Stamps with a fraction of any length\<close>

text \<open>The fourteen digits of a stamp, and the microseconds its fraction stands for.\<close>

definition stamp_seconds :: "time \<Rightarrow> string" where
  "stamp_seconds t =
     (let c = civil_of t
      in digits 4 (c_year c) @ digits 2 (c_month c) @ digits 2 (c_day c) @ digits 2 (c_hour c) @
         digits 2 (c_min c) @ digits 2 (c_sec c))"

definition fraction_micros :: "string \<Rightarrow> int" where
  "fraction_micros digs = digits_val (take 6 (digs @ replicate 6 CHR ''0''))"

lemma IndexByte_app: "c \<notin> set a \<Longrightarrow> IndexByte (a @ c # s) c = int (length a)"
  by (induction a) (auto simp: Let_def)

lemma digits_val_bounds: "list_all is_digit ds \<Longrightarrow> 0 \<le> digits_val ds \<and> digits_val ds < 10 ^ length ds"
proof (induction ds rule: rev_induct)
  case Nil
  then show ?case by (simp add: digits_val_def)
next
  case (snoc c ds)
  then have "0 \<le> digit_val c" "digit_val c < 10" by (auto simp: is_digit_def digit_val_def Let_def)
  then show ?case using snoc by (auto simp: digits_val_snoc)
qed

lemma num_app: "list_all is_digit ds \<Longrightarrow> length ds = w \<Longrightarrow> num w (ds @ s) = Some (digits_val ds, s)"
  by (auto simp: num_def)

lemma digit_not_mark: "list_all is_digit ds \<Longrightarrow> c = CHR ''.'' \<or> c = CHR ''Z'' \<or> c = CHR ''#'' \<Longrightarrow> c \<notin> set ds"
  by (auto simp: list_all_iff is_digit_def Let_def)

lemma stamp_seconds_digits: "list_all is_digit (stamp_seconds t)" "length (stamp_seconds t) = 14"
  by (simp_all add: stamp_seconds_def Let_def digits_are_digits)

lemma parse_stamp:
  assumes "stampable t" "second dvd t" "list_all is_digit f" "length f = 6"
  shows "parse_time True True (stamp_seconds t @ ''.'' @ f @ ''Z'') = Some (t + digits_val f * 1000)"
proof -
  note f = stampable_fields [OF assms(1)]
  define c where "c = civil_of t"
  note f = f [folded c_def]
  have t: "civil_time c = t" using assms civil_of_correct(2) by (simp add: stampable_def c_def)
  have n: "c_nsec c = 0" using assms(2) by (simp add: c_def civil_of_def Let_def split: prod.splits)
  have b: "0 \<le> digits_val f" "digits_val f < 10 ^ 6" using digits_val_bounds [OF assms(3)] assms(4) by simp_all
  have ok: "civil_ok (c\<lparr>c_nsec := digits_val f * 1000\<rparr>)" using f(1) b by (simp add: civil_ok_def second_def)
  have v: "civil_time (c\<lparr>c_nsec := digits_val f * 1000\<rparr>) = t + digits_val f * 1000"
    using t n by (simp add: civil_time_def civil_days_def)
  define R where "R = ''.'' @ f @ ''Z''"
  have digs: "parse_fraction True R = Some (digits_val f * 1000, ''Z'')"
    using assms(3,4) by (simp add: R_def parse_fraction_def comma_or_period_def num_app fraction_ns_def)
  have e: "c\<lparr>c_nsec := n\<rparr> = \<lparr>c_year = c_year c, c_month = c_month c, c_day = c_day c, c_hour = c_hour c,
      c_min = c_min c, c_sec = c_sec c, c_nsec = n\<rparr>" for n by simp
  show ?thesis
    unfolding parse_time_def stamp_seconds_def Let_def c_def [symmetric] R_def [symmetric]
    using f ok v unfolding e by (simp add: num_digits digs)
qed

lemma padded_fraction:
  assumes "list_all is_digit digs"
  shows "list_all is_digit (take 6 (digs @ replicate 6 CHR ''0''))"
    and "length (take 6 (digs @ replicate 6 CHR ''0'')) = 6"
    and "(if 6 \<le> length digs then take 6 digs else digs @ replicate (6 - length digs) CHR ''0'') =
         take 6 (digs @ replicate 6 CHR ''0'')"
    and "take 6 (digs @ replicate (6 - length digs) CHR ''0'') = take 6 (digs @ replicate 6 CHR ''0'')"
proof -
  have "list_all is_digit (digs @ replicate 6 CHR ''0'')" using assms by (auto simp: list_all_iff is_digit_def)
  then show "list_all is_digit (take 6 (digs @ replicate 6 CHR ''0''))"
    unfolding list_all_iff using set_take_subset by fastforce
qed (auto simp: min_def)

lemma normalize_stamp:
  assumes "list_all is_digit a" "list_all is_digit digs"
  shows "normalizeGeneralizedTime (a @ ''.'' @ digs @ ''Z'') =
    a @ ''.'' @ take 6 (digs @ replicate 6 CHR ''0'') @ ''Z''"
proof -
  define v where "v = a @ ''.'' @ digs"
  have w: "a @ ''.'' @ digs @ ''Z'' = v @ ''Z''" by (simp add: v_def)
  have suf: "HasSuffix (v @ ''Z'') ''Z''" "TrimSuffix (v @ ''Z'') ''Z'' = v"
    by (simp_all add: HasSuffix_def TrimSuffix_def)
  have dot: "IndexByte v CHR ''.'' = int (length a)"
    unfolding v_def using IndexByte_app digit_not_mark [OF assms(1)] by simp
  have parts: "take (nat (int (length a))) v = a" "drop (nat (int (length a)) + 1) v = digs"
    by (simp_all add: v_def)
  show ?thesis
    unfolding w normalizeGeneralizedTime_def Let_def
    by (simp only: suf if_True dot parts padded_fraction(3) [OF assms(2)]) simp
qed

lemma csn_time_stamp:
  assumes "list_all is_digit a" "list_all is_digit digs"
    and "parse_time True True (a @ ''.'' @ take 6 (digs @ replicate 6 CHR ''0'') @ ''Z'') = Some t"
  shows "csn_time (a @ ''.'' @ digs @ ''Z'') = Some (Inr t)"
proof -
  have d: "IndexByte (a @ ''.'' @ digs @ ''Z'') CHR ''.'' = int (length a)"
    using IndexByte_app [of "CHR ''.''" a] digit_not_mark [OF assms(1)] by simp
  have "CHR ''Z'' \<notin> set (a @ ''.'' @ digs)"
    using digit_not_mark [OF assms(1)] digit_not_mark [OF assms(2)] by simp
  then have z: "IndexByte (a @ ''.'' @ digs @ ''Z'') CHR ''Z'' = int (length a + 1 + length digs)"
    using IndexByte_app [of "CHR ''Z''" "a @ ''.'' @ digs" "[]"] by simp
  have n: "nat (int (length a) + 1) = Suc (length a)" by simp
  show ?thesis
    unfolding csn_time_def d z Let_def using assms(3) padded_fraction(4) [OF assms(2)] by (simp add: n)
qed

lemma SplitN_sep:
  "sep \<notin> set a \<Longrightarrow> SplitN (a @ sep # b) sep (Suc (Suc n)) = a # SplitN b sep (Suc n)"
proof -
  assume "sep \<notin> set a"
  then have "takeWhile (\<lambda>c. c \<noteq> sep) (a @ sep # b) = a" "dropWhile (\<lambda>c. c \<noteq> sep) (a @ sep # b) = sep # b"
    by (induction a) auto
  then show ?thesis by (simp add: Let_def)
qed

text \<open>C37.
  The accesslog parser and the CSN parser read the same instant out of the same stamp, whatever
  the number of digits of its fraction: the second the date names plus the first six digits,
  padded with zeros; what is beyond the microsecond is cut off. The server id of a CSN is its
  third component.
\<close>

theorem stamps_parse_exactly:
  assumes "stampable t" and "second dvd t" and "list_all is_digit digs"
    and "CHR ''#'' \<notin> set changes" and "CHR ''#'' \<notin> set sid"
  shows "ParseGeneralizedTime (stamp_seconds t @ ''.'' @ digs @ ''Z'') = Some (t + fraction_micros digs * 1000) \<and>
    csn_Parse (stamp_seconds t @ ''.'' @ digs @ ''Z#'' @ changes @ ''#'' @ sid @ ''#'' @ mods) =
      Some (Inr (t + fraction_micros digs * 1000, sid))"
proof -
  define f where "f = take 6 (digs @ replicate 6 CHR ''0'')"
  note p = padded_fraction [OF assms(3), folded f_def]
  have parse: "parse_time True True (stamp_seconds t @ ''.'' @ f @ ''Z'') = Some (t + fraction_micros digs * 1000)"
    using parse_stamp [OF assms(1,2) p(1,2)] by (simp add: fraction_micros_def f_def)
  note a = stamp_seconds_digits(1) [of t]
  have 1: "ParseGeneralizedTime (stamp_seconds t @ ''.'' @ digs @ ''Z'') = Some (t + fraction_micros digs * 1000)"
    unfolding ParseGeneralizedTime_def Let_def normalize_stamp [OF a assms(3)] f_def [symmetric] parse by simp
  define st where "st = stamp_seconds t @ ''.'' @ digs @ ''Z''"
  have h: "CHR ''#'' \<notin> set st"
    using digit_not_mark [OF a] digit_not_mark [OF assms(3)] by (simp add: st_def)
  have r: "stamp_seconds t @ ''.'' @ digs @ ''Z#'' @ changes @ ''#'' @ sid @ ''#'' @ mods =
      st @ CHR ''#'' # changes @ CHR ''#'' # sid @ CHR ''#'' # mods" by (simp add: st_def)
  have "SplitN (st @ CHR ''#'' # changes @ CHR ''#'' # sid @ CHR ''#'' # mods) CHR ''#'' 4 = [st, changes, sid, mods]"
    using SplitN_sep [OF h] SplitN_sep [OF assms(4)] SplitN_sep [OF assms(5)]
    by (simp add: numeral_eq_Suc del: SplitN.simps(3))
  moreover have "csn_time st = Some (Inr (t + fraction_micros digs * 1000))"
    unfolding st_def by (rule csn_time_stamp [OF a assms(3) parse [unfolded f_def]])
  ultimately show ?thesis using 1 unfolding r by (simp add: csn_Parse_def)
qed

lemma stamps_parse_exactly_witness:
  "ParseGeneralizedTime (stamp_seconds 0 @ ''.'' @ ''1234567'' @ ''Z'') = Some (0 + fraction_micros ''1234567'' * 1000)"
proof -
  have "civil_of 0 = \<lparr>c_year = 1, c_month = 1, c_day = 1, c_hour = 0, c_min = 0, c_sec = 0, c_nsec = 0\<rparr>"
    by code_simp
  then have "stampable 0" by (simp add: stampable_def)
  moreover have "list_all is_digit ''1234567''" by code_simp
  ultimately show ?thesis using stamps_parse_exactly [of 0 "''1234567''" "[]" "[]"] by simp
qed

text \<open>A value whose Z comes before its dot makes the CSN parser panic.\<close>

lemma csn_parse_panics: "csn_Parse ''20260101000000Z.5#000000#001#000000'' = None"
  by code_simp

end
