(* ===== verification/Metrics.thy ===== *)
theory Metrics
  imports GoStrings
begin

section \<open>The metric vectors\<close>

text \<open>
  pkg/metrics/metrics.go: the vectors the exporter publishes, with their full names and label
  names (the help texts and the histogram buckets are left out). The Prometheus client is not
  code of this repository: the exporter's effect on it is the sequence of calls it makes.
  \<open>call_ok\<close> is its documented precondition, a violation of which panics: the kind of the vector
  and exactly its label names. \<open>published\<close> reads a vector's current value off the calls.
\<close>

datatype vec_kind = Gauge | Counter | Histogram

record vec_desc =
  vec_kind :: vec_kind
  vec_name :: string
  vec_labels :: "string list"

text \<open>A series is chosen by a map from label names to values or by the values in order.\<close>

type_synonym Labels = "(string \<times> string) list"

datatype label_arg = With Labels | WithLabelValues "string list"

datatype 'm vec_call =
    GaugeSet 'm label_arg float64
  | CounterAdd 'm label_arg float64
  | Observe 'm label_arg duration
  | DeleteSeries 'm Labels
  | DeletePartialMatch 'm Labels
  | ResetVec 'm

definition CounterInc :: "'m \<Rightarrow> label_arg \<Rightarrow> 'm vec_call" where
  "CounterInc m l = CounterAdd m l (f_of_int 1)"

text \<open>\<open>Duration.Seconds\<close>: Go divides towards zero.\<close>

definition duration_Seconds :: "duration \<Rightarrow> float64" where
  "duration_Seconds d =
     (let sg = (if d < 0 then - 1 else 1); sec = sg * (\<bar>d\<bar> div second); nsec = sg * (\<bar>d\<bar> mod second)
      in f_add (f_of_int sec) (f_div (f_of_int nsec) (f_of_int second)))"

lemma f_lt_one_zero [simp]: "\<not> f_lt (f_of_int 1) (f_of_int 0)" "\<not> f_lt (f_of_int 0) (f_of_int 0)"
  by (simp_all add: f_of_int_exact exact_int_def)

definition labels_fit :: "vec_desc \<Rightarrow> label_arg \<Rightarrow> bool" where
  "labels_fit d l =
     (case l of
        With ls \<Rightarrow> distinct (map fst ls) \<and> set (map fst ls) = set (vec_labels d)
      | WithLabelValues vs \<Rightarrow> length vs = length (vec_labels d))"

fun call_ok :: "('m \<times> vec_desc) list \<Rightarrow> 'm vec_call \<Rightarrow> bool" where
  "call_ok T (GaugeSet m l v) = (case map_of T m of Some d \<Rightarrow> vec_kind d = Gauge \<and> labels_fit d l | None \<Rightarrow> False)"
| "call_ok T (CounterAdd m l v) =
     (case map_of T m of Some d \<Rightarrow> vec_kind d = Counter \<and> labels_fit d l \<and> \<not> f_lt v (f_of_int 0) | None \<Rightarrow> False)"
| "call_ok T (Observe m l d') = (case map_of T m of Some d \<Rightarrow> vec_kind d = Histogram \<and> labels_fit d l | None \<Rightarrow> False)"
| "call_ok T (DeleteSeries m ls) = (map_of T m \<noteq> None)"
| "call_ok T (DeletePartialMatch m ls) = (map_of T m \<noteq> None)"
| "call_ok T (ResetVec m) = (map_of T m \<noteq> None)"

subsection \<open>The vectors\<close>

datatype metric =
    ConnectionsCurrent
  | ConnectionsTotal
  | BytesTotal
  | PduTotal
  | ReferralsTotal
  | EntriesTotal
  | ThreadsMax
  | ThreadsMaxPending
  | ThreadsBackload
  | ThreadsActive
  | ThreadsOpen
  | ThreadsStarting
  | ThreadsPending
  | ThreadsState
  | OperationsInitiated
  | OperationsCompleted
  | WaitersRead
  | WaitersWrite
  | OverlaysInfo
  | ServerTime
  | ServerUptime
  | TlsInfo
  | TlsCertNotAfter
  | BackendsInfo
  | ListenersInfo
  | DatabaseEntries
  | DatabaseInfo
  | DatabaseMDBPagesUsed
  | DatabaseMDBPagesMax
  | DatabaseMDBPagesFree
  | DatabaseMDBReadersUsed
  | DatabaseMDBReadersMax
  | HealthStatus
  | ResponseTime
  | ScrapeErrors
  | Up
  | ServerInfo
  | LogLevels
  | SaslInfo
  | ReplicationCSN
  | ReplicationLag
  | ReplicationMultiProvider
  | ReplicationConfiguredPeers
  | ReplicationPeerUp
  | ReplicationPeerCSN
  | ReplicationPeerLag
  | ConnectionsByProtocol
  | ConnectionOpsAggregate
  | SupportedControlInfo
  | PpolicyPwdChangedTimestamp
  | PpolicyPwdLastSuccess
  | PpolicyPwdGraceUseCount
  | PpolicyPwdReset
  | AccesslogBindTotal
  | AccesslogWriteTotal
  | AccesslogLockEventsTotal

definition monitor_vecs :: "(metric \<times> vec_desc) list" where
  "monitor_vecs =
    [(ConnectionsCurrent, \<lparr>vec_kind = Gauge, vec_name = ''openldap_connections_current'', vec_labels = [''server'']\<rparr>),
     (ConnectionsTotal, \<lparr>vec_kind = Counter, vec_name = ''openldap_connections_total'', vec_labels = [''server'']\<rparr>),
     (BytesTotal, \<lparr>vec_kind = Counter, vec_name = ''openldap_bytes_total'', vec_labels = [''server'']\<rparr>),
     (PduTotal, \<lparr>vec_kind = Counter, vec_name = ''openldap_pdu_total'', vec_labels = [''server'']\<rparr>),
     (ReferralsTotal, \<lparr>vec_kind = Counter, vec_name = ''openldap_referrals_total'', vec_labels = [''server'']\<rparr>),
     (EntriesTotal, \<lparr>vec_kind = Counter, vec_name = ''openldap_entries_total'', vec_labels = [''server'']\<rparr>),
     (ThreadsMax, \<lparr>vec_kind = Gauge, vec_name = ''openldap_threads_max'', vec_labels = [''server'']\<rparr>),
     (ThreadsMaxPending, \<lparr>vec_kind = Gauge, vec_name = ''openldap_threads_max_pending'', vec_labels = [''server'']\<rparr>),
     (ThreadsBackload, \<lparr>vec_kind = Gauge, vec_name = ''openldap_threads_backload'', vec_labels = [''server'']\<rparr>),
     (ThreadsActive, \<lparr>vec_kind = Gauge, vec_name = ''openldap_threads_active'', vec_labels = [''server'']\<rparr>),
     (ThreadsOpen, \<lparr>vec_kind = Gauge, vec_name = ''openldap_threads_open'', vec_labels = [''server'']\<rparr>),
     (ThreadsStarting, \<lparr>vec_kind = Gauge, vec_name = ''openldap_threads_starting'', vec_labels = [''server'']\<rparr>),
     (ThreadsPending, \<lparr>vec_kind = Gauge, vec_name = ''openldap_threads_pending'', vec_labels = [''server'']\<rparr>),
     (ThreadsState, \<lparr>vec_kind = Gauge, vec_name = ''openldap_threads_state'', vec_labels = [''server'', ''state'']\<rparr>),
     (OperationsInitiated, \<lparr>vec_kind = Counter, vec_name = ''openldap_operations_initiated_total'', vec_labels = [''server'', ''operation'']\<rparr>),
     (OperationsCompleted, \<lparr>vec_kind = Counter, vec_name = ''openldap_operations_completed_total'', vec_labels = [''server'', ''operation'']\<rparr>)]"

definition database_vecs :: "(metric \<times> vec_desc) list" where
  "database_vecs =
    [(WaitersRead, \<lparr>vec_kind = Gauge, vec_name = ''openldap_waiters_read'', vec_labels = [''server'']\<rparr>),
     (WaitersWrite, \<lparr>vec_kind = Gauge, vec_name = ''openldap_waiters_write'', vec_labels = [''server'']\<rparr>),
     (OverlaysInfo, \<lparr>vec_kind = Gauge, vec_name = ''openldap_overlays_info'', vec_labels = [''server'', ''overlay'', ''status'']\<rparr>),
     (ServerTime, \<lparr>vec_kind = Gauge, vec_name = ''openldap_server_time'', vec_labels = [''server'']\<rparr>),
     (ServerUptime, \<lparr>vec_kind = Gauge, vec_name = ''openldap_server_uptime_seconds'', vec_labels = [''server'']\<rparr>),
     (TlsInfo, \<lparr>vec_kind = Gauge, vec_name = ''openldap_tls_info'', vec_labels = [''server'', ''component'', ''status'']\<rparr>),
     (TlsCertNotAfter, \<lparr>vec_kind = Gauge, vec_name = ''openldap_tls_cert_not_after_timestamp_seconds'', vec_labels = [''server'', ''usage'', ''subject'', ''issuer'', ''serial'']\<rparr>),
     (BackendsInfo, \<lparr>vec_kind = Gauge, vec_name = ''openldap_backends_info'', vec_labels = [''server'', ''backend'', ''type'']\<rparr>),
     (ListenersInfo, \<lparr>vec_kind = Gauge, vec_name = ''openldap_listeners_info'', vec_labels = [''server'', ''listener'', ''address'']\<rparr>),
     (DatabaseEntries, \<lparr>vec_kind = Gauge, vec_name = ''openldap_database_entries'', vec_labels = [''server'', ''base_dn'', ''domain_component'']\<rparr>),
     (DatabaseMDBPagesUsed, \<lparr>vec_kind = Gauge, vec_name = ''openldap_database_mdb_pages_used'', vec_labels = [''server'', ''base_dn'']\<rparr>),
     (DatabaseMDBPagesMax, \<lparr>vec_kind = Gauge, vec_name = ''openldap_database_mdb_pages_max'', vec_labels = [''server'', ''base_dn'']\<rparr>),
     (DatabaseMDBPagesFree, \<lparr>vec_kind = Gauge, vec_name = ''openldap_database_mdb_pages_free'', vec_labels = [''server'', ''base_dn'']\<rparr>),
     (DatabaseMDBReadersUsed, \<lparr>vec_kind = Gauge, vec_name = ''openldap_database_mdb_readers_used'', vec_labels = [''server'', ''base_dn'']\<rparr>)]"

definition server_vecs :: "(metric \<times> vec_desc) list" where
  "server_vecs =
    [(DatabaseMDBReadersMax, \<lparr>vec_kind = Gauge, vec_name = ''openldap_database_mdb_readers_max'', vec_labels = [''server'', ''base_dn'']\<rparr>),
     (HealthStatus, \<lparr>vec_kind = Gauge, vec_name = ''openldap_health_status'', vec_labels = [''server'']\<rparr>),
     (ResponseTime, \<lparr>vec_kind = Histogram, vec_name = ''openldap_response_time_seconds'', vec_labels = [''server'']\<rparr>),
     (ScrapeErrors, \<lparr>vec_kind = Counter, vec_name = ''openldap_scrape_errors_total'', vec_labels = [''server'']\<rparr>),
     (Up, \<lparr>vec_kind = Gauge, vec_name = ''openldap_up'', vec_labels = [''server'']\<rparr>),
     (ServerInfo, \<lparr>vec_kind = Gauge, vec_name = ''openldap_server_info'', vec_labels = [''server'', ''version'', ''exporter_version'', ''description'']\<rparr>),
     (DatabaseInfo, \<lparr>vec_kind = Gauge, vec_name = ''openldap_database_info'', vec_labels = [''server'', ''base_dn'', ''is_shadow'', ''context'', ''readonly'']\<rparr>),
     (LogLevels, \<lparr>vec_kind = Gauge, vec_name = ''openldap_log_level_enabled'', vec_labels = [''server'', ''log_type'']\<rparr>),
     (SaslInfo, \<lparr>vec_kind = Gauge, vec_name = ''openldap_sasl_info'', vec_labels = [''server'', ''mechanism'', ''status'']\<rparr>),
     (ReplicationCSN, \<lparr>vec_kind = Gauge, vec_name = ''openldap_replication_csn_timestamp'', vec_labels = [''server'', ''base_dn'', ''server_id'']\<rparr>),
     (ReplicationLag, \<lparr>vec_kind = Gauge, vec_name = ''openldap_replication_lag_seconds'', vec_labels = [''server'', ''base_dn'', ''server_id'']\<rparr>),
     (ReplicationMultiProvider, \<lparr>vec_kind = Gauge, vec_name = ''openldap_replication_multi_provider'', vec_labels = [''server'', ''base_dn'']\<rparr>),
     (ReplicationConfiguredPeers, \<lparr>vec_kind = Gauge, vec_name = ''openldap_replication_configured_peers'', vec_labels = [''server'', ''base_dn'']\<rparr>),
     (ReplicationPeerUp, \<lparr>vec_kind = Gauge, vec_name = ''openldap_replication_peer_up'', vec_labels = [''peer'']\<rparr>),
     (ReplicationPeerCSN, \<lparr>vec_kind = Gauge, vec_name = ''openldap_replication_peer_csn_timestamp'', vec_labels = [''peer'', ''base_dn'', ''server_id'']\<rparr>)]"

definition user_vecs :: "(metric \<times> vec_desc) list" where
  "user_vecs =
    [(ReplicationPeerLag, \<lparr>vec_kind = Gauge, vec_name = ''openldap_replication_peer_lag_seconds'', vec_labels = [''peer'', ''base_dn'', ''server_id'']\<rparr>),
     (ConnectionsByProtocol, \<lparr>vec_kind = Gauge, vec_name = ''openldap_connections_by_protocol'', vec_labels = [''server'', ''protocol'']\<rparr>),
     (ConnectionOpsAggregate, \<lparr>vec_kind = Gauge, vec_name = ''openldap_connection_ops_aggregate'', vec_labels = [''server'', ''state'']\<rparr>),
     (SupportedControlInfo, \<lparr>vec_kind = Gauge, vec_name = ''openldap_supported_control_info'', vec_labels = [''server'', ''oid'']\<rparr>),
     (PpolicyPwdChangedTimestamp, \<lparr>vec_kind = Gauge, vec_name = ''openldap_ppolicy_pwd_changed_timestamp'', vec_labels = [''server'', ''user_dn'', ''user'', ''base_dn'']\<rparr>),
     (PpolicyPwdLastSuccess, \<lparr>vec_kind = Gauge, vec_name = ''openldap_ppolicy_pwd_last_success_timestamp'', vec_labels = [''server'', ''user_dn'', ''user'', ''base_dn'']\<rparr>),
     (PpolicyPwdGraceUseCount, \<lparr>vec_kind = Gauge, vec_name = ''openldap_ppolicy_pwd_grace_use_count'', vec_labels = [''server'', ''user_dn'', ''user'', ''base_dn'']\<rparr>),
     (PpolicyPwdReset, \<lparr>vec_kind = Gauge, vec_name = ''openldap_ppolicy_pwd_reset'', vec_labels = [''server'', ''user_dn'', ''user'', ''base_dn'']\<rparr>),
     (AccesslogBindTotal, \<lparr>vec_kind = Counter, vec_name = ''openldap_accesslog_bind_total'', vec_labels = [''server'', ''user'', ''result'']\<rparr>),
     (AccesslogWriteTotal, \<lparr>vec_kind = Counter, vec_name = ''openldap_accesslog_write_total'', vec_labels = [''server'', ''user'', ''operation'']\<rparr>),
     (AccesslogLockEventsTotal, \<lparr>vec_kind = Counter, vec_name = ''openldap_accesslog_account_lock_events_total'', vec_labels = [''server'', ''user'']\<rparr>)]"

definition NewOpenLDAPMetrics :: "(metric \<times> vec_desc) list" where
  "NewOpenLDAPMetrics = monitor_vecs @ database_vecs @ server_vecs @ user_vecs"

definition Collectors :: "metric list" where
  "Collectors =
    [ConnectionsCurrent, ConnectionsTotal, BytesTotal, PduTotal, ReferralsTotal, EntriesTotal,
     ThreadsMax, ThreadsMaxPending, ThreadsBackload, ThreadsActive, ThreadsOpen,
     ThreadsStarting, ThreadsPending, ThreadsState, OperationsInitiated, OperationsCompleted,
     WaitersRead, WaitersWrite, OverlaysInfo, ServerTime, ServerUptime, TlsInfo,
     TlsCertNotAfter, BackendsInfo, ListenersInfo, DatabaseEntries, DatabaseInfo,
     DatabaseMDBPagesUsed, DatabaseMDBPagesMax, DatabaseMDBPagesFree, DatabaseMDBReadersUsed,
     DatabaseMDBReadersMax, HealthStatus, ResponseTime, ScrapeErrors, Up, ServerInfo,
     LogLevels, SaslInfo, ReplicationCSN, ReplicationLag, ReplicationMultiProvider,
     ReplicationConfiguredPeers, ReplicationPeerUp, ReplicationPeerCSN, ReplicationPeerLag,
     ConnectionsByProtocol, ConnectionOpsAggregate, SupportedControlInfo,
     PpolicyPwdChangedTimestamp, PpolicyPwdLastSuccess, PpolicyPwdGraceUseCount,
     PpolicyPwdReset, AccesslogBindTotal, AccesslogWriteTotal, AccesslogLockEventsTotal]"

lemma metric_lookup [simp]:
  "map_of NewOpenLDAPMetrics ConnectionsCurrent = Some \<lparr>vec_kind = Gauge, vec_name = ''openldap_connections_current'', vec_labels = [''server'']\<rparr> \<and>
   map_of NewOpenLDAPMetrics ConnectionsTotal = Some \<lparr>vec_kind = Counter, vec_name = ''openldap_connections_total'', vec_labels = [''server'']\<rparr> \<and>
   map_of NewOpenLDAPMetrics BytesTotal = Some \<lparr>vec_kind = Counter, vec_name = ''openldap_bytes_total'', vec_labels = [''server'']\<rparr> \<and>
   map_of NewOpenLDAPMetrics PduTotal = Some \<lparr>vec_kind = Counter, vec_name = ''openldap_pdu_total'', vec_labels = [''server'']\<rparr> \<and>
   map_of NewOpenLDAPMetrics ReferralsTotal = Some \<lparr>vec_kind = Counter, vec_name = ''openldap_referrals_total'', vec_labels = [''server'']\<rparr> \<and>
   map_of NewOpenLDAPMetrics EntriesTotal = Some \<lparr>vec_kind = Counter, vec_name = ''openldap_entries_total'', vec_labels = [''server'']\<rparr> \<and>
   map_of NewOpenLDAPMetrics ThreadsMax = Some \<lparr>vec_kind = Gauge, vec_name = ''openldap_threads_max'', vec_labels = [''server'']\<rparr> \<and>
   map_of NewOpenLDAPMetrics ThreadsMaxPending = Some \<lparr>vec_kind = Gauge, vec_name = ''openldap_threads_max_pending'', vec_labels = [''server'']\<rparr> \<and>
   map_of NewOpenLDAPMetrics ThreadsBackload = Some \<lparr>vec_kind = Gauge, vec_name = ''openldap_threads_backload'', vec_labels = [''server'']\<rparr> \<and>
   map_of NewOpenLDAPMetrics ThreadsActive = Some \<lparr>vec_kind = Gauge, vec_name = ''openldap_threads_active'', vec_labels = [''server'']\<rparr> \<and>
   map_of NewOpenLDAPMetrics ThreadsOpen = Some \<lparr>vec_kind = Gauge, vec_name = ''openldap_threads_open'', vec_labels = [''server'']\<rparr> \<and>
   map_of NewOpenLDAPMetrics ThreadsStarting = Some \<lparr>vec_kind = Gauge, vec_name = ''openldap_threads_starting'', vec_labels = [''server'']\<rparr> \<and>
   map_of NewOpenLDAPMetrics ThreadsPending = Some \<lparr>vec_kind = Gauge, vec_name = ''openldap_threads_pending'', vec_labels = [''server'']\<rparr> \<and>
   map_of NewOpenLDAPMetrics ThreadsState = Some \<lparr>vec_kind = Gauge, vec_name = ''openldap_threads_state'', vec_labels = [''server'', ''state'']\<rparr> \<and>
   map_of NewOpenLDAPMetrics OperationsInitiated = Some \<lparr>vec_kind = Counter, vec_name = ''openldap_operations_initiated_total'', vec_labels = [''server'', ''operation'']\<rparr> \<and>
   map_of NewOpenLDAPMetrics OperationsCompleted = Some \<lparr>vec_kind = Counter, vec_name = ''openldap_operations_completed_total'', vec_labels = [''server'', ''operation'']\<rparr> \<and>
   map_of NewOpenLDAPMetrics WaitersRead = Some \<lparr>vec_kind = Gauge, vec_name = ''openldap_waiters_read'', vec_labels = [''server'']\<rparr> \<and>
   map_of NewOpenLDAPMetrics WaitersWrite = Some \<lparr>vec_kind = Gauge, vec_name = ''openldap_waiters_write'', vec_labels = [''server'']\<rparr> \<and>
   map_of NewOpenLDAPMetrics OverlaysInfo = Some \<lparr>vec_kind = Gauge, vec_name = ''openldap_overlays_info'', vec_labels = [''server'', ''overlay'', ''status'']\<rparr> \<and>
   map_of NewOpenLDAPMetrics ServerTime = Some \<lparr>vec_kind = Gauge, vec_name = ''openldap_server_time'', vec_labels = [''server'']\<rparr> \<and>
   map_of NewOpenLDAPMetrics ServerUptime = Some \<lparr>vec_kind = Gauge, vec_name = ''openldap_server_uptime_seconds'', vec_labels = [''server'']\<rparr> \<and>
   map_of NewOpenLDAPMetrics TlsInfo = Some \<lparr>vec_kind = Gauge, vec_name = ''openldap_tls_info'', vec_labels = [''server'', ''component'', ''status'']\<rparr> \<and>
   map_of NewOpenLDAPMetrics TlsCertNotAfter = Some \<lparr>vec_kind = Gauge, vec_name = ''openldap_tls_cert_not_after_timestamp_seconds'', vec_labels = [''server'', ''usage'', ''subject'', ''issuer'', ''serial'']\<rparr> \<and>
   map_of NewOpenLDAPMetrics BackendsInfo = Some \<lparr>vec_kind = Gauge, vec_name = ''openldap_backends_info'', vec_labels = [''server'', ''backend'', ''type'']\<rparr> \<and>
   map_of NewOpenLDAPMetrics ListenersInfo = Some \<lparr>vec_kind = Gauge, vec_name = ''openldap_listeners_info'', vec_labels = [''server'', ''listener'', ''address'']\<rparr> \<and>
   map_of NewOpenLDAPMetrics DatabaseEntries = Some \<lparr>vec_kind = Gauge, vec_name = ''openldap_database_entries'', vec_labels = [''server'', ''base_dn'', ''domain_component'']\<rparr> \<and>
   map_of NewOpenLDAPMetrics DatabaseMDBPagesUsed = Some \<lparr>vec_kind = Gauge, vec_name = ''openldap_database_mdb_pages_used'', vec_labels = [''server'', ''base_dn'']\<rparr> \<and>
   map_of NewOpenLDAPMetrics DatabaseMDBPagesMax = Some \<lparr>vec_kind = Gauge, vec_name = ''openldap_database_mdb_pages_max'', vec_labels = [''server'', ''base_dn'']\<rparr> \<and>
   map_of NewOpenLDAPMetrics DatabaseMDBPagesFree = Some \<lparr>vec_kind = Gauge, vec_name = ''openldap_database_mdb_pages_free'', vec_labels = [''server'', ''base_dn'']\<rparr> \<and>
   map_of NewOpenLDAPMetrics DatabaseMDBReadersUsed = Some \<lparr>vec_kind = Gauge, vec_name = ''openldap_database_mdb_readers_used'', vec_labels = [''server'', ''base_dn'']\<rparr> \<and>
   map_of NewOpenLDAPMetrics DatabaseMDBReadersMax = Some \<lparr>vec_kind = Gauge, vec_name = ''openldap_database_mdb_readers_max'', vec_labels = [''server'', ''base_dn'']\<rparr> \<and>
   map_of NewOpenLDAPMetrics HealthStatus = Some \<lparr>vec_kind = Gauge, vec_name = ''openldap_health_status'', vec_labels = [''server'']\<rparr> \<and>
   map_of NewOpenLDAPMetrics ResponseTime = Some \<lparr>vec_kind = Histogram, vec_name = ''openldap_response_time_seconds'', vec_labels = [''server'']\<rparr> \<and>
   map_of NewOpenLDAPMetrics ScrapeErrors = Some \<lparr>vec_kind = Counter, vec_name = ''openldap_scrape_errors_total'', vec_labels = [''server'']\<rparr> \<and>
   map_of NewOpenLDAPMetrics Up = Some \<lparr>vec_kind = Gauge, vec_name = ''openldap_up'', vec_labels = [''server'']\<rparr> \<and>
   map_of NewOpenLDAPMetrics ServerInfo = Some \<lparr>vec_kind = Gauge, vec_name = ''openldap_server_info'', vec_labels = [''server'', ''version'', ''exporter_version'', ''description'']\<rparr> \<and>
   map_of NewOpenLDAPMetrics DatabaseInfo = Some \<lparr>vec_kind = Gauge, vec_name = ''openldap_database_info'', vec_labels = [''server'', ''base_dn'', ''is_shadow'', ''context'', ''readonly'']\<rparr> \<and>
   map_of NewOpenLDAPMetrics LogLevels = Some \<lparr>vec_kind = Gauge, vec_name = ''openldap_log_level_enabled'', vec_labels = [''server'', ''log_type'']\<rparr> \<and>
   map_of NewOpenLDAPMetrics SaslInfo = Some \<lparr>vec_kind = Gauge, vec_name = ''openldap_sasl_info'', vec_labels = [''server'', ''mechanism'', ''status'']\<rparr> \<and>
   map_of NewOpenLDAPMetrics ReplicationCSN = Some \<lparr>vec_kind = Gauge, vec_name = ''openldap_replication_csn_timestamp'', vec_labels = [''server'', ''base_dn'', ''server_id'']\<rparr> \<and>
   map_of NewOpenLDAPMetrics ReplicationLag = Some \<lparr>vec_kind = Gauge, vec_name = ''openldap_replication_lag_seconds'', vec_labels = [''server'', ''base_dn'', ''server_id'']\<rparr> \<and>
   map_of NewOpenLDAPMetrics ReplicationMultiProvider = Some \<lparr>vec_kind = Gauge, vec_name = ''openldap_replication_multi_provider'', vec_labels = [''server'', ''base_dn'']\<rparr> \<and>
   map_of NewOpenLDAPMetrics ReplicationConfiguredPeers = Some \<lparr>vec_kind = Gauge, vec_name = ''openldap_replication_configured_peers'', vec_labels = [''server'', ''base_dn'']\<rparr> \<and>
   map_of NewOpenLDAPMetrics ReplicationPeerUp = Some \<lparr>vec_kind = Gauge, vec_name = ''openldap_replication_peer_up'', vec_labels = [''peer'']\<rparr> \<and>
   map_of NewOpenLDAPMetrics ReplicationPeerCSN = Some \<lparr>vec_kind = Gauge, vec_name = ''openldap_replication_peer_csn_timestamp'', vec_labels = [''peer'', ''base_dn'', ''server_id'']\<rparr> \<and>
   map_of NewOpenLDAPMetrics ReplicationPeerLag = Some \<lparr>vec_kind = Gauge, vec_name = ''openldap_replication_peer_lag_seconds'', vec_labels = [''peer'', ''base_dn'', ''server_id'']\<rparr> \<and>
   map_of NewOpenLDAPMetrics ConnectionsByProtocol = Some \<lparr>vec_kind = Gauge, vec_name = ''openldap_connections_by_protocol'', vec_labels = [''server'', ''protocol'']\<rparr> \<and>
   map_of NewOpenLDAPMetrics ConnectionOpsAggregate = Some \<lparr>vec_kind = Gauge, vec_name = ''openldap_connection_ops_aggregate'', vec_labels = [''server'', ''state'']\<rparr> \<and>
   map_of NewOpenLDAPMetrics SupportedControlInfo = Some \<lparr>vec_kind = Gauge, vec_name = ''openldap_supported_control_info'', vec_labels = [''server'', ''oid'']\<rparr> \<and>
   map_of NewOpenLDAPMetrics PpolicyPwdChangedTimestamp = Some \<lparr>vec_kind = Gauge, vec_name = ''openldap_ppolicy_pwd_changed_timestamp'', vec_labels = [''server'', ''user_dn'', ''user'', ''base_dn'']\<rparr> \<and>
   map_of NewOpenLDAPMetrics PpolicyPwdLastSuccess = Some \<lparr>vec_kind = Gauge, vec_name = ''openldap_ppolicy_pwd_last_success_timestamp'', vec_labels = [''server'', ''user_dn'', ''user'', ''base_dn'']\<rparr> \<and>
   map_of NewOpenLDAPMetrics PpolicyPwdGraceUseCount = Some \<lparr>vec_kind = Gauge, vec_name = ''openldap_ppolicy_pwd_grace_use_count'', vec_labels = [''server'', ''user_dn'', ''user'', ''base_dn'']\<rparr> \<and>
   map_of NewOpenLDAPMetrics PpolicyPwdReset = Some \<lparr>vec_kind = Gauge, vec_name = ''openldap_ppolicy_pwd_reset'', vec_labels = [''server'', ''user_dn'', ''user'', ''base_dn'']\<rparr> \<and>
   map_of NewOpenLDAPMetrics AccesslogBindTotal = Some \<lparr>vec_kind = Counter, vec_name = ''openldap_accesslog_bind_total'', vec_labels = [''server'', ''user'', ''result'']\<rparr> \<and>
   map_of NewOpenLDAPMetrics AccesslogWriteTotal = Some \<lparr>vec_kind = Counter, vec_name = ''openldap_accesslog_write_total'', vec_labels = [''server'', ''user'', ''operation'']\<rparr> \<and>
   map_of NewOpenLDAPMetrics AccesslogLockEventsTotal = Some \<lparr>vec_kind = Counter, vec_name = ''openldap_accesslog_account_lock_events_total'', vec_labels = [''server'', ''user'']\<rparr>"
proof -
  define F where "F = map_of NewOpenLDAPMetrics"
  have "list_all (\<lambda>(m, d). map_of NewOpenLDAPMetrics m = Some d) NewOpenLDAPMetrics" by code_simp
  then have "list_all (\<lambda>(m, d). F m = Some d) NewOpenLDAPMetrics" by (simp only: F_def)
  then show ?thesis
    unfolding F_def [symmetric] by (simp only: NewOpenLDAPMetrics_def monitor_vecs_def database_vecs_def server_vecs_def user_vecs_def append.simps list.pred_inject prod.case simp_thms)
qed

subsection \<open>Reading the calls\<close>

definition series_of :: "('m \<times> vec_desc) list \<Rightarrow> 'm \<Rightarrow> label_arg \<Rightarrow> (string \<times> string) set" where
  "series_of T m l =
     (case l of
        With ls \<Rightarrow> set ls
      | WithLabelValues vs \<Rightarrow>
          (case map_of T m of None \<Rightarrow> {} | Some d \<Rightarrow> set (zip (vec_labels d) vs)))"

definition apply_call ::
  "('m \<times> vec_desc) list \<Rightarrow> 'm vec_call \<Rightarrow> ('m \<Rightarrow> (string \<times> string) set \<Rightarrow> float64 option)
     \<Rightarrow> 'm \<Rightarrow> (string \<times> string) set \<Rightarrow> float64 option" where
  "apply_call T c P =
     (\<lambda>m s. case c of
        GaugeSet m' l v \<Rightarrow> if m = m' \<and> s = series_of T m' l then Some v else P m s
      | CounterAdd m' l v \<Rightarrow>
          if m = m' \<and> s = series_of T m' l
          then Some (case P m s of None \<Rightarrow> f_add (f_of_int 0) v | Some u \<Rightarrow> f_add u v) else P m s
      | Observe m' l d \<Rightarrow> P m s
      | DeleteSeries m' ls \<Rightarrow> if m = m' \<and> s = set ls then None else P m s
      | DeletePartialMatch m' ls \<Rightarrow> if m = m' \<and> set ls \<subseteq> s then None else P m s
      | ResetVec m' \<Rightarrow> if m = m' then None else P m s)"

definition published ::
  "('m \<times> vec_desc) list \<Rightarrow> 'm vec_call list \<Rightarrow> 'm \<Rightarrow> (string \<times> string) set \<Rightarrow> float64 option" where
  "published T cs = fold (apply_call T) cs (\<lambda>m s. None)"

lemma published_Nil [simp]: "published T [] = (\<lambda>m s. None)"
  by (simp add: published_def)

lemma published_snoc [simp]: "published T (cs @ [c]) = apply_call T c (published T cs)"
  by (simp add: published_def)

lemma published_append: "published T (cs @ ds) = fold (apply_call T) ds (published T cs)"
  by (simp add: published_def)


subsection \<open>The registry\<close>

lemma in_Collectors: "m \<in> set Collectors"
  by (cases m) (simp_all add: Collectors_def)

lemma all_described: "m \<in> set (map fst NewOpenLDAPMetrics)"
proof -
  have "list_all (\<lambda>m. List.member (map fst NewOpenLDAPMetrics) m) Collectors" by code_simp
  then show ?thesis using in_Collectors [of m] by (auto simp: list_all_iff)
qed

text \<open>
  Every vector is built once, under a name of its own and with distinct labels, and the list the
  exporter describes and collects from holds every vector exactly once.
\<close>

theorem registry_is_complete:
  "(\<forall>m. m \<in> set Collectors) \<and> distinct Collectors \<and>
   set (map fst NewOpenLDAPMetrics) = set Collectors \<and> distinct (map fst NewOpenLDAPMetrics) \<and>
   distinct (map (\<lambda>x. vec_name (snd x)) NewOpenLDAPMetrics) \<and>
   list_all (\<lambda>x. distinct (vec_labels (snd x))) NewOpenLDAPMetrics"
proof -
  have "m \<in> set Collectors" for m by (rule in_Collectors)
  moreover have "distinct Collectors" by code_simp
  moreover have "set (map fst NewOpenLDAPMetrics) \<subseteq> set Collectors" using calculation(1) by blast
  moreover have "m \<in> set (map fst NewOpenLDAPMetrics)" for m
    by (rule all_described)
  moreover have "distinct (map fst NewOpenLDAPMetrics)" by code_simp
  moreover have "distinct (map (\<lambda>x. vec_name (snd x)) NewOpenLDAPMetrics)" by code_simp
  moreover have "list_all (\<lambda>x. distinct (vec_labels (snd x))) NewOpenLDAPMetrics" by code_simp
  ultimately show ?thesis by blast
qed

end
