(* ===== verification/SeriesTracker.thy ===== *)
theory SeriesTracker
  imports Metrics "HOL-Library.AList"
begin

section \<open>The bounded set of accesslog series\<close>

text \<open>
  pkg/exporter/accesslog_tracker.go: the table of label tuples that bounds the series of one
  accesslog counter, and its sweeper. A tracker's effect on its vector is a list of calls. The
  two halves of \<open>Inc\<close> and of \<open>Sweep\<close> (under the lock, then the call on the vector) are separate
  definitions because other goroutines can run between them.
\<close>

subsection \<open>Keys\<close>

fun insert_label :: "string \<times> string \<Rightarrow> Labels \<Rightarrow> Labels" where
  "insert_label x [] = [x]"
| "insert_label x (y # ys) = (if str_le (fst x) (fst y) then x # y # ys else y # insert_label x ys)"

definition sort_labels :: "Labels \<Rightarrow> Labels" where
  "sort_labels ls = foldr insert_label ls []"

definition render_label :: "string \<times> string \<Rightarrow> string" where
  "render_label x = fst x @ ''='' @ snd x"

definition labelKey :: "Labels \<Rightarrow> string" where
  "labelKey ls = Join (map render_label (sort_labels ls)) [CHR 0x1F]"

definition copyLabels :: "Labels \<Rightarrow> Labels" where
  "copyLabels ls = ls"

subsection \<open>The tracker\<close>

record accesslogSeriesEntry =
  series_labels :: Labels
  lastSeen :: time

record accesslogSeriesTracker =
  tracked_vec :: metric
  seen :: "(string \<times> accesslogSeriesEntry) list"
  maxEntries :: int
  capLogged :: time

definition MaxAccesslogSeriesPerVec :: int where "MaxAccesslogSeriesPerVec = 10000"
definition AccesslogSeriesTTL :: duration where "AccesslogSeriesTTL = 1 * hour"
definition AccesslogSeriesSweepInterval :: duration where "AccesslogSeriesSweepInterval = 10 * minute"

text \<open>The zero time of \<open>capLogged\<close> is instant 0.\<close>

definition newAccesslogSeriesTracker :: "metric \<Rightarrow> int \<Rightarrow> accesslogSeriesTracker" where
  "newAccesslogSeriesTracker vec cap = \<lparr>tracked_vec = vec, seen = [], maxEntries = cap, capLogged = 0\<rparr>"

definition Inc_locked ::
  "('s \<Rightarrow> time \<times> 's) \<Rightarrow> Labels \<Rightarrow> accesslogSeriesTracker \<Rightarrow> 's \<Rightarrow> bool \<times> accesslogSeriesTracker \<times> 's" where
  "Inc_locked now labels t s =
     (let key = labelKey labels
      in case map_of (seen t) key of
           Some entry \<Rightarrow>
             let (tm, s) = now s
             in (True, t\<lparr>seen := AList.update key (entry\<lparr>lastSeen := tm\<rparr>) (seen t)\<rparr>, s)
         | None \<Rightarrow>
             if int (length (seen t)) \<ge> maxEntries t
             then let (tm, s) = now s
                  in if time_Sub tm (capLogged t) > minute
                     then let (tm, s) = now s in (False, t\<lparr>capLogged := tm\<rparr>, s)
                     else (False, t, s)
             else let (tm, s) = now s
                  in (True, t\<lparr>seen := (key, \<lparr>series_labels = copyLabels labels, lastSeen = tm\<rparr>) # seen t\<rparr>, s))"

definition Inc_calls :: "bool \<Rightarrow> Labels \<Rightarrow> accesslogSeriesTracker \<Rightarrow> metric vec_call list" where
  "Inc_calls admitted labels t = (if admitted then [CounterInc (tracked_vec t) (With labels)] else [])"

definition Inc ::
  "('s \<Rightarrow> time \<times> 's) \<Rightarrow> Labels \<Rightarrow> accesslogSeriesTracker \<Rightarrow> 's
     \<Rightarrow> bool \<times> metric vec_call list \<times> accesslogSeriesTracker \<times> 's" where
  "Inc now labels t s =
     (let (admitted, t, s) = Inc_locked now labels t s
      in (admitted, Inc_calls admitted labels t, t, s))"

definition Sweep_locked ::
  "time \<Rightarrow> duration \<Rightarrow> accesslogSeriesTracker \<Rightarrow> accesslogSeriesEntry list \<times> accesslogSeriesTracker" where
  "Sweep_locked now ttl t =
     (let cutoff = now - ttl; old = (\<lambda>(key, entry). lastSeen entry < cutoff)
      in (map snd (filter old (seen t)), t\<lparr>seen := filter (\<lambda>x. \<not> old x) (seen t)\<rparr>))"

definition Sweep_calls :: "accesslogSeriesEntry list \<Rightarrow> accesslogSeriesTracker \<Rightarrow> metric vec_call list" where
  "Sweep_calls toDelete t = map (\<lambda>entry. DeleteSeries (tracked_vec t) (series_labels entry)) toDelete"

definition Sweep ::
  "time \<Rightarrow> duration \<Rightarrow> accesslogSeriesTracker \<Rightarrow> nat \<times> metric vec_call list \<times> accesslogSeriesTracker" where
  "Sweep now ttl t =
     (let (toDelete, t) = Sweep_locked now ttl t
      in (length toDelete, Sweep_calls toDelete t, t))"

definition Size :: "accesslogSeriesTracker \<Rightarrow> nat" where
  "Size t = length (seen t)"


subsection \<open>Keys identify label tuples\<close>

lemma set_insert_label [simp]: "set (insert_label x ys) = insert x (set ys)"
  by (induction ys) auto

lemma set_sort_labels [simp]: "set (sort_labels ls) = set ls"
  by (induction ls) (auto simp: sort_labels_def)

fun insert_name :: "string \<Rightarrow> string list \<Rightarrow> string list" where
  "insert_name x [] = [x]"
| "insert_name x (y # ys) = (if str_le x y then x # y # ys else y # insert_name x ys)"

lemma names_sort_labels: "map fst (sort_labels ls) = foldr insert_name (map fst ls) []"
proof -
  have i: "map fst (insert_label x ys) = insert_name (fst x) (map fst ys)" for x ys
    by (induction ys) auto
  show ?thesis by (induction ls) (simp_all add: sort_labels_def i)
qed

text \<open>Only the last rendered label may contain the separator.\<close>

definition separable :: "Labels \<Rightarrow> bool" where
  "separable ls \<longleftrightarrow> list_all (\<lambda>x. CHR 0x1F \<notin> set (render_label x)) (butlast (sort_labels ls))"

lemma split_at_mark: "c \<notin> set a \<Longrightarrow> c \<notin> set b \<Longrightarrow> a @ c # s = b @ c # t \<Longrightarrow> a = b \<and> s = t"
proof (induction a arbitrary: b)
  case Nil
  then show ?case by (cases b) auto
next
  case (Cons x a)
  then show ?case by (cases b) auto
qed

lemma render_label_inj: "fst x = fst y \<Longrightarrow> render_label x = render_label y \<Longrightarrow> x = y"
  by (cases x; cases y) (simp add: render_label_def)

lemma Join_render_inj:
  "map fst xs = map fst ys \<Longrightarrow>
   list_all (\<lambda>x. c \<notin> set (render_label x)) (butlast xs) \<Longrightarrow>
   list_all (\<lambda>x. c \<notin> set (render_label x)) (butlast ys) \<Longrightarrow>
   Join (map render_label xs) [c] = Join (map render_label ys) [c] \<Longrightarrow> xs = ys"
proof (induction xs arbitrary: ys)
  case Nil
  then show ?case by simp
next
  case (Cons x xs)
  then obtain y ys' where ys: "ys = y # ys'" "fst x = fst y" "map fst xs = map fst ys'" by (cases ys) auto
  show ?case
  proof (cases xs)
    case Nil
    then show ?thesis using Cons.prems ys render_label_inj by simp
  next
    case (Cons x2 xs')
    then obtain y2 ys2 where ys2: "ys' = y2 # ys2" using ys by (cases ys') auto
    have "render_label x @ c # Join (map render_label xs) [c] = render_label y @ c # Join (map render_label ys') [c]"
      using Cons.prems(4) Cons ys ys2 by simp
    moreover have "c \<notin> set (render_label x)" "c \<notin> set (render_label y)"
      using Cons.prems(2,3) Cons ys ys2 by simp_all
    ultimately have "render_label x = render_label y" "Join (map render_label xs) [c] = Join (map render_label ys') [c]"
      using split_at_mark by metis+
    then show ?thesis
      using Cons.IH [of ys'] Cons.prems(2,3) Cons ys ys2 render_label_inj by simp
  qed
qed

lemma labelKey_inj:
  assumes "map fst l = map fst m" "separable l" "separable m" "labelKey l = labelKey m"
  shows "set l = set m"
proof -
  have "sort_labels l = sort_labels m"
    by (rule Join_render_inj [where c = "CHR 0x1F"])
      (use assms in \<open>simp_all add: names_sort_labels separable_def labelKey_def\<close>)
  then show ?thesis by (metis set_sort_labels)
qed

subsection \<open>Bounded histories\<close>

datatype tracker_op = TInc Labels time | TSweep time duration

fun tracker_step :: "tracker_op \<Rightarrow> metric vec_call list \<times> accesslogSeriesTracker \<Rightarrow> metric vec_call list \<times> accesslogSeriesTracker" where
  "tracker_step (TInc l now) (cs, t) =
     (let (_, ds, t, _) = Inc (\<lambda>s. (now, s)) l t () in (cs @ ds, t))"
| "tracker_step (TSweep now ttl) (cs, t) = (let (_, ds, t) = Sweep now ttl t in (cs @ ds, t))"

definition tracker_run :: "tracker_op list \<Rightarrow> accesslogSeriesTracker \<Rightarrow> metric vec_call list \<times> accesslogSeriesTracker" where
  "tracker_run ops t = fold tracker_step ops ([], t)"

definition live_series :: "metric vec_call list \<Rightarrow> metric \<Rightarrow> (string \<times> string) set set" where
  "live_series cs m = {s. published NewOpenLDAPMetrics cs m s \<noteq> None}"

definition tracked_series :: "accesslogSeriesTracker \<Rightarrow> (string \<times> string) set set" where
  "tracked_series t = (\<lambda>x. set (series_labels (snd x))) ` set (seen t)"

definition good_labels :: "string list \<Rightarrow> Labels \<Rightarrow> bool" where
  "good_labels names l \<longleftrightarrow> map fst l = names \<and> distinct names \<and> separable l"

definition tracker_inv :: "string list \<Rightarrow> metric vec_call list \<times> accesslogSeriesTracker \<Rightarrow> bool" where
  "tracker_inv names = (\<lambda>(cs, t).
     int (length (seen t)) \<le> maxEntries t \<and> distinct (map fst (seen t)) \<and>
     (\<forall>(k, e)\<in>set (seen t). k = labelKey (series_labels e) \<and> good_labels names (series_labels e)) \<and>
     live_series cs (tracked_vec t) = tracked_series t)"

lemma live_inc: "live_series (cs @ [CounterInc m (With l)]) m = insert (set l) (live_series cs m)"
  by (auto simp: live_series_def CounterInc_def apply_call_def series_of_def split: option.splits)

lemma live_delete: "live_series (cs @ map (\<lambda>e. DeleteSeries m (series_labels e)) es) m = live_series cs m - (\<lambda>e. set (series_labels e)) ` set es"
proof (induction es rule: rev_induct)
  case (snoc e es)
  have "live_series (ds @ [DeleteSeries m ls]) m = live_series ds m - {set ls}" for ds ls
    by (auto simp: live_series_def apply_call_def)
  from this [of "cs @ map (\<lambda>e. DeleteSeries m (series_labels e)) es"] snoc show ?case by auto
qed simp

lemma update_seen:
  assumes "map_of xs k = Some e" "distinct (map fst xs)"
  shows "length (AList.update k e' xs) = length xs" "map fst (AList.update k e' xs) = map fst xs"
    "set (AList.update k e' xs) = insert (k, e') (set xs - {(k, e)})"
  using assms
proof (induction xs)
  case (Cons x xs)
  {
    case 1
    then show ?case using Cons by (cases x) auto
  next
    case 2
    then show ?case using Cons by (cases x) auto
  next
    case 3
    have "(k, e) \<notin> set xs" if "fst x = k" using 3 that by (cases x) (force simp: image_iff)
    then show ?case using 3 Cons by (cases x) (auto split: if_splits)
  }
qed simp_all

lemma tracker_inv_Inc:
  assumes "tracker_inv names (cs, t)" "good_labels names l"
  shows "tracker_inv names (tracker_step (TInc l now) (cs, t))"
proof (cases "map_of (seen t) (labelKey l)")
  case (Some e)
  then have "(labelKey l, e) \<in> set (seen t)" by (rule map_of_SomeD)
  then have e: "labelKey l = labelKey (series_labels e)" "good_labels names (series_labels e)"
    "set (series_labels e) \<in> tracked_series t"
    using assms(1) by (auto simp: tracker_inv_def tracked_series_def intro!: rev_image_eqI)
  have "set l = set (series_labels e)"
    using labelKey_inj [of l "series_labels e"] e assms(2) by (simp add: good_labels_def)
  then have "insert (set l) (tracked_series t) = tracked_series t" using e(3) by auto
  moreover have d: "distinct (map fst (seen t))" using assms(1) by (simp add: tracker_inv_def)
  note u = update_seen [OF Some d]
  have "(\<lambda>x. set (series_labels (snd x))) ` set (AList.update (labelKey l) (e\<lparr>lastSeen := now\<rparr>) (seen t)) =
      tracked_series t"
    unfolding u(3) tracked_series_def using \<open>(labelKey l, e) \<in> set (seen t)\<close> by (force simp: image_iff)
  ultimately show ?thesis
    using assms Some e u
    by (auto simp: tracker_inv_def Inc_def Inc_locked_def Inc_calls_def live_inc tracked_series_def)
next
  case None
  then have new: "labelKey l \<notin> fst ` set (seen t)" by (simp add: map_of_eq_None_iff)
  show ?thesis
  proof (cases "int (length (seen t)) \<ge> maxEntries t")
    case True
    then show ?thesis
      using assms None by (simp add: Inc_def Inc_locked_def Inc_calls_def tracker_inv_def tracked_series_def)
  next
    case False
    then show ?thesis
      using assms None new
      by (auto simp: Inc_def Inc_locked_def Inc_calls_def tracker_inv_def tracked_series_def live_inc copyLabels_def)
  qed
qed

lemma alist_eqI: "map fst l = map fst m \<Longrightarrow> distinct (map fst l) \<Longrightarrow> set l = set m \<Longrightarrow> l = m"
proof (induction l arbitrary: m)
  case (Cons x l)
  then obtain y m' where m: "m = y # m'" "fst x = fst y" "map fst l = map fst m'" by (cases m) auto
  have "x = y"
  proof (rule ccontr)
    assume "x \<noteq> y"
    then have "y \<in> set l" using Cons.prems(3) m by auto
    then have "fst y \<in> set (map fst l)" by simp
    then show False using Cons.prems(2) m(2) by auto
  qed
  moreover have "x \<notin> set l" using Cons.prems(2) by auto
  moreover have "y \<notin> set m'"
  proof
    assume "y \<in> set m'"
    then have "fst y \<in> set (map fst m')" by simp
    then have "fst x \<in> set (map fst l)" by (simp only: m(2,3))
    then show False using Cons.prems(2) by simp
  qed
  ultimately have "set l = set m'" using Cons.prems(3) m by auto
  then show ?case using Cons.IH [of m'] Cons.prems(2) m \<open>x = y\<close> by simp
qed simp

lemma live_series_sweep:
  assumes "tracker_inv names (cs, t)" "x \<in> set (seen t)" "y \<in> set (seen t)"
    "set (series_labels (snd x)) = set (series_labels (snd y))"
  shows "x = y"
proof -
  have inv: "distinct (map fst (seen t))"
    "\<forall>x\<in>set (seen t). fst x = labelKey (series_labels (snd x)) \<and> good_labels names (series_labels (snd x))"
    using assms(1) by (auto simp: tracker_inv_def)
  have "series_labels (snd x) = series_labels (snd y)"
    by (rule alist_eqI) (use inv(2) assms in \<open>simp_all add: good_labels_def\<close>)
  then have "fst x = fst y" using inv(2) assms by simp
  then show ?thesis using inv(1) assms by (metis eq_key_imp_eq_value prod.collapse)
qed

lemma tracker_inv_Sweep:
  assumes "tracker_inv names (cs, t)"
  shows "tracker_inv names (tracker_step (TSweep now ttl) (cs, t))"
proof -
  define P where "P = (\<lambda>x :: string \<times> accesslogSeriesEntry. lastSeen (snd x) < now - ttl)"
  have old: "(\<lambda>(key, entry). lastSeen entry < now - ttl) = P" by (auto simp: P_def)
  have inv: "distinct (map fst (seen t))" "int (length (seen t)) \<le> maxEntries t"
    "live_series cs (tracked_vec t) = tracked_series t"
    "\<forall>(k, e)\<in>set (seen t). k = labelKey (series_labels e) \<and> good_labels names (series_labels e)"
    using assms by (auto simp: tracker_inv_def)
  have "tracked_series t - (\<lambda>e. set (series_labels e)) ` set (map snd (filter P (seen t))) =
      (\<lambda>x. set (series_labels (snd x))) ` set (filter (\<lambda>x. \<not> P x) (seen t))"
  proof -
    let ?f = "\<lambda>x. set (series_labels (snd x))"
    have inj: "inj_on ?f (set (seen t))" using live_series_sweep [OF assms] by (rule inj_onI)
    have "?f ` (set (seen t) - set (filter P (seen t))) = ?f ` set (seen t) - ?f ` set (filter P (seen t))"
      by (rule inj_on_image_set_diff [OF inj]) auto
    moreover have "set (seen t) - set (filter P (seen t)) = set (filter (\<lambda>x. \<not> P x) (seen t))" by auto
    moreover have "(\<lambda>e. set (series_labels e)) ` set (map snd (filter P (seen t))) = ?f ` set (filter P (seen t))"
      by (simp add: image_image)
    ultimately show ?thesis by (simp add: tracked_series_def)
  qed
  then have live: "live_series (cs @ Sweep_calls (map snd (filter P (seen t))) t') (tracked_vec t) =
      tracked_series (t\<lparr>seen := filter (\<lambda>x. \<not> P x) (seen t)\<rparr>)" if "tracked_vec t' = tracked_vec t" for t'
    using inv(3) that by (simp only: Sweep_calls_def live_delete) (simp add: tracked_series_def)
  have step: "tracker_step (TSweep now ttl) (cs, t) =
      (cs @ Sweep_calls (map snd (filter P (seen t))) (t\<lparr>seen := filter (\<lambda>x. \<not> P x) (seen t)\<rparr>),
       t\<lparr>seen := filter (\<lambda>x. \<not> P x) (seen t)\<rparr>)"
    by (simp add: Sweep_def Sweep_locked_def old)
  have "int (length (filter (\<lambda>x. \<not> P x) (seen t))) \<le> maxEntries t"
    using inv(2) length_filter_le [of "\<lambda>x. \<not> P x" "seen t"] by linarith
  then show ?thesis
    unfolding step using inv live by (simp add: tracker_inv_def distinct_map_filter)
qed

fun op_labels :: "tracker_op \<Rightarrow> Labels list" where
  "op_labels (TInc l now) = [l]"
| "op_labels (TSweep now ttl) = []"

lemma tracker_step_frame:
  "tracked_vec (snd (tracker_step op s)) = tracked_vec (snd s)" "maxEntries (snd (tracker_step op s)) = maxEntries (snd s)"
  by (cases s; cases op; auto simp: Inc_def Inc_locked_def Sweep_def Sweep_locked_def Let_def split: option.splits)+

interpretation tr: guarded_machine tracker_step "\<lambda>op. \<forall>l\<in>set (op_labels op). good_labels names l"
  "\<lambda>s. tracker_inv names s \<and> tracked_vec (snd s) = vec \<and> maxEntries (snd s) = cap" for names vec cap
proof unfold_locales
  fix op s
  assume a: "\<forall>l\<in>set (op_labels op). good_labels names l"
    "tracker_inv names s \<and> tracked_vec (snd s) = vec \<and> maxEntries (snd s) = cap"
  obtain cs t where s: "s = (cs, t)" by fastforce
  have "tracker_inv names (tracker_step op s)"
    using a tracker_inv_Inc tracker_inv_Sweep unfolding s by (cases op) (simp_all del: tracker_step.simps)
  then show "tracker_inv names (tracker_step op s) \<and> tracked_vec (snd (tracker_step op s)) = vec \<and>
      maxEntries (snd (tracker_step op s)) = cap"
    using a(2) by (simp add: tracker_step_frame)
qed

text \<open>C21.
  However many distinct tuples are offered, the counter never has more live series than the cap:
  after any history of increments and sweeps its live series are exactly the tracked ones, and
  there are at most \<open>maxEntries\<close> of those.
\<close>

theorem tracked_series_bounded:
  assumes "0 \<le> cap" and "\<forall>l\<in>set (concat (map op_labels ops)). good_labels names l"
    and "tracker_run ops (newAccesslogSeriesTracker vec cap) = (cs, t)"
  shows "live_series cs vec = tracked_series t \<and> int (card (live_series cs vec)) \<le> cap"
proof -
  have "list_all (\<lambda>op. \<forall>l\<in>set (op_labels op). good_labels names l) ops"
    using assms(2) by (auto simp: list_all_iff)
  moreover have "tracker_inv names ([], newAccesslogSeriesTracker vec cap)"
    using assms(1) by (simp add: tracker_inv_def newAccesslogSeriesTracker_def live_series_def tracked_series_def)
  ultimately have inv: "tracker_inv names (cs, t)" "tracked_vec t = vec" "maxEntries t = cap"
    using tr.run_inv [of names ops "([], newAccesslogSeriesTracker vec cap)" vec cap] assms(3)
    by (simp_all add: tracker_run_def newAccesslogSeriesTracker_def)
  then have eq: "live_series cs vec = tracked_series t" by (simp add: tracker_inv_def)
  have "card (tracked_series t) \<le> length (seen t)"
    unfolding tracked_series_def by (meson card_image_le card_length finite_set le_trans)
  then show ?thesis using eq inv by (simp add: tracker_inv_def)
qed

definition user_labels :: "string \<Rightarrow> Labels" where
  "user_labels u = [(''server'', ''ldap''), (''user'', u)]"

lemma good_user_labels: "good_labels [''server'', ''user''] (user_labels u)"
proof -
  have "sort_labels (user_labels u) = user_labels u"
    by (simp add: sort_labels_def user_labels_def str_le_def)
  then show ?thesis by (simp add: good_labels_def separable_def) (simp add: user_labels_def render_label_def)
qed

lemma tracked_series_bounded_witness:
  "live_series (fst (tracker_run [TInc (user_labels ''eve1'') 0, TInc (user_labels ''eve2'') 1, TInc (user_labels ''eve3'') 2]
       (newAccesslogSeriesTracker AccesslogLockEventsTotal 2))) AccesslogLockEventsTotal =
   tracked_series (snd (tracker_run [TInc (user_labels ''eve1'') 0, TInc (user_labels ''eve2'') 1, TInc (user_labels ''eve3'') 2]
       (newAccesslogSeriesTracker AccesslogLockEventsTotal 2)))"
  by (rule tracked_series_bounded [where names = "[''server'', ''user'']" and cap = 2, OF _ _ surjective_pairing, THEN conjunct1])
    (simp_all add: good_user_labels)

subsection \<open>A sweep in two halves\<close>

text \<open>
  \<open>Sweep\<close> deletes from the vector after it has left the lock. If a user who was idle for the whole
  retention period is seen again in between, the tuple is admitted as new and counted, and then
  the pending deletion drops the series: the tracker holds a tuple whose counter is gone, and the
  event is not counted.
\<close>

theorem sweep_drops_fresh_increment:
  assumes "tracked_vec t = vec" and "seen t = [(labelKey l, e)]" and "series_labels e = l"
    and "lastSeen e < now - ttl" and "1 \<le> maxEntries t"
    and "Sweep_locked now ttl t = (toDelete, t1)"
    and "Inc_locked (\<lambda>s. (now, s)) l t1 () = (admitted, t2, u)"
  shows "admitted \<and> Size t2 = 1 \<and>
    set l \<notin> live_series (cs @ Inc_calls admitted l t2 @ Sweep_calls toDelete t2) vec"
proof -
  have s: "toDelete = [e]" "t1 = t\<lparr>seen := []\<rparr>"
    using assms(2,4,6) by (auto simp: Sweep_locked_def)
  then have "admitted" "t2 = t\<lparr>seen := [(labelKey l, \<lparr>series_labels = l, lastSeen = now\<rparr>)]\<rparr>"
    using assms(5,7) by (simp_all add: Inc_locked_def copyLabels_def)
  then show ?thesis
    using live_delete [of "cs @ [CounterInc vec (With l)]" vec "[e]"] assms(1,3) s(1)
    by (simp add: Size_def Inc_calls_def Sweep_calls_def)
qed

lemma sweep_drops_fresh_increment_witness:
  "set (user_labels ''bob'') \<notin> live_series
     ([CounterInc AccesslogLockEventsTotal (With (user_labels ''bob''))] @
      [CounterInc AccesslogLockEventsTotal (With (user_labels ''bob''))] @
      [DeleteSeries AccesslogLockEventsTotal (user_labels ''bob'')]) AccesslogLockEventsTotal"
proof -
  define e where "e = \<lparr>series_labels = user_labels ''bob'', lastSeen = 0\<rparr>"
  define t where "t = \<lparr>tracked_vec = AccesslogLockEventsTotal, seen = [(labelKey (user_labels ''bob''), e)],
      maxEntries = 5, capLogged = 0\<rparr>"
  obtain d t1 where s: "Sweep_locked (3 * hour) hour t = (d, t1)" by fastforce
  obtain a t2 u where i: "Inc_locked (\<lambda>s. (3 * hour, s)) (user_labels ''bob'') t1 () = (a, t2, u)" by (metis prod_cases3)
  from sweep_drops_fresh_increment [OF _ _ _ _ _ s i, of AccesslogLockEventsTotal e "[CounterInc AccesslogLockEventsTotal (With (user_labels ''bob''))]"]
  have a: "a = True \<and> set (user_labels ''bob'') \<notin> live_series ([CounterInc AccesslogLockEventsTotal (With (user_labels ''bob''))] @
      Inc_calls a (user_labels ''bob'') t2 @ Sweep_calls d t2) AccesslogLockEventsTotal"
    by (auto simp: t_def e_def time_defs)
  have "tracked_vec t2 = AccesslogLockEventsTotal" "d = [e]"
    using s i by (auto simp: t_def e_def Sweep_locked_def Inc_locked_def time_defs split: option.splits if_splits)
  then show ?thesis using a by (auto simp: Inc_calls_def Sweep_calls_def e_def)
qed

end
