(* ===== verification/Counters.thy ===== *)
theory Counters
  imports Metrics "HOL-Library.AList"
begin

section \<open>Delta-based counters\<close>

text \<open>
  pkg/exporter/counter_management.go and the key check of helpers.go: slapd's cumulative counters
  are turned into increments of the exporter's counters by remembering the last reading per
  server and key. Updates of one collection cycle run one after the other under \<open>collectMu\<close>; the
  flag that guards an entry against the clean-up is part of the entry.
\<close>

subsection \<open>Data\<close>

record counterEntry =
  entry_value :: float64
  entry_lastSeen :: time
  modifying :: bool

type_synonym counters = "(string \<times> (string \<times> counterEntry) list) list"

definition MaxReasonableCounterDelta :: float64 where "MaxReasonableCounterDelta = f_of_int (10 ^ 9)"
definition MaxCounterEntries :: nat where "MaxCounterEntries = 1000"
definition CounterCleanupInterval :: duration where "CounterCleanupInterval = 10 * minute"
definition CounterEntryRetentionPeriod :: duration where
  "CounterEntryRetentionPeriod = 2 * CounterCleanupInterval"
definition MaxKeyLength :: nat where "MaxKeyLength = 512"

datatype key_error = EmptyKey | KeyTooLong | InvalidCharacter

definition validateKey :: "string \<Rightarrow> key_error option" where
  "validateKey key =
     (if key = '''' then Some EmptyKey
      else if length key > MaxKeyLength then Some KeyTooLong
      else if list_ex (\<lambda>r. r = CHR 0x00 \<or> r = CHR 0x0D \<or> r = CHR 0x0A) key then Some InvalidCharacter
      else None)"

subsection \<open>Updating\<close>

text \<open>
  The delta an update publishes, if any, and the new table. \<open>now\<close> is the clock reading stored in the
  entry. A negative reading, a full table and an entry in use leave everything as it was; after a
  suspicious reset only the time of the entry has changed.
\<close>

definition counter_delta :: "float64 \<Rightarrow> float64 \<Rightarrow> float64 option" where
  "counter_delta oldValue newValue =
     (let delta = f_sub newValue oldValue
      in if f_lt delta (f_of_int 0)
         then (if f_lt newValue MaxReasonableCounterDelta then Some newValue else None)
         else Some delta)"

definition updateCounterCommon ::
  "time \<Rightarrow> string \<Rightarrow> string \<Rightarrow> float64 \<Rightarrow> counters \<Rightarrow> float64 option \<times> counters" where
  "updateCounterCommon now server key newValue cv =
     (if validateKey key \<noteq> None then (None, cv)
      else if f_lt newValue (f_of_int 0) then (None, cv)
      else
        let serverMap = (case map_of cv server of Some m \<Rightarrow> m | None \<Rightarrow> []);
            cv = AList.update server serverMap cv
        in case (case map_of serverMap key of
                   Some entry \<Rightarrow> Some entry
                 | None \<Rightarrow>
                     if length serverMap \<ge> MaxCounterEntries then None
                     else Some \<lparr>entry_value = f_of_int 0, entry_lastSeen = now, modifying = False\<rparr>) of
             None \<Rightarrow> (None, cv)
           | Some entry \<Rightarrow>
               if modifying entry then (None, AList.update server (AList.update key entry serverMap) cv)
               else let entry = entry\<lparr>entry_lastSeen := now\<rparr>
                    in case counter_delta (entry_value entry) newValue of
                         None \<Rightarrow> (None, AList.update server (AList.update key entry serverMap) cv)
                       | Some delta \<Rightarrow>
                           (Some delta,
                            AList.update server (AList.update key (entry\<lparr>entry_value := newValue\<rparr>) serverMap) cv))"

definition add_positive :: "metric \<Rightarrow> Labels \<Rightarrow> float64 option \<Rightarrow> metric vec_call list" where
  "add_positive counter labels d =
     (case d of
        Some delta \<Rightarrow> if f_lt (f_of_int 0) delta then [CounterAdd counter (With labels) delta] else []
      | None \<Rightarrow> [])"

definition updateCounter ::
  "metric \<Rightarrow> time \<Rightarrow> string \<Rightarrow> string \<Rightarrow> float64 \<Rightarrow> counters \<Rightarrow> metric vec_call list \<times> counters" where
  "updateCounter counter now server key newValue cv =
     (let (d, cv) = updateCounterCommon now server key newValue cv
      in (add_positive counter [(''server'', server)] d, cv))"

definition updateOperationCounter ::
  "metric \<Rightarrow> time \<Rightarrow> string \<Rightarrow> string \<Rightarrow> string \<Rightarrow> float64 \<Rightarrow> counters \<Rightarrow> metric vec_call list \<times> counters" where
  "updateOperationCounter counter now server operation key newValue cv =
     (let (d, cv) = updateCounterCommon now server key newValue cv
      in (add_positive counter
            ((''server'', server) # (if operation = '''' then [] else [(''operation'', operation)])) d, cv))"

subsection \<open>Clean-up\<close>

fun keys_to_delete :: "time \<Rightarrow> (string \<times> counterEntry) list \<Rightarrow> string list \<Rightarrow> string list" where
  "keys_to_delete cutoff [] ks = ks"
| "keys_to_delete cutoff ((key, entry) # m) ks =
     (let ks = (if \<not> modifying entry \<and> entry_lastSeen entry < cutoff then ks @ [key] else ks)
      in if length ks > MaxCounterEntries then ks else keys_to_delete cutoff m ks)"

definition cleanupOldCountersSync :: "time \<Rightarrow> counters \<Rightarrow> counters" where
  "cleanupOldCountersSync now cv =
     (let cutoff = now - CounterEntryRetentionPeriod
      in map (\<lambda>(server, m). (server, fold AList.delete (keys_to_delete cutoff m []) m)) cv)"

definition counter_entries_total :: "counters \<Rightarrow> nat" where
  "counter_entries_total cv = sum_list (map (\<lambda>(server, m). length m) cv)"


subsection \<open>One counter over time\<close>

definition server_map :: "counters \<Rightarrow> string \<Rightarrow> (string \<times> counterEntry) list" where
  "server_map cv server = (case map_of cv server of Some m \<Rightarrow> m | None \<Rightarrow> [])"

definition last_reading :: "counters \<Rightarrow> string \<Rightarrow> string \<Rightarrow> float64" where
  "last_reading cv server key =
     (case map_of (server_map cv server) key of Some e \<Rightarrow> entry_value e | None \<Rightarrow> f_of_int 0)"

text \<open>The key is valid, not being cleaned up, and known or there is room for it.\<close>

definition accepts :: "counters \<Rightarrow> string \<Rightarrow> string \<Rightarrow> bool" where
  "accepts cv server key \<longleftrightarrow>
     validateKey key = None \<and>
     (case map_of (server_map cv server) key of
        Some e \<Rightarrow> \<not> modifying e | None \<Rightarrow> length (server_map cv server) < MaxCounterEntries)"

lemma server_map_update [simp]: "server_map (AList.update server m cv) server = m"
  by (simp add: server_map_def AList.update_conv)

lemma AList_update_twice [simp]: "AList.update k m (AList.update k m' cv) = AList.update k m cv"
  by (induction cv) auto

lemma updateCounterCommon_accepts:
  assumes "accepts cv server key" "\<not> f_lt v (f_of_int 0)"
  shows "\<exists>cv'. updateCounterCommon now server key v cv = (counter_delta (last_reading cv server key) v, cv') \<and>
    accepts cv' server key \<and>
    last_reading cv' server key =
      (if counter_delta (last_reading cv server key) v = None then last_reading cv server key else v) \<and>
    map_option entry_lastSeen (map_of (server_map cv' server) key) = Some now"
proof -
  have sm: "(case map_of cv server of None \<Rightarrow> [] | Some m \<Rightarrow> m) = server_map cv server" by (simp add: server_map_def)
  show ?thesis
  proof (cases "map_of (server_map cv server) key")
    case None
    then show ?thesis
      using assms unfolding updateCounterCommon_def sm Let_def
      by (simp add: accepts_def last_reading_def AList.update_conv split: option.splits)
  next
    case (Some e)
    then show ?thesis
      using assms unfolding updateCounterCommon_def sm Let_def
      by (simp add: accepts_def last_reading_def AList.update_conv split: option.splits)
  qed
qed

fun observe_readings ::
  "metric \<Rightarrow> string \<Rightarrow> string \<Rightarrow> (time \<times> float64) list \<Rightarrow> counters \<Rightarrow> metric vec_call list \<times> counters" where
  "observe_readings counter server key [] cv = ([], cv)"
| "observe_readings counter server key ((now, v) # rs) cv =
     (let (cs, cv) = updateCounter counter now server key v cv;
          (ds, cv) = observe_readings counter server key rs cv
      in (cs @ ds, cv))"

text \<open>The value of a counter's series, zero before the first increment.\<close>

definition counter_value :: "metric vec_call list \<Rightarrow> metric \<Rightarrow> string \<Rightarrow> float64" where
  "counter_value cs counter server =
     (case published NewOpenLDAPMetrics cs counter {(''server'', server)} of Some v \<Rightarrow> v | None \<Rightarrow> f_of_int 0)"

lemma counter_value_add:
  "counter_value (cs @ add_positive counter [(''server'', server)] d) counter server =
     (case d of Some x \<Rightarrow> if f_lt (f_of_int 0) x then f_add (counter_value cs counter server) x
                          else counter_value cs counter server
      | None \<Rightarrow> counter_value cs counter server)"
  by (auto simp: counter_value_def add_positive_def apply_call_def series_of_def split: option.splits)

text \<open>The same on integers: the last reading kept and the total published.\<close>

fun int_count :: "int \<times> int \<Rightarrow> int list \<Rightarrow> int \<times> int" where
  "int_count (old, tot) [] = (old, tot)"
| "int_count (old, tot) (n # ns) =
     (if old \<le> n then int_count (n, tot + (n - old)) ns
      else if n < 10 ^ 9 then int_count (n, tot + n) ns
      else int_count (old, tot) ns)"

lemma int_count_mono: "0 \<le> tot \<Longrightarrow> \<forall>n\<in>set ns. 0 \<le> n \<Longrightarrow> tot \<le> snd (int_count (old, tot) ns)"
proof (induction ns arbitrary: old tot)
  case (Cons n ns)
  have IH: "t \<le> snd (int_count (p, t) ns)" if "0 \<le> t" for p t using Cons that by simp
  show ?case
    using Cons.prems IH [of "tot + (n - old)" n] IH [of "tot + n" n] IH [of tot old] by auto
qed simp

lemma exact_int_le: "0 \<le> m \<Longrightarrow> m \<le> n \<Longrightarrow> exact_int n \<Longrightarrow> exact_int m"
  by (simp add: exact_int_def)

lemma f_sub_int: "exact_int m \<Longrightarrow> exact_int n \<Longrightarrow> exact_int (m - n) \<Longrightarrow> f_sub (Fin (of_int m)) (Fin (of_int n)) = Fin (of_int (m - n))"
  using round64_int [of "m - n"] by (simp add: f_sub_def)

lemma f_add_int: "exact_int (m + n) \<Longrightarrow> f_add (Fin (of_int m)) (Fin (of_int n)) = Fin (of_int (m + n))"
  using round64_int [of "m + n"] by simp

lemma counter_delta_int:
  assumes "0 \<le> old" "0 \<le> n" "exact_int old" "exact_int n"
  shows "counter_delta (Fin (of_int old)) (Fin (of_int n)) =
    (if old \<le> n then Some (Fin (of_int (n - old))) else if n < 10 ^ 9 then Some (Fin (of_int n)) else None)"
proof -
  have "exact_int (n - old)" using assms by (simp add: exact_int_def)
  then have "f_sub (Fin (of_int n)) (Fin (of_int old)) = Fin (of_int (n - old))" using assms f_sub_int by blast
  moreover have "f_of_int 0 = Fin 0" by (simp add: exact_int_def)
  moreover have "f_lt (Fin (of_int n)) MaxReasonableCounterDelta = (n < 10 ^ 9)"
  proof -
    have "MaxReasonableCounterDelta = Fin (of_int (10 ^ 9))"
      unfolding MaxReasonableCounterDelta_def by (rule f_of_int_exact) (simp add: exact_int_def)
    show ?thesis unfolding \<open>MaxReasonableCounterDelta = _\<close> f_lt.simps of_int_less_iff by (rule refl)
  qed
  ultimately show ?thesis by (simp add: counter_delta_def)
qed

lemma observe_readings_int:
  assumes "accepts cv server key" "last_reading cv server key = Fin (of_int old)" "0 \<le> old" "exact_int old"
    and "counter_value cs counter server = Fin (of_int tot)" "0 \<le> tot"
    and "\<forall>n\<in>set ns. 0 \<le> n \<and> exact_int n" "length ts = length ns"
    and "exact_int (snd (int_count (old, tot) ns))"
  shows "counter_value (cs @ fst (observe_readings counter server key (zip ts (map (\<lambda>n. Fin (of_int n)) ns)) cv)) counter server =
    Fin (of_int (snd (int_count (old, tot) ns)))"
  using assms
proof (induction ns arbitrary: cv cs old tot ts)
  case Nil
  then show ?case by simp
next
  case (Cons n ns)
  obtain t ts' where ts: "ts = t # ts'" "length ts' = length ns" using Cons.prems(8) by (cases ts) auto
  have n: "0 \<le> n" "exact_int n" using Cons.prems(7) by simp_all
  have "\<not> f_lt (Fin (of_int n)) (f_of_int 0)" using n by (simp add: exact_int_def)
  from updateCounterCommon_accepts [OF Cons.prems(1) this, of t]
  obtain cv' where u: "updateCounterCommon t server key (Fin (of_int n)) cv =
      (counter_delta (Fin (of_int old)) (Fin (of_int n)), cv')" "accepts cv' server key"
    "last_reading cv' server key = (if counter_delta (Fin (of_int old)) (Fin (of_int n)) = None then Fin (of_int old)
        else Fin (of_int n))"
    unfolding Cons.prems(2) by blast
  note d = counter_delta_int [OF Cons.prems(3) n(1) Cons.prems(4) n(2)]
  let ?d = "counter_delta (Fin (of_int old)) (Fin (of_int n))"
  define cs' where "cs' = cs @ add_positive counter [(''server'', server)] ?d"
  have split: "cs @ fst (observe_readings counter server key (zip ts (map (\<lambda>n. Fin (of_int n)) (n # ns))) cv) =
      cs' @ fst (observe_readings counter server key (zip ts' (map (\<lambda>n. Fin (of_int n)) ns)) cv')"
    by (simp add: ts updateCounter_def u(1) cs'_def split: prod.splits)
  have z: "f_of_int 0 = Fin 0" by (simp add: exact_int_def)
  consider "old \<le> n" | "n < old" "n < 10 ^ 9" | "n < old" "10 ^ 9 \<le> n" by linarith
  then show ?case
  proof cases
    case 1
    have c: "int_count (old, tot) (n # ns) = int_count (n, tot + (n - old)) ns" using 1 by simp
    have m: "tot + (n - old) \<le> snd (int_count (n, tot + (n - old)) ns)"
      by (rule int_count_mono) (use 1 Cons.prems in auto)
    have "exact_int (tot + (n - old))" by (rule exact_int_le [OF _ m]) (use 1 Cons.prems c in auto)
    then have "counter_value cs' counter server = Fin (of_int (tot + (n - old)))"
      unfolding cs'_def counter_value_add d Cons.prems(5) z
      using 1 f_add_int [of tot "n - old"] by (cases "n = old") auto
    then show ?thesis
      unfolding split c
      by (intro Cons.IH) (use u d 1 n Cons.prems ts c in auto)
  next
    case 2
    have c: "int_count (old, tot) (n # ns) = int_count (n, tot + n) ns" using 2 by simp
    have m: "tot + n \<le> snd (int_count (n, tot + n) ns)"
      by (rule int_count_mono) (use n Cons.prems in auto)
    have "exact_int (tot + n)" by (rule exact_int_le [OF _ m]) (use n Cons.prems c in auto)
    then have "counter_value cs' counter server = Fin (of_int (tot + n))"
      unfolding cs'_def counter_value_add d Cons.prems(5) z
      using 2 n f_add_int [of tot n] by (cases "n = 0") auto
    then show ?thesis
      unfolding split c
      by (intro Cons.IH) (use u d 2 n Cons.prems ts c in auto)
  next
    case 3
    have c: "int_count (old, tot) (n # ns) = int_count (old, tot) ns" using 3 by simp
    have "counter_value cs' counter server = Fin (of_int tot)"
      unfolding cs'_def counter_value_add d Cons.prems(5) using 3 by simp
    then show ?thesis
      unfolding split c
      by (intro Cons.IH) (use u d 3 n Cons.prems ts c in auto)
  qed
qed


subsection \<open>Restarts of the server\<close>

definition counts_up :: "int list \<Rightarrow> bool" where
  "counts_up ns \<longleftrightarrow> ns \<noteq> [] \<and> sorted ns \<and> 0 \<le> hd ns"

text \<open>A restart is visible when the first reading after it is below the last one before it.\<close>

fun restarts :: "int list list \<Rightarrow> bool" where
  "restarts [] = True"
| "restarts [ns] = counts_up ns"
| "restarts (ns # ms # es) = (counts_up ns \<and> hd ms < last ns \<and> hd ms < 10 ^ 9 \<and> restarts (ms # es))"

lemma int_count_append: "int_count s (xs @ ys) = int_count (int_count s xs) ys"
  by (induction s xs rule: int_count.induct) auto

lemma int_count_sorted: "sorted (old # ns) \<Longrightarrow> int_count (old, tot) ns = (last (old # ns), tot + (last (old # ns) - old))"
  by (induction ns arbitrary: old tot) auto

lemma int_count_epoch:
  "counts_up ns \<Longrightarrow> hd ns < old \<Longrightarrow> hd ns < 10 ^ 9 \<Longrightarrow> int_count (old, tot) ns = (last ns, tot + last ns)"
  by (cases ns) (auto simp: counts_up_def int_count_sorted)

lemma int_count_epochs:
  "restarts (ns # es) \<Longrightarrow> old \<le> hd ns \<Longrightarrow>
     snd (int_count (old, tot) (concat (ns # es))) = tot - old + sum_list (map last (ns # es))"
proof (induction es arbitrary: ns old tot)
  case Nil
  then show ?case by (cases ns) (auto simp: counts_up_def int_count_sorted)
next
  case (Cons ms es)
  have first: "int_count (old, tot) ns = (last ns, tot + (last ns - old))"
    using Cons.prems by (cases ns) (auto simp: counts_up_def int_count_sorted)
  have ms: "counts_up ms" "hd ms < last ns" "hd ms < 10 ^ 9" "restarts (ms # es)"
    using Cons.prems by (cases es; auto)+
  obtain m ms' where m: "ms = m # ms'" using ms(1) by (cases ms) (auto simp: counts_up_def)
  have "0 \<le> hd ms" using ms(1) by (simp add: counts_up_def)
  then have "snd (int_count (0, tot + (last ns - old)) (concat (ms # es))) =
      tot + (last ns - old) + sum_list (map last (ms # es))"
    using Cons.IH [OF ms(4), of 0 "tot + (last ns - old)"] by simp
  moreover have "int_count (last ns, t) (concat (ms # es)) = int_count (0, t) (concat (ms # es))" for t
    using ms(2,3) \<open>0 \<le> hd ms\<close> by (simp add: m)
  ultimately show ?case by (simp add: int_count_append first)
qed

lemma accepts_new [simp]: "validateKey key = None \<Longrightarrow> accepts [] server key"
  by (simp add: accepts_def server_map_def MaxCounterEntries_def)

text \<open>C6.
  A counter that is read for the first time and never cleaned up: over any number of server restarts, each seen
  at a reading below one thousand million and below the last one before it, with nonnegative
  integer readings that count up within a run, the published counter is exactly the sum of the final readings of every
  run of the server, as long as the readings and that sum are at most \<open>2 ^ 53\<close>. Without these
  bounds the counter stalls or counts double (the two lemmas that follow).
\<close>

theorem counter_sums_server_runs:
  assumes "validateKey key = None" and "restarts es" and "length ts = length (concat es)"
    and "\<forall>n\<in>set (concat es). 0 \<le> n \<and> n \<le> 2 ^ 53" and "sum_list (map last es) \<le> 2 ^ 53"
  shows "counter_value (fst (observe_readings counter server key
      (zip ts (map (\<lambda>n. Fin (of_int n)) (concat es))) [])) counter server = Fin (of_int (sum_list (map last es)))"
proof -
  have tot: "snd (int_count (0, 0) (concat es)) = sum_list (map last es)"
  proof (cases es)
    case (Cons ns es')
    then have "counts_up ns" using assms(2) by (cases es') auto
    then have "0 \<le> hd ns" by (simp add: counts_up_def)
    then show ?thesis using int_count_epochs [of ns es' 0 0] assms(2) Cons by simp
  qed simp
  have "0 \<le> snd (int_count (0, 0) (concat es))" by (rule int_count_mono) (use assms(4) in auto)
  then have ex: "exact_int (snd (int_count (0, 0) (concat es)))" using assms(5) by (simp add: tot exact_int_def)
  have z: "f_of_int 0 = Fin (of_int 0)" by (simp add: exact_int_def)
  have "counter_value ([] @ fst (observe_readings counter server key
      (zip ts (map (\<lambda>n. Fin (of_int n)) (concat es))) [])) counter server =
      Fin (of_int (snd (int_count (0, 0) (concat es))))"
    by (rule observe_readings_int [where old = 0 and tot = 0])
      (use assms ex z in \<open>auto simp: last_reading_def server_map_def counter_value_def exact_int_def\<close>)
  then show ?thesis by (simp add: tot)
qed

lemma counter_sums_server_runs_witness:
  "counter_value (fst (observe_readings BytesTotal ''ldap'' ''bytes_total''
      (zip [1, 2, 3, 4] (map (\<lambda>n. Fin (of_int n)) (concat [[10, 25], [3, 8]]))) [])) BytesTotal ''ldap'' =
    Fin (of_int (sum_list (map last [[10, 25], [3, 8 :: int]])))"
  by (rule counter_sums_server_runs) (simp_all add: validateKey_def MaxKeyLength_def counts_up_def)

text \<open>
  If the server restarts and has already counted one thousand million or more when it is read
  again, but less than before, the counter stands still: every reading is dropped until one
  exceeds the reading from before the restart.
\<close>

theorem counter_stalls_after_large_reset:
  assumes "accepts cv server key" and "last_reading cv server key = Fin (of_int old)" and "exact_int old"
    and "\<forall>n\<in>set ns. 10 ^ 9 \<le> n \<and> n < old" and "length ts = length ns"
  shows "fst (observe_readings counter server key (zip ts (map (\<lambda>n. Fin (of_int n)) ns)) cv) = []"
  using assms
proof (induction ns arbitrary: cv ts)
  case (Cons n ns)
  obtain t ts' where ts: "ts = t # ts'" "length ts' = length ns" using Cons.prems(5) by (cases ts) auto
  have n: "10 ^ 9 \<le> n" "n < old" using Cons.prems(4) by simp_all
  then have e: "0 \<le> n" "exact_int n" "0 \<le> old" using Cons.prems(3) by (auto simp: exact_int_def)
  have "\<not> f_lt (Fin (of_int n)) (f_of_int 0)" using e by (simp add: exact_int_def)
  from updateCounterCommon_accepts [OF Cons.prems(1) this, of t]
  obtain cv' where u: "updateCounterCommon t server key (Fin (of_int n)) cv = (None, cv')" "accepts cv' server key"
    "last_reading cv' server key = Fin (of_int old)"
    unfolding Cons.prems(2) counter_delta_int [OF e(3,1) Cons.prems(3) e(2)] using n by auto
  have "fst (observe_readings counter server key (zip ts' (map (\<lambda>n. Fin (of_int n)) ns)) cv') = []"
    by (rule Cons.IH) (use u Cons.prems ts in auto)
  then show ?case by (simp add: ts updateCounter_def u(1) add_positive_def split: prod.splits)
qed simp

lemma counter_stalls_after_large_reset_witness:
  "fst (observe_readings BytesTotal ''ldap'' ''bytes_total'' (zip [1, 2] (map (\<lambda>n. Fin (of_int n)) [2000000000, 3000000000]))
      [(''ldap'', [(''bytes_total'', \<lparr>entry_value = Fin 5000000000, entry_lastSeen = 0, modifying = False\<rparr>)])]) = []"
  by (rule counter_stalls_after_large_reset [where old = 5000000000])
    (simp_all add: accepts_def last_reading_def server_map_def validateKey_def MaxKeyLength_def exact_int_def)

text \<open>
  An outage longer than the retention period makes the counter jump: the clean-up forgets the last
  reading while the published value stays, so the next reading of the same, never restarted
  server is added to it in full a second time.
\<close>

theorem counter_doubles_after_outage:
  assumes "validateKey key = None" and "0 < n" and "2 * n \<le> 2 ^ 53" and "outage > t + CounterEntryRetentionPeriod"
    and "updateCounter counter t server key (Fin (of_int n)) [] = (cs1, cv1)"
    and "updateCounter counter t2 server key (Fin (of_int n)) (cleanupOldCountersSync outage cv1) = (cs2, cv2)"
  shows "counter_value cs1 counter server = Fin (of_int n) \<and>
    counter_value (cs1 @ cs2) counter server = Fin (of_int (2 * n))"
proof -
  have e: "exact_int n" "exact_int (n + n)" "exact_int 0" using assms(2,3) by (simp_all add: exact_int_def)
  have pos: "f_lt (f_of_int 0) (Fin (of_int n))" "\<not> f_lt (Fin (of_int n)) (f_of_int 0)"
    using assms(2) e by simp_all
  have d: "counter_delta (f_of_int 0) (Fin (of_int n)) = Some (Fin (of_int n))"
    using counter_delta_int [of 0 n] assms(2) e by simp
  define e1 where "e1 = \<lparr>entry_value = Fin (of_int n), entry_lastSeen = t, modifying = False\<rparr>"
  have s1: "cs1 = add_positive counter [(''server'', server)] (Some (Fin (of_int n)))" "cv1 = [(server, [(key, e1)])]"
    using assms(1,5) pos(2) d
    by (auto simp: updateCounter_def updateCounterCommon_def MaxCounterEntries_def e1_def)
  have "cleanupOldCountersSync outage cv1 = [(server, [])]"
    using assms(4) by (simp add: s1 cleanupOldCountersSync_def e1_def MaxCounterEntries_def)
  then have s2: "cs2 = add_positive counter [(''server'', server)] (Some (Fin (of_int n)))"
    using assms(1,6) pos(2) d by (auto simp: updateCounter_def updateCounterCommon_def MaxCounterEntries_def)
  have z: "counter_value [] counter server = Fin (of_int 0)" using e by (simp add: counter_value_def)
  have "counter_value ([] @ cs1) counter server = Fin (of_int n)"
    unfolding s1(1) counter_value_add z using pos(1) f_add_int [of 0 n] e by simp
  moreover from this have "counter_value (cs1 @ cs2) counter server = Fin (of_int (n + n))"
    unfolding s2 counter_value_add using pos(1) f_add_int [of n n] e by simp
  ultimately show ?thesis by simp
qed

lemma counter_doubles_after_outage_witness:
  "counter_value
     (fst (updateCounter BytesTotal 0 ''ldap'' ''bytes_total'' (Fin (of_int 500)) []) @
      fst (updateCounter BytesTotal (hour + minute) ''ldap'' ''bytes_total'' (Fin (of_int 500))
        (cleanupOldCountersSync hour (snd (updateCounter BytesTotal 0 ''ldap'' ''bytes_total'' (Fin (of_int 500)) [])))))
     BytesTotal ''ldap'' = Fin (of_int (2 * 500))"
  by (rule counter_doubles_after_outage [THEN conjunct2, OF _ _ _ _ surjective_pairing surjective_pairing])
    (simp_all add: validateKey_def MaxKeyLength_def CounterEntryRetentionPeriod_def CounterCleanupInterval_def time_defs)

subsection \<open>The table stays bounded\<close>

datatype counter_op = Update time string string float64 | Cleanup time

fun counter_step :: "counter_op \<Rightarrow> counters \<Rightarrow> counters" where
  "counter_step (Update now server key v) cv = snd (updateCounterCommon now server key v cv)"
| "counter_step (Cleanup now) cv = cleanupOldCountersSync now cv"

definition table_bounded :: "counters \<Rightarrow> bool" where
  "table_bounded cv \<longleftrightarrow> (\<forall>(server, m)\<in>set cv. distinct (map fst m) \<and> length m \<le> MaxCounterEntries)"

lemma length_update: "length (AList.update k v m) = length m + (if k \<in> fst ` set m then 0 else 1)"
  by (induction m) auto

lemma table_bounded_update:
  "table_bounded cv \<Longrightarrow> distinct (map fst m) \<Longrightarrow> length m \<le> MaxCounterEntries \<Longrightarrow> table_bounded (AList.update server m cv)"
  by (induction cv) (auto simp: table_bounded_def split: if_splits)

lemma fold_delete_alist:
  "distinct (map fst m) \<Longrightarrow> distinct (map fst (fold AList.delete ks m)) \<and> length (fold AList.delete ks m) \<le> length m"
proof (induction ks arbitrary: m)
  case (Cons k ks)
  have "distinct (map fst (AList.delete k m))" using Cons.prems by (rule AList.distinct_delete)
  from Cons.IH [OF this] show ?case using AList.length_delete_le [of k m] by simp
qed simp

lemma counter_step_bounded:
  assumes b: "table_bounded cv"
  shows "table_bounded (counter_step op cv)"
proof (cases op)
  case (Update now server key v)
  define m where "m = (case map_of cv server of Some m \<Rightarrow> m | None \<Rightarrow> [])"
  have m: "distinct (map fst m)" "length m \<le> MaxCounterEntries"
    using b by (auto simp: m_def table_bounded_def dest: map_of_SomeD split: option.splits)
  have upd: "table_bounded (AList.update server (AList.update key e m) (AList.update server m cv))"
    if "map_of m key \<noteq> None \<or> length m < MaxCounterEntries" for e
  proof (intro table_bounded_update b m)
    show "distinct (map fst (AList.update key e m))" using m(1) by (rule AList.distinct_update)
    show "length (AList.update key e m) \<le> MaxCounterEntries"
      using that m(2) by (auto simp: length_update map_of_eq_None_iff)
  qed
  show ?thesis
    using upd table_bounded_update [OF b m, of server] b
    by (auto simp: Update updateCounterCommon_def m_def [symmetric] Let_def split: option.splits)
next
  case (Cleanup now)
  show ?thesis
    using b fold_delete_alist unfolding Cleanup counter_step.simps table_bounded_def cleanupOldCountersSync_def Let_def
    by (fastforce intro: order_trans)
qed

interpretation ct: guarded_machine counter_step "\<lambda>_. True" table_bounded
  by unfold_locales (rule counter_step_bounded)

text \<open>C26.
  Whatever keys are offered for however many servers, no server's table ever holds more than
  MaxCounterEntries entries, and no key twice.
\<close>

theorem counter_table_bounded:
  "table_bounded (fold counter_step ops [])"
  by (rule ct.run_inv) (simp_all add: table_bounded_def list.pred_True)

end
