(* ===== verification/ExporterState.thy ===== *)
theory ExporterState
  imports PooledClient Accesslog SeriesTracker Counters
begin

section \<open>The exporter's state and its helpers\<close>

text \<open>
  The state the collectors of pkg/exporter work on, the interface through which they reach the
  LDAP client, and the helpers of helpers.go and collectors.go: reading attributes and names,
  the domain filter, groups of monitor counters. The maps of the program are association lists;
  the order in which Go walks a map is not specified, here it is the order of the list.
\<close>

subsection \<open>Interface and state\<close>

text \<open>
  The client's operations on the outside state \<open>'s\<close>, the clock, and what the libraries say about
  a certificate and about the first component of a name.
\<close>

record 's Client =
  cl_now :: "'s \<Rightarrow> time \<times> 's"
  cl_Search :: "string \<Rightarrow> string \<Rightarrow> string list \<Rightarrow> 's \<Rightarrow> (client_error + Entry list) \<times> 's"
  cl_SearchSuffix :: "string \<Rightarrow> string \<Rightarrow> string list \<Rightarrow> 's \<Rightarrow> (client_error + Entry list) \<times> 's"
  cl_SearchContextCSN :: "string \<Rightarrow> 's \<Rightarrow> (client_error + Entry list) \<times> 's"
  cl_SearchConfig :: "string \<Rightarrow> string list \<Rightarrow> 's \<Rightarrow> (client_error + Entry list) \<times> 's"
  cl_SearchRootDSE :: "string list \<Rightarrow> 's \<Rightarrow> (client_error + Entry list) \<times> 's"
  cl_SearchAccessLog :: "string \<Rightarrow> string list \<Rightarrow> 's \<Rightarrow> (client_error + Entry list) \<times> 's"
  cl_PeerCertificates :: "'s \<Rightarrow> (client_error + string list) \<times> 's"
  x509_subject :: "string \<Rightarrow> string \<times> string" \<comment> \<open>common name and whole name\<close>
  x509_issuer :: "string \<Rightarrow> string \<times> string"
  x509_serial :: "string \<Rightarrow> string"
  x509_NotAfter :: "string \<Rightarrow> time"
  ldap_firstRDN :: "string \<Rightarrow> (string \<times> string) list option"

record 's ExpState =
  counterValues :: counters
  accesslogCursor :: "(string \<times> CursorState) list"
  accesslogBindTracker :: accesslogSeriesTracker
  accesslogWriteTracker :: accesslogSeriesTracker
  accesslogLockTracker :: accesslogSeriesTracker
  calls :: "metric vec_call list"
  ext :: 's

definition emit_calls :: "metric vec_call list \<Rightarrow> 's ExpState \<Rightarrow> 's ExpState" where
  "emit_calls cs st = st\<lparr>calls := calls st @ cs\<rparr>"

definition set_gauge :: "metric \<Rightarrow> Labels \<Rightarrow> float64 \<Rightarrow> 's ExpState \<Rightarrow> 's ExpState" where
  "set_gauge m ls v st = emit_calls [GaugeSet m (With ls) v] st"

definition reset_vec :: "metric \<Rightarrow> 's ExpState \<Rightarrow> 's ExpState" where
  "reset_vec m st = emit_calls [ResetVec m] st"

definition on_ext :: "('s \<Rightarrow> 'a \<times> 's) \<Rightarrow> 's ExpState \<Rightarrow> 'a \<times> 's ExpState" where
  "on_ext f st = (let (x, s) = f (ext st) in (x, st\<lparr>ext := s\<rparr>))"

definition Unix :: "time \<Rightarrow> int" where
  "Unix t = t div second - 62135596800"

subsection \<open>Helpers\<close>

definition extractCNFromFirstComponent :: "string \<Rightarrow> string" where
  "extractCNFromFirstComponent dn =
     (if \<not> Contains dn ''cn='' then ''''
      else let cnPart = hd (Split dn CHR '','')
           in if HasPrefix cnPart ''cn='' then TrimPrefix cnPart ''cn='' else '''')"

definition extractCNFromDN :: "string \<Rightarrow> string \<Rightarrow> string" where
  "extractCNFromDN dn sfx = TrimSuffix (TrimPrefix dn ''cn='') sfx"

definition extractDomainComponents :: "string \<Rightarrow> string list" where
  "extractDomainComponents dn =
     concat (map (\<lambda>part.
       let part = TrimSpace part
       in if HasPrefix part ''dc=''
          then (let compon = TrimPrefix part ''dc='' in if compon \<noteq> '''' then [compon] else [])
          else []) (Split (ToLower dn) CHR '',''))"

definition shouldIncludeDomain :: "Config \<Rightarrow> string list \<Rightarrow> bool" where
  "shouldIncludeDomain cfg dcs =
     (if DCInclude cfg = [] \<and> DCExclude cfg = [] then True
      else if DCInclude cfg \<noteq> []
      then list_ex (\<lambda>dc. list_ex (\<lambda>inc. EqualFold dc inc) (DCInclude cfg)) dcs
      else \<not> list_ex (\<lambda>dc. list_ex (\<lambda>exc. EqualFold dc exc) (DCExclude cfg)) dcs)"

fun first_float :: "(string \<Rightarrow> bool) \<Rightarrow> (string \<times> string list) list \<Rightarrow> float64 option" where
  "first_float P [] = None"
| "first_float P ((n, vs) # as) =
     (if P n \<and> vs \<noteq> []
      then (case ParseFloat (hd vs) of Some v \<Rightarrow> Some v | None \<Rightarrow> first_float P as)
      else first_float P as)"

definition parseFloatAttribute :: "Entry \<Rightarrow> string \<Rightarrow> float64 option" where
  "parseFloatAttribute entry attrName = first_float (\<lambda>n. n = attrName) (EntryAttributes entry)"

definition getMonitorGroup ::
  "'s Client \<Rightarrow> string \<Rightarrow> 's ExpState \<Rightarrow> (client_error + (string \<times> float64) list) \<times> 's ExpState" where
  "getMonitorGroup cl baseDN st =
     (case on_ext (cl_Search cl baseDN ''(objectClass=*)'' [''monitorCounter'', ''monitoredInfo'']) st of
        (Inl err, st) \<Rightarrow> (Inl err, st)
      | (Inr entries, st) \<Rightarrow>
          (Inr (foldl (\<lambda>counters entry.
             let cn = extractCNFromFirstComponent (DN entry)
             in if cn = '''' then counters
                else case first_float (\<lambda>n. n = ''monitorCounter'' \<or> n = ''monitoredInfo'') (EntryAttributes entry) of
                       Some v \<Rightarrow> AList.update cn v counters
                     | None \<Rightarrow> counters) [] entries), st))"

datatype monitor_error = SearchFailed client_error | NoEntries | NotAFloat | NoCounter

fun first_counter :: "(string \<times> string list) list \<Rightarrow> monitor_error + float64" where
  "first_counter [] = Inl NoCounter"
| "first_counter ((n, vs) # as) =
     (if n = ''monitorCounter'' \<and> vs \<noteq> []
      then (case ParseFloat (hd vs) of Some v \<Rightarrow> Inr v | None \<Rightarrow> Inl NotAFloat)
      else first_counter as)"

definition getMonitorCounter :: "'s Client \<Rightarrow> string \<Rightarrow> 's ExpState \<Rightarrow> (monitor_error + float64) \<times> 's ExpState" where
  "getMonitorCounter cl dn st =
     (case on_ext (cl_Search cl dn ''(objectClass=*)'' [''monitorCounter'']) st of
        (Inl err, st) \<Rightarrow> (Inl (SearchFailed err), st)
      | (Inr [], st) \<Rightarrow> (Inl NoEntries, st)
      | (Inr (entry # _), st) \<Rightarrow> (first_counter (EntryAttributes entry), st))"

definition ensureConnection :: "'s Client \<Rightarrow> 's ExpState \<Rightarrow> client_error option \<times> 's ExpState" where
  "ensureConnection cl st =
     (case on_ext (cl_Search cl ''cn=Monitor'' ''(objectClass=*)'' [''cn'']) st of
        (Inl err, st) \<Rightarrow> (Some err, st) | (Inr _, st) \<Rightarrow> (None, st))"

definition searchLDAP where
  "searchLDAP cl baseDN flt attributes st = on_ext (cl_Search cl baseDN flt attributes) st"

text \<open>A counter update inside a collector: the clock is read, the calls are made.\<close>

definition exp_updateCounter :: "'s Client \<Rightarrow> metric \<Rightarrow> string \<Rightarrow> string \<Rightarrow> float64 \<Rightarrow> 's ExpState \<Rightarrow> 's ExpState" where
  "exp_updateCounter cl counter server key v st =
     (let (now, st) = on_ext (cl_now cl) st;
          (cs, cv) = updateCounter counter now server key v (counterValues st)
      in emit_calls cs (st\<lparr>counterValues := cv\<rparr>))"

definition exp_updateOperationCounter ::
  "'s Client \<Rightarrow> metric \<Rightarrow> string \<Rightarrow> string \<Rightarrow> string \<Rightarrow> float64 \<Rightarrow> 's ExpState \<Rightarrow> 's ExpState" where
  "exp_updateOperationCounter cl counter server operation key v st =
     (let (now, st) = on_ext (cl_now cl) st;
          (cs, cv) = updateOperationCounter counter now server operation key v (counterValues st)
      in emit_calls cs (st\<lparr>counterValues := cv\<rparr>))"

text \<open>The suffix of a database entry of cn=Databases,cn=Monitor that the replication and password
  policy collectors walk, when it passes their filters.\<close>

fun first_value :: "string \<Rightarrow> (string \<times> string list) list \<Rightarrow> string" where
  "first_value name [] = ''''"
| "first_value name ((n, vs) # as) = (if n = name \<and> vs \<noteq> [] then hd vs else first_value name as)"

definition data_suffix :: "Config \<Rightarrow> Entry \<Rightarrow> string option" where
  "data_suffix cfg entry =
     (if DN entry = ''cn=Databases,cn=Monitor'' then None
      else let suffixDN = first_value ''namingContexts'' (EntryAttributes entry)
           in if suffixDN = '''' then None
              else if HasPrefix (ToLower suffixDN) ''cn='' then None
              else if \<not> shouldIncludeDomain cfg (extractDomainComponents suffixDN) then None
              else Some suffixDN)"

end
