(* ===== verification/Collectors.thy ===== *)
theory Collectors
  imports ExporterState
begin

section \<open>The collectors of cn=Monitor\<close>

text \<open>
  collectors_statistics.go, collectors_resource.go and collectors_info.go: what each metric group
  publishes from the answers of the server. A collector whose group is filtered out does nothing.
\<close>

subsection \<open>Statistics and operations\<close>

definition collectStatisticsMetrics :: "'s Client \<Rightarrow> Config \<Rightarrow> string \<Rightarrow> 's ExpState \<Rightarrow> 's ExpState" where
  "collectStatisticsMetrics cl cfg server st =
     (if \<not> ShouldCollectMetric cfg ''statistics'' then st
      else case searchLDAP cl ''cn=Statistics,cn=Monitor'' ''(objectClass=*)'' [''monitorCounter''] st of
             (Inl _, st) \<Rightarrow> st
           | (Inr entries, st) \<Rightarrow>
               foldl (\<lambda>st entry.
                 let baseName = extractCNFromDN (DN entry) '',cn=Statistics,cn=Monitor''
                 in case parseFloatAttribute entry ''monitorCounter'' of
                      None \<Rightarrow> st
                    | Some v \<Rightarrow>
                        if baseName = ''Bytes'' then exp_updateCounter cl BytesTotal server ''bytes_total'' v st
                        else if baseName = ''Entries'' then exp_updateCounter cl EntriesTotal server ''entries_total'' v st
                        else if baseName = ''Referrals'' then exp_updateCounter cl ReferralsTotal server ''referrals_total'' v st
                        else if baseName = ''PDU'' then exp_updateCounter cl PduTotal server ''pdu_total'' v st
                        else st) st entries)"

definition operation_attribute :: "'s Client \<Rightarrow> string \<Rightarrow> string \<Rightarrow> 's ExpState \<Rightarrow> string \<times> string list \<Rightarrow> 's ExpState" where
  "operation_attribute cl server operation st attr =
     (let (name, vs) = attr
      in case (if vs = [] then None else ParseFloat (hd vs)) of
           None \<Rightarrow> st
         | Some v \<Rightarrow>
             if name = ''monitorOpInitiated''
             then exp_updateOperationCounter cl OperationsInitiated server operation (''operations_initiated_'' @ operation) v st
             else if name = ''monitorOpCompleted''
             then exp_updateOperationCounter cl OperationsCompleted server operation (''operations_completed_'' @ operation) v st
             else st)"

definition collectOperationsMetrics :: "'s Client \<Rightarrow> Config \<Rightarrow> string \<Rightarrow> 's ExpState \<Rightarrow> 's ExpState" where
  "collectOperationsMetrics cl cfg server st =
     (if \<not> ShouldCollectMetric cfg ''operations'' then st
      else case searchLDAP cl ''cn=Operations,cn=Monitor'' ''(objectClass=*)''
                  [''monitorOpInitiated'', ''monitorOpCompleted''] st of
             (Inl _, st) \<Rightarrow> st
           | (Inr entries, st) \<Rightarrow>
               foldl (\<lambda>st entry.
                 let operation = ToLower (extractCNFromDN (DN entry) '',cn=Operations,cn=Monitor'')
                 in foldl (operation_attribute cl server operation) st (EntryAttributes entry)) st entries)"

subsection \<open>Connections, threads, time, waiters, health\<close>

definition hasConnectionRDN :: "'s Client \<Rightarrow> string \<Rightarrow> bool" where
  "hasConnectionRDN cl dn =
     (case ldap_firstRDN cl dn of
        None \<Rightarrow> False
      | Some as \<Rightarrow> list_ex (\<lambda>(t, v). EqualFold t ''cn'' \<and> HasPrefix (ToLower v) ''connection '') as)"

record conn_totals =
  protocolCounts :: "(string \<times> float64) list"
  totalExecuting :: float64
  totalPending :: float64
  totalReceived :: float64
  totalCompleted :: float64

definition add_parsed :: "float64 \<Rightarrow> string \<Rightarrow> float64" where
  "add_parsed acc s = (case ParseFloat s of Some v \<Rightarrow> f_add acc v | None \<Rightarrow> acc)"

definition connection_attribute :: "conn_totals \<Rightarrow> string \<times> string list \<Rightarrow> conn_totals" where
  "connection_attribute t attr =
     (let (name, vs) = attr
      in if vs = [] then t
         else if name = ''monitorConnectionProtocol''
         then t\<lparr>protocolCounts := AList.update (hd vs)
                (f_add (case map_of (protocolCounts t) (hd vs) of Some n \<Rightarrow> n | None \<Rightarrow> f_of_int 0) (f_of_int 1))
                (protocolCounts t)\<rparr>
         else if name = ''monitorConnectionOpsExecuting'' then t\<lparr>totalExecuting := add_parsed (totalExecuting t) (hd vs)\<rparr>
         else if name = ''monitorConnectionOpsPending'' then t\<lparr>totalPending := add_parsed (totalPending t) (hd vs)\<rparr>
         else if name = ''monitorConnectionOpsReceived'' then t\<lparr>totalReceived := add_parsed (totalReceived t) (hd vs)\<rparr>
         else if name = ''monitorConnectionOpsCompleted'' then t\<lparr>totalCompleted := add_parsed (totalCompleted t) (hd vs)\<rparr>
         else t)"

definition connection_totals :: "'s Client \<Rightarrow> Entry list \<Rightarrow> conn_totals" where
  "connection_totals cl entries =
     foldl (\<lambda>t entry. if hasConnectionRDN cl (DN entry) then foldl connection_attribute t (EntryAttributes entry) else t)
       \<lparr>protocolCounts = [], totalExecuting = f_of_int 0, totalPending = f_of_int 0,
        totalReceived = f_of_int 0, totalCompleted = f_of_int 0\<rparr> entries"

definition collectIndividualConnections :: "'s Client \<Rightarrow> string \<Rightarrow> 's ExpState \<Rightarrow> 's ExpState" where
  "collectIndividualConnections cl server st =
     (let st = reset_vec ConnectionsByProtocol st
      in case on_ext (cl_Search cl ''cn=Connections,cn=Monitor'' ''(objectClass=*)''
                [''monitorConnectionProtocol'', ''monitorConnectionOpsExecuting'', ''monitorConnectionOpsPending'',
                 ''monitorConnectionOpsReceived'', ''monitorConnectionOpsCompleted'']) st of
           (Inl _, st) \<Rightarrow> st
         | (Inr entries, st) \<Rightarrow>
             let t = connection_totals cl entries;
                 st = foldl (\<lambda>st (protocol, count).
                        set_gauge ConnectionsByProtocol [(''server'', server), (''protocol'', protocol)] count st)
                        st (protocolCounts t);
                 agg = (\<lambda>state v. set_gauge ConnectionOpsAggregate [(''server'', server), (''state'', state)] v)
             in agg ''completed'' (totalCompleted t) (agg ''received'' (totalReceived t)
                  (agg ''pending'' (totalPending t) (agg ''executing'' (totalExecuting t) st))))"

definition collectConnectionsMetrics :: "'s Client \<Rightarrow> Config \<Rightarrow> string \<Rightarrow> 's ExpState \<Rightarrow> 's ExpState" where
  "collectConnectionsMetrics cl cfg server st =
     (if \<not> ShouldCollectMetric cfg ''connections'' then st
      else case getMonitorGroup cl ''cn=Connections,cn=Monitor'' st of
             (Inl _, st) \<Rightarrow> st
           | (Inr counters, st) \<Rightarrow>
               let st = foldl (\<lambda>st (cnName, v).
                     if cnName = ''Current'' then set_gauge ConnectionsCurrent [(''server'', server)] v st
                     else if cnName = ''Total'' then exp_updateCounter cl ConnectionsTotal server ''connections_total'' v st
                     else st) st counters
               in collectIndividualConnections cl server st)"

definition threadMetrics :: "(string \<times> metric) list" where
  "threadMetrics =
     [(''Max'', ThreadsMax), (''Max Pending'', ThreadsMaxPending), (''Open'', ThreadsOpen),
      (''Starting'', ThreadsStarting), (''Active'', ThreadsActive), (''Pending'', ThreadsPending),
      (''Backload'', ThreadsBackload)]"

definition collectThreadsState :: "'s Client \<Rightarrow> string \<Rightarrow> 's ExpState \<Rightarrow> 's ExpState" where
  "collectThreadsState cl server st =
     (case on_ext (cl_Search cl ''cn=State,cn=Threads,cn=Monitor'' ''(objectClass=*)'' [''monitoredInfo'']) st of
        (Inl _, st) \<Rightarrow> st
      | (Inr entries, st) \<Rightarrow>
          foldl (\<lambda>st entry. foldl (\<lambda>st (name, vs).
              if name \<noteq> ''monitoredInfo'' \<or> vs = [] then st
              else set_gauge ThreadsState [(''server'', server), (''state'', hd vs)] (f_of_int 1) st)
              st (EntryAttributes entry)) (reset_vec ThreadsState st) entries)"

definition collectThreadsMetrics :: "'s Client \<Rightarrow> Config \<Rightarrow> string \<Rightarrow> 's ExpState \<Rightarrow> 's ExpState" where
  "collectThreadsMetrics cl cfg server st =
     (if \<not> ShouldCollectMetric cfg ''threads'' then st
      else case getMonitorGroup cl ''cn=Threads,cn=Monitor'' st of
             (Inl _, st) \<Rightarrow> st
           | (Inr counters, st) \<Rightarrow>
               let st = foldl (\<lambda>st (cnName, v).
                     case map_of threadMetrics cnName of
                       Some m \<Rightarrow> set_gauge m [(''server'', server)] v st
                     | None \<Rightarrow> st) st counters
               in collectThreadsState cl server st)"

definition time_attributes :: "Entry \<Rightarrow> string \<times> string" where
  "time_attributes entry =
     foldl (\<lambda>(info, ts) (name, vs).
       if vs = [] then (info, ts)
       else if name = ''monitoredInfo'' then (hd vs, ts)
       else if name = ''monitorTimestamp'' then (info, hd vs)
       else (info, ts)) ('''', '''') (EntryAttributes entry)"

definition time_entry :: "string \<Rightarrow> 's ExpState \<Rightarrow> Entry \<Rightarrow> 's ExpState" where
  "time_entry server st entry =
     (let cn = extractCNFromFirstComponent (DN entry); (info, ts) = time_attributes entry
      in if cn = '''' then st
         else if cn = ''Uptime''
         then (if info = '''' then st
               else case ParseFloat info of
                      Some v \<Rightarrow> set_gauge ServerUptime [(''server'', server)] v st
                    | None \<Rightarrow> st)
         else if cn = ''Current'' \<or> cn = ''Start''
         then (if ts = '''' then st
               else case ParseGeneralizedTime ts of
                      Some t \<Rightarrow> set_gauge ServerTime [(''server'', server)] (f_of_int (Unix t)) st
                    | None \<Rightarrow> st)
         else st)"

definition collectTimeMetrics :: "'s Client \<Rightarrow> Config \<Rightarrow> string \<Rightarrow> 's ExpState \<Rightarrow> 's ExpState" where
  "collectTimeMetrics cl cfg server st =
     (if \<not> ShouldCollectMetric cfg ''time'' then st
      else case on_ext (cl_Search cl ''cn=Time,cn=Monitor'' ''(objectClass=*)'' [''monitoredInfo'', ''monitorTimestamp'']) st of
             (Inl _, st) \<Rightarrow> st
           | (Inr entries, st) \<Rightarrow> foldl (time_entry server) st entries)"

definition collectWaitersMetrics :: "'s Client \<Rightarrow> Config \<Rightarrow> string \<Rightarrow> 's ExpState \<Rightarrow> 's ExpState" where
  "collectWaitersMetrics cl cfg server st =
     (if \<not> ShouldCollectMetric cfg ''waiters'' then st
      else case getMonitorGroup cl ''cn=Waiters,cn=Monitor'' st of
             (Inl _, st) \<Rightarrow> st
           | (Inr counters, st) \<Rightarrow>
               foldl (\<lambda>st (cnName, v).
                 if cnName = ''Read'' then set_gauge WaitersRead [(''server'', server)] v st
                 else if cnName = ''Write'' then set_gauge WaitersWrite [(''server'', server)] v st
                 else st) st counters)"

definition collectHealthMetrics :: "'s Client \<Rightarrow> Config \<Rightarrow> string \<Rightarrow> 's ExpState \<Rightarrow> 's ExpState" where
  "collectHealthMetrics cl cfg server st =
     (if \<not> ShouldCollectMetric cfg ''health'' then st
      else let (start, st) = on_ext (cl_now cl) st;
               (r, st) = on_ext (cl_Search cl ''cn=Monitor'' ''(objectClass=*)'' [''cn'']) st;
               (now, st) = on_ext (cl_now cl) st;
               st = emit_calls [Observe ResponseTime (With [(''server'', server)]) (time_Sub now start)] st
           in case r of
                Inr _ \<Rightarrow> set_gauge HealthStatus [(''server'', server)] (f_of_int 1) st
              | Inl _ \<Rightarrow> set_gauge HealthStatus [(''server'', server)] (f_of_int 0) st)"

subsection \<open>Information vectors\<close>

text \<open>The value of ExporterVersion when the build sets none.\<close>

definition ExporterVersion :: string where "ExporterVersion = ''dev''"

definition named_info ::
  "metric \<Rightarrow> string \<Rightarrow> string \<Rightarrow> (string \<Rightarrow> Labels) \<Rightarrow> 's ExpState \<Rightarrow> Entry \<Rightarrow> 's ExpState" where
  "named_info m prefx sfx mk st entry =
     set_gauge m (mk (TrimSuffix (TrimPrefix (DN entry) prefx) sfx)) (f_of_int 1) st"

definition collectOverlaysMetrics :: "'s Client \<Rightarrow> Config \<Rightarrow> string \<Rightarrow> 's ExpState \<Rightarrow> 's ExpState" where
  "collectOverlaysMetrics cl cfg server st =
     (if \<not> ShouldCollectMetric cfg ''overlays'' then st
      else case searchLDAP cl ''cn=Overlays,cn=Monitor'' ''(objectClass=*)'' [''cn''] (reset_vec OverlaysInfo st) of
             (Inl _, st) \<Rightarrow> st
           | (Inr entries, st) \<Rightarrow>
               foldl (named_info OverlaysInfo ''cn='' '',cn=Overlays,cn=Monitor''
                 (\<lambda>overlay. [(''server'', server), (''overlay'', overlay), (''status'', ''active'')])) st entries)"

definition certName :: "string \<times> string \<Rightarrow> string" where
  "certName name = (if fst name \<noteq> '''' then fst name else snd name)"

definition cert_calls :: "'s Client \<Rightarrow> string \<Rightarrow> nat \<Rightarrow> string \<Rightarrow> metric vec_call" where
  "cert_calls cl server i cert =
     GaugeSet TlsCertNotAfter
       (With [(''server'', server), (''usage'', if i = 0 then ''server'' else ''ca''),
              (''subject'', certName (x509_subject cl cert)), (''issuer'', certName (x509_issuer cl cert)),
              (''serial'', x509_serial cl cert)]) (f_of_int (Unix (x509_NotAfter cl cert)))"

definition recordCertChain :: "'s Client \<Rightarrow> string \<Rightarrow> string list \<Rightarrow> 's ExpState \<Rightarrow> 's ExpState" where
  "recordCertChain cl server certs st =
     emit_calls (map (\<lambda>(i, cert). cert_calls cl server i cert) (enumerate 0 certs)) st"

definition collectTLSCertMetrics :: "'s Client \<Rightarrow> string \<Rightarrow> 's ExpState \<Rightarrow> 's ExpState" where
  "collectTLSCertMetrics cl server st =
     (case on_ext (cl_PeerCertificates cl) (reset_vec TlsCertNotAfter st) of
        (Inl _, st) \<Rightarrow> st
      | (Inr certs, st) \<Rightarrow> if certs = [] then st else recordCertChain cl server certs st)"

definition collectTLSMetrics :: "'s Client \<Rightarrow> Config \<Rightarrow> string \<Rightarrow> 's ExpState \<Rightarrow> 's ExpState" where
  "collectTLSMetrics cl cfg server st =
     (if \<not> ShouldCollectMetric cfg ''tls'' then st
      else let st = (case searchLDAP cl ''cn=TLS,cn=Monitor'' ''(objectClass=*)'' [''cn''] (reset_vec TlsInfo st) of
                (Inl _, st) \<Rightarrow> st
              | (Inr entries, st) \<Rightarrow>
                  foldl (named_info TlsInfo ''cn='' '',cn=TLS,cn=Monitor''
                    (\<lambda>c. [(''server'', server), (''component'', c), (''status'', ''configured'')])) st entries)
           in collectTLSCertMetrics cl server st)"

definition collectBackendsMetrics :: "'s Client \<Rightarrow> Config \<Rightarrow> string \<Rightarrow> 's ExpState \<Rightarrow> 's ExpState" where
  "collectBackendsMetrics cl cfg server st =
     (if \<not> ShouldCollectMetric cfg ''backends'' then st
      else case searchLDAP cl ''cn=Backends,cn=Monitor'' ''(objectClass=*)''
                  [''cn'', ''monitoredInfo'', ''monitorRuntimeConfig'', ''supportedControl'', ''seeAlso'']
                  (reset_vec BackendsInfo st) of
             (Inl _, st) \<Rightarrow> st
           | (Inr entries, st) \<Rightarrow>
               foldl (\<lambda>st entry.
                 let backend = TrimSuffix (TrimPrefix (DN entry) ''cn='') '',cn=Backends,cn=Monitor'';
                     backendType = foldl (\<lambda>ty (name, vs). if name = ''monitoredInfo'' \<and> vs \<noteq> [] then hd vs else ty)
                       ''unknown'' (EntryAttributes entry)
                 in set_gauge BackendsInfo [(''server'', server), (''backend'', backend), (''type'', backendType)]
                      (f_of_int 1) st) st entries)"

definition collectListenersMetrics :: "'s Client \<Rightarrow> Config \<Rightarrow> string \<Rightarrow> 's ExpState \<Rightarrow> 's ExpState" where
  "collectListenersMetrics cl cfg server st =
     (if \<not> ShouldCollectMetric cfg ''listeners'' then st
      else case on_ext (cl_Search cl ''cn=Listeners,cn=Monitor'' ''(objectClass=*)'' [''cn'', ''labeledURI''])
                  (reset_vec ListenersInfo st) of
             (Inl _, st) \<Rightarrow> st
           | (Inr entries, st) \<Rightarrow>
               foldl (\<lambda>st entry.
                 let listener = TrimSuffix (TrimPrefix (DN entry) ''cn=Listener '') '',cn=Listeners,cn=Monitor'';
                     address = foldl (\<lambda>a (name, vs). if name = ''labeledURI'' \<and> vs \<noteq> [] then hd vs else a)
                       ''unknown'' (EntryAttributes entry)
                 in set_gauge ListenersInfo [(''server'', server), (''listener'', listener), (''address'', address)]
                      (f_of_int 1) st) st entries)"

definition collectSupportedControlsMetrics :: "'s Client \<Rightarrow> Config \<Rightarrow> string \<Rightarrow> 's ExpState \<Rightarrow> 's ExpState" where
  "collectSupportedControlsMetrics cl cfg server st =
     (if \<not> ShouldCollectMetric cfg ''server'' then st
      else case on_ext (cl_SearchRootDSE cl [''supportedControl'']) (reset_vec SupportedControlInfo st) of
             (Inl _, st) \<Rightarrow> st
           | (Inr entries, st) \<Rightarrow>
               foldl (\<lambda>st oid. set_gauge SupportedControlInfo [(''server'', server), (''oid'', oid)] (f_of_int 1) st) st
                 (concat (map (\<lambda>entry. concat (map snd (filter (\<lambda>a. fst a = ''supportedControl'') (EntryAttributes entry))))
                    entries)))"

definition server_attributes :: "Entry \<Rightarrow> string \<times> string" where
  "server_attributes entry =
     foldl (\<lambda>(version, description) (name, vs).
       if name = ''monitoredInfo'' \<and> vs \<noteq> [] then (hd vs, description)
       else if name = ''description'' \<and> vs \<noteq> [] then (version, hd vs)
       else (version, description)) (''unknown'', ''unknown'') (EntryAttributes entry)"

definition collectServerInfoMetrics :: "'s Client \<Rightarrow> Config \<Rightarrow> string \<Rightarrow> 's ExpState \<Rightarrow> 's ExpState" where
  "collectServerInfoMetrics cl cfg server st =
     (if \<not> ShouldCollectMetric cfg ''server'' then st
      else case on_ext (cl_Search cl ''cn=Monitor'' ''(objectClass=*)'' [''monitoredInfo'', ''description'']) st of
             (Inl _, st) \<Rightarrow> st
           | (Inr entries, st) \<Rightarrow>
               let st = foldl (\<lambda>st entry.
                     if DN entry = ''cn=Monitor''
                     then (let (version, description) = server_attributes entry
                           in set_gauge ServerInfo
                                [(''server'', server), (''version'', version), (''exporter_version'', ExporterVersion),
                                 (''description'', description)] (f_of_int 1) st)
                     else st) st entries
               in collectSupportedControlsMetrics cl cfg server st)"

definition logTypes :: "string list" where
  "logTypes =
     [''Trace'', ''Packets'', ''Args'', ''Conns'', ''BER'', ''Filter'', ''Config'', ''ACL'', ''Stats'', ''Stats2'',
      ''Shell'', ''Parse'', ''Sync'']"

definition collectLogMetrics :: "'s Client \<Rightarrow> Config \<Rightarrow> string \<Rightarrow> 's ExpState \<Rightarrow> 's ExpState" where
  "collectLogMetrics cl cfg server st =
     (if \<not> ShouldCollectMetric cfg ''log'' then st
      else case on_ext (cl_Search cl ''cn=Log,cn=Monitor'' ''(objectClass=*)'' [''cn'', ''description''])
                  (reset_vec LogLevels st) of
             (Inl _, st) \<Rightarrow> st
           | (Inr entries, st) \<Rightarrow>
               let st = foldl (\<lambda>st t. set_gauge LogLevels [(''server'', server), (''log_type'', t)] (f_of_int 0) st) st logTypes
               in foldl (named_info LogLevels ''cn='' '',cn=Log,cn=Monitor''
                    (\<lambda>t. [(''server'', server), (''log_type'', t)])) st
                    (filter (\<lambda>entry. DN entry \<noteq> ''cn=Log,cn=Monitor'') entries))"

definition collectSASLMetrics :: "'s Client \<Rightarrow> Config \<Rightarrow> string \<Rightarrow> 's ExpState \<Rightarrow> 's ExpState" where
  "collectSASLMetrics cl cfg server st =
     (if \<not> ShouldCollectMetric cfg ''sasl'' then st
      else case on_ext (cl_Search cl ''cn=SASL,cn=Monitor'' ''(objectClass=*)''
                  [''cn'', ''description'', ''supportedSASLMechanisms'']) (reset_vec SaslInfo st) of
             (Inl _, st) \<Rightarrow> st
           | (Inr entries, st) \<Rightarrow>
               foldl (named_info SaslInfo ''cn='' '',cn=SASL,cn=Monitor''
                 (\<lambda>m. [(''server'', server), (''mechanism'', m), (''status'', ''configured'')])) st
                 (filter (\<lambda>entry. DN entry \<noteq> ''cn=SASL,cn=Monitor'') entries))"

end
