(* ===== verification/CollectorsData.thy ===== *)
theory CollectorsData
  imports ExporterState
begin

section \<open>The collectors of databases, replication, password policy and accesslog\<close>

text \<open>
  collectors_database.go, collectors_replication.go, collectors_ppolicy.go and
  collectors_accesslog.go. Parsing a contextCSN can panic: the loops of the replication collector
  return whether it did, with the state the panic leaves behind.
\<close>

subsection \<open>Databases\<close>

record databaseInfo =
  baseDN :: string
  entryCount :: float64
  isShadow :: string
  dbContext :: string
  readOnly :: string
  entryDN :: string
  mdbPagesUsed :: float64
  mdbPagesMax :: float64
  mdbPagesFree :: float64
  mdbReadersUsed :: float64
  mdbReadersMax :: float64
  hasMDBStats :: bool

definition with_float :: "string \<Rightarrow> (float64 \<Rightarrow> 'a \<Rightarrow> 'a) \<Rightarrow> 'a \<Rightarrow> 'a" where
  "with_float s f x = (case ParseFloat s of Some v \<Rightarrow> f v x | None \<Rightarrow> x)"

definition processDatabaseAttribute :: "string \<times> string list \<Rightarrow> databaseInfo \<Rightarrow> databaseInfo" where
  "processDatabaseAttribute attr info =
     (let (name, vs) = attr
      in if vs = [] then info
         else if name = ''namingContexts'' then info\<lparr>baseDN := hd vs\<rparr>
         else if name = ''monitorCounter'' \<or> name = ''olmMDBEntries''
         then with_float (hd vs) (\<lambda>v info. info\<lparr>entryCount := v\<rparr>) info
         else if name = ''monitoredInfo'' then (if baseDN info = '''' then info\<lparr>baseDN := hd vs\<rparr> else info)
         else if name = ''monitorIsShadow'' then info\<lparr>isShadow := hd vs\<rparr>
         else if name = ''monitorContext'' then info\<lparr>dbContext := hd vs\<rparr>
         else if name = ''readOnly'' then info\<lparr>readOnly := hd vs\<rparr>
         else if name = ''olmMDBPagesMax''
         then with_float (hd vs) (\<lambda>v info. info\<lparr>mdbPagesMax := v, hasMDBStats := True\<rparr>) info
         else if name = ''olmMDBPagesUsed''
         then with_float (hd vs) (\<lambda>v info. info\<lparr>mdbPagesUsed := v, hasMDBStats := True\<rparr>) info
         else if name = ''olmMDBPagesFree''
         then with_float (hd vs) (\<lambda>v info. info\<lparr>mdbPagesFree := v, hasMDBStats := True\<rparr>) info
         else if name = ''olmMDBReadersMax''
         then with_float (hd vs) (\<lambda>v info. info\<lparr>mdbReadersMax := v, hasMDBStats := True\<rparr>) info
         else if name = ''olmMDBReadersUsed''
         then with_float (hd vs) (\<lambda>v info. info\<lparr>mdbReadersUsed := v, hasMDBStats := True\<rparr>) info
         else info)"

definition extractDatabaseInfo :: "Entry \<Rightarrow> databaseInfo" where
  "extractDatabaseInfo entry =
     fold processDatabaseAttribute (EntryAttributes entry)
       \<lparr>baseDN = '''', entryCount = f_of_int 0, isShadow = ''FALSE'', dbContext = '''', readOnly = ''FALSE'',
        entryDN = DN entry, mdbPagesUsed = f_of_int 0, mdbPagesMax = f_of_int 0, mdbPagesFree = f_of_int 0,
        mdbReadersUsed = f_of_int 0, mdbReadersMax = f_of_int 0, hasMDBStats = False\<rparr>"

definition recordDatabaseMetrics :: "string \<Rightarrow> databaseInfo \<Rightarrow> string list \<Rightarrow> 's ExpState \<Rightarrow> 's ExpState" where
  "recordDatabaseMetrics server info domainComponents st =
     (let st = set_gauge DatabaseEntries
                 [(''server'', server), (''base_dn'', baseDN info), (''domain_component'', Join domainComponents '','')]
                 (entryCount info) st;
          st = set_gauge DatabaseInfo
                 [(''server'', server), (''base_dn'', baseDN info), (''is_shadow'', isShadow info),
                  (''context'', dbContext info), (''readonly'', readOnly info)] (f_of_int 1) st
      in if hasMDBStats info
         then let labels = [(''server'', server), (''base_dn'', baseDN info)]
              in set_gauge DatabaseMDBReadersMax labels (mdbReadersMax info)
                 (set_gauge DatabaseMDBReadersUsed labels (mdbReadersUsed info)
                 (set_gauge DatabaseMDBPagesFree labels (mdbPagesFree info)
                 (set_gauge DatabaseMDBPagesMax labels (mdbPagesMax info)
                 (set_gauge DatabaseMDBPagesUsed labels (mdbPagesUsed info) st))))
         else st)"

definition processDatabaseEntry :: "Config \<Rightarrow> string \<Rightarrow> Entry \<Rightarrow> 's ExpState \<Rightarrow> 's ExpState" where
  "processDatabaseEntry cfg server entry st =
     (let dbInfo = extractDatabaseInfo entry
      in if baseDN dbInfo = '''' then st
         else let domainComponents = extractDomainComponents (baseDN dbInfo)
              in if domainComponents \<noteq> [] \<and> \<not> shouldIncludeDomain cfg domainComponents then st
                 else recordDatabaseMetrics server dbInfo domainComponents st)"

definition searchDatabaseEntries :: "'s Client \<Rightarrow> 's ExpState \<Rightarrow> (client_error + Entry list) \<times> 's ExpState" where
  "searchDatabaseEntries cl st =
     on_ext (cl_Search cl ''cn=Databases,cn=Monitor'' ''(objectClass=*)''
       [''namingContexts'', ''monitorCounter'', ''monitoredInfo'', ''monitorIsShadow'', ''monitorContext'',
        ''readOnly'', ''olmMDBEntries'', ''olmMDBPagesMax'', ''olmMDBPagesUsed'', ''olmMDBPagesFree'',
        ''olmMDBReadersMax'', ''olmMDBReadersUsed'']) st"

definition collectDatabaseMetrics :: "'s Client \<Rightarrow> Config \<Rightarrow> string \<Rightarrow> 's ExpState \<Rightarrow> 's ExpState" where
  "collectDatabaseMetrics cl cfg server st =
     (if \<not> ShouldCollectMetric cfg ''database'' then st
      else case searchDatabaseEntries cl st of
             (Inl _, st) \<Rightarrow> st
           | (Inr entries, st) \<Rightarrow>
               fold (\<lambda>entry st.
                 if DN entry = ''cn=Databases,cn=Monitor'' then st
                 else if Contains (DN entry) ''cn=Overlay'' then st
                 else processDatabaseEntry cfg server entry st) entries st)"

subsection \<open>Replication\<close>

text \<open>The values of one contextCSN attribute; a malformed one is skipped, a panic ends the loop.\<close>

fun csn_values :: "string \<Rightarrow> string \<Rightarrow> time \<Rightarrow> string list \<Rightarrow> 's ExpState \<Rightarrow> bool \<times> 's ExpState" where
  "csn_values server suffixDN now [] st = (False, st)"
| "csn_values server suffixDN now (v # vs) st =
     (case csn_Parse v of
        None \<Rightarrow> (True, st)
      | Some (Inl _) \<Rightarrow> csn_values server suffixDN now vs st
      | Some (Inr (csnTime, serverID)) \<Rightarrow>
          let labels = [(''server'', server), (''base_dn'', suffixDN), (''server_id'', serverID)];
              st = set_gauge ReplicationCSN labels (f_of_int (Unix csnTime)) st;
              st = set_gauge ReplicationLag labels (duration_Seconds (time_Sub now csnTime)) st
          in csn_values server suffixDN now vs st)"

fun csn_attributes ::
  "string \<Rightarrow> string \<Rightarrow> time \<Rightarrow> (string \<times> string list) list \<Rightarrow> 's ExpState \<Rightarrow> bool \<times> 's ExpState" where
  "csn_attributes server suffixDN now [] st = (False, st)"
| "csn_attributes server suffixDN now ((name, vs) # as) st =
     (if name \<noteq> ''contextCSN'' then csn_attributes server suffixDN now as st
      else case csn_values server suffixDN now vs st of
             (True, st) \<Rightarrow> (True, st)
           | (False, st) \<Rightarrow> csn_attributes server suffixDN now as st)"

fun replication_entries ::
  "'s Client \<Rightarrow> Config \<Rightarrow> string \<Rightarrow> time \<Rightarrow> Entry list \<Rightarrow> 's ExpState \<Rightarrow> bool \<times> 's ExpState" where
  "replication_entries cl cfg server now [] st = (False, st)"
| "replication_entries cl cfg server now (entry # entries) st =
     (case data_suffix cfg entry of
        None \<Rightarrow> replication_entries cl cfg server now entries st
      | Some suffixDN \<Rightarrow>
          (case on_ext (cl_SearchContextCSN cl suffixDN) st of
             (Inr (e # _), st) \<Rightarrow>
               (case csn_attributes server suffixDN now (EntryAttributes e) st of
                  (True, st) \<Rightarrow> (True, st)
                | (False, st) \<Rightarrow> replication_entries cl cfg server now entries st)
           | (_, st) \<Rightarrow> replication_entries cl cfg server now entries st))"

definition topology_attribute :: "string \<times> string list \<Rightarrow> string \<times> float64 \<times> float64 \<Rightarrow> string \<times> float64 \<times> float64" where
  "topology_attribute attr acc =
     (let (name, vs) = attr; (suffixDN, multiProvider, peers) = acc
      in if name = ''olcSuffix'' then (if vs \<noteq> [] then hd vs else suffixDN, multiProvider, peers)
         else if name = ''olcSyncrepl'' then (suffixDN, multiProvider, f_of_int (int (length vs)))
         else if name = ''olcMultiProvider'' \<or> name = ''olcMirrorMode''
         then (suffixDN, if vs \<noteq> [] \<and> EqualFold (hd vs) ''TRUE'' then f_of_int 1 else multiProvider, peers)
         else (suffixDN, multiProvider, peers))"

definition collectReplicationTopology :: "'s Client \<Rightarrow> Config \<Rightarrow> string \<Rightarrow> 's ExpState \<Rightarrow> 's ExpState" where
  "collectReplicationTopology cl cfg server st =
     (case on_ext (cl_SearchConfig cl ''(olcSuffix=*)''
             [''olcSuffix'', ''olcSyncrepl'', ''olcMultiProvider'', ''olcMirrorMode'']) st of
        (Inl _, st) \<Rightarrow> st
      | (Inr entries, st) \<Rightarrow>
          fold (\<lambda>entry st.
            let (suffixDN, multiProvider, peers) =
                  fold topology_attribute (EntryAttributes entry) ('''', f_of_int 0, f_of_int 0)
            in if suffixDN = '''' then st
               else if \<not> shouldIncludeDomain cfg (extractDomainComponents suffixDN) then st
               else let labels = [(''server'', server), (''base_dn'', suffixDN)]
                    in set_gauge ReplicationConfiguredPeers labels peers
                       (set_gauge ReplicationMultiProvider labels multiProvider st)) entries st)"

definition collectReplicationMetrics :: "'s Client \<Rightarrow> Config \<Rightarrow> string \<Rightarrow> 's ExpState \<Rightarrow> bool \<times> 's ExpState" where
  "collectReplicationMetrics cl cfg server st =
     (if \<not> ShouldCollectMetric cfg ''replication'' then (False, st)
      else case searchLDAP cl ''cn=Databases,cn=Monitor'' ''(objectClass=*)'' [''namingContexts''] st of
             (Inl _, st) \<Rightarrow> (False, st)
           | (Inr entries, st) \<Rightarrow>
               let (now, st) = on_ext (cl_now cl) st
               in case replication_entries cl cfg server now entries st of
                    (True, st) \<Rightarrow> (True, st)
                  | (False, st) \<Rightarrow> (False, collectReplicationTopology cl cfg server st))"

subsection \<open>Password policy\<close>

definition extractUserName :: "Entry \<Rightarrow> string" where
  "extractUserName entry =
     (case find (\<lambda>a. fst a = ''uid'' \<and> snd a \<noteq> []) (EntryAttributes entry) of
        Some a \<Rightarrow> hd (snd a)
      | None \<Rightarrow>
          (case find (\<lambda>a. fst a = ''cn'' \<and> snd a \<noteq> []) (EntryAttributes entry) of
             Some a \<Rightarrow> hd (snd a)
           | None \<Rightarrow>
               (case SplitN (hd (SplitN (DN entry) CHR '','' 2)) CHR ''='' 2 of
                  [k, v] \<Rightarrow> v
                | _ \<Rightarrow> DN entry)))"

definition ppolicyAttributes :: "string list" where
  "ppolicyAttributes = [''pwdChangedTime'', ''pwdLastSuccess'', ''pwdGraceUseTime'', ''pwdReset'', ''uid'', ''cn'']"

definition ppolicy_attribute :: "Labels \<Rightarrow> string \<times> string list \<Rightarrow> 's ExpState \<Rightarrow> 's ExpState" where
  "ppolicy_attribute labels attr st =
     (let (name, vs) = attr
      in if vs = [] then st
         else if name = ''pwdChangedTime''
         then (case ParseGeneralizedTime (hd vs) of
                 Some ts \<Rightarrow> set_gauge PpolicyPwdChangedTimestamp labels (f_of_int (Unix ts)) st
               | None \<Rightarrow> st)
         else if name = ''pwdLastSuccess''
         then (case ParseGeneralizedTime (hd vs) of
                 Some ts \<Rightarrow> set_gauge PpolicyPwdLastSuccess labels (f_of_int (Unix ts)) st
               | None \<Rightarrow> st)
         else if name = ''pwdGraceUseTime''
         then set_gauge PpolicyPwdGraceUseCount labels (f_of_int (int (length vs))) st
         else if name = ''pwdReset''
         then set_gauge PpolicyPwdReset labels (if EqualFold (hd vs) ''TRUE'' then f_of_int 1 else f_of_int 0) st
         else st)"

definition processPpolicyEntry :: "string \<Rightarrow> string \<Rightarrow> Entry \<Rightarrow> 's ExpState \<Rightarrow> 's ExpState" where
  "processPpolicyEntry server base entry st =
     (let labels = [(''server'', server), (''user_dn'', DN entry), (''user'', extractUserName entry), (''base_dn'', base)]
      in fold (ppolicy_attribute labels) (EntryAttributes entry) st)"

definition collectPpolicyForSuffix :: "'s Client \<Rightarrow> string \<Rightarrow> string \<Rightarrow> 's ExpState \<Rightarrow> 's ExpState" where
  "collectPpolicyForSuffix cl server suffixDN st =
     (case on_ext (cl_SearchSuffix cl suffixDN
             ''(|(pwdChangedTime=*)(pwdLastSuccess=*)(pwdGraceUseTime=*)(pwdReset=TRUE))'' ppolicyAttributes) st of
        (Inl _, st) \<Rightarrow> st
      | (Inr entries, st) \<Rightarrow> fold (processPpolicyEntry server suffixDN) entries st)"

definition collectPpolicyMetrics :: "'s Client \<Rightarrow> Config \<Rightarrow> string \<Rightarrow> 's ExpState \<Rightarrow> 's ExpState" where
  "collectPpolicyMetrics cl cfg server st =
     (if \<not> ShouldCollectMetric cfg ''ppolicy'' then st
      else let st = reset_vec PpolicyPwdReset (reset_vec PpolicyPwdGraceUseCount
                      (reset_vec PpolicyPwdLastSuccess (reset_vec PpolicyPwdChangedTimestamp st)))
           in case searchLDAP cl ''cn=Databases,cn=Monitor'' ''(objectClass=*)'' [''namingContexts''] st of
                (Inl _, st) \<Rightarrow> st
              | (Inr entries, st) \<Rightarrow>
                  fold (\<lambda>entry st. case data_suffix cfg entry of
                          None \<Rightarrow> st
                        | Some suffixDN \<Rightarrow> collectPpolicyForSuffix cl server suffixDN st) entries st)"

subsection \<open>Accesslog\<close>

definition getAccesslogCursor :: "'s Client \<Rightarrow> string \<Rightarrow> 's ExpState \<Rightarrow> CursorState \<times> 's ExpState" where
  "getAccesslogCursor cl server st =
     (case map_of (accesslogCursor st) server of
        Some cur \<Rightarrow> (cur, st)
      | None \<Rightarrow>
          let (now, st) = on_ext (cl_now cl) st; cur = NewCursorState now
          in (cur, st\<lparr>accesslogCursor := AList.update server cur (accesslogCursor st)\<rparr>))"

definition tracker_Inc ::
  "'s Client \<Rightarrow> Labels \<Rightarrow> accesslogSeriesTracker \<Rightarrow> 's ExpState \<Rightarrow> accesslogSeriesTracker \<times> 's ExpState" where
  "tracker_Inc cl labels t st =
     (let (admitted, cs, t, s) = Inc (cl_now cl) labels t (ext st)
      in (t, emit_calls cs (st\<lparr>ext := s\<rparr>)))"

definition bind_count :: "'s Client \<Rightarrow> string \<Rightarrow> Entry \<Rightarrow> 's ExpState \<Rightarrow> nat \<times> 's ExpState" where
  "bind_count cl server entry st =
     (let userDN = Attr entry ''reqDN''; userName = ExtractUserNameFromDN userDN
      in if userDN = '''' then (0, st)
         else if userName = '''' then (0, st)
         else let (t, st) = tracker_Inc cl
                    [(''server'', server), (''user'', userName), (''result'', ClassifyBindResult (Attr entry ''reqResult''))]
                    (accesslogBindTracker st) st
              in (1, st\<lparr>accesslogBindTracker := t\<rparr>))"

definition write_count :: "'s Client \<Rightarrow> string \<Rightarrow> Entry \<Rightarrow> 's ExpState \<Rightarrow> nat \<times> 's ExpState" where
  "write_count cl server entry st =
     (let opType = Attr entry ''reqType''; authzID = TrimDNPrefix (Attr entry ''reqAuthzID'');
          userName = ExtractUserNameFromDN authzID
      in if authzID = '''' \<or> opType = '''' then (0, st)
         else if userName = '''' then (0, st)
         else let (t, st) = tracker_Inc cl
                    [(''server'', server), (''user'', userName), (''operation'', ToLower opType)]
                    (accesslogWriteTracker st) st
              in (1, st\<lparr>accesslogWriteTracker := t\<rparr>))"

definition lock_count :: "'s Client \<Rightarrow> string \<Rightarrow> Entry \<Rightarrow> 's ExpState \<Rightarrow> nat \<times> 's ExpState" where
  "lock_count cl server entry st =
     (if \<not> HasReqModAddition entry ''pwdAccountLockedTime'' then (0, st)
      else let userDN = Attr entry ''reqDN''; userName = ExtractUserNameFromDN userDN
           in if userDN = '''' then (0, st)
              else if userName = '''' then (0, st)
              else let (t, st) = tracker_Inc cl [(''server'', server), (''user'', userName)] (accesslogLockTracker st) st
                   in (1, st\<lparr>accesslogLockTracker := t\<rparr>))"

definition search_accesslog ::
  "'s Client \<Rightarrow> string \<Rightarrow> string list \<Rightarrow> 's ExpState \<Rightarrow> (client_error + Entry list) \<times> 's ExpState" where
  "search_accesslog cl flt attrs st = on_ext (cl_SearchAccessLog cl flt attrs) st"

definition collectAccesslogBinds ::
  "'s Client \<Rightarrow> string \<Rightarrow> CursorState \<Rightarrow> 's ExpState \<Rightarrow> (client_error + nat) \<times> CursorState \<times> 's ExpState" where
  "collectAccesslogBinds cl server cursor st =
     scan_stream (search_accesslog cl) StreamBind BindBaseFilter [''reqStart'', ''reqDN'', ''reqResult'']
       (bind_count cl server) cursor st"

definition collectAccesslogWrites ::
  "'s Client \<Rightarrow> string \<Rightarrow> CursorState \<Rightarrow> 's ExpState \<Rightarrow> (client_error + nat) \<times> CursorState \<times> 's ExpState" where
  "collectAccesslogWrites cl server cursor st =
     scan_stream (search_accesslog cl) StreamWrite WriteBaseFilter [''reqStart'', ''reqType'', ''reqAuthzID'']
       (write_count cl server) cursor st"

definition collectAccesslogLockEvents ::
  "'s Client \<Rightarrow> string \<Rightarrow> CursorState \<Rightarrow> 's ExpState \<Rightarrow> (client_error + nat) \<times> CursorState \<times> 's ExpState" where
  "collectAccesslogLockEvents cl server cursor st =
     scan_stream (search_accesslog cl) StreamLock LockBaseFilter [''reqStart'', ''reqDN'', ''reqMod'']
       (lock_count cl server) cursor st"

definition collectAccesslogMetrics :: "'s Client \<Rightarrow> Config \<Rightarrow> string \<Rightarrow> 's ExpState \<Rightarrow> 's ExpState" where
  "collectAccesslogMetrics cl cfg server st =
     (if \<not> ShouldCollectMetric cfg ''accesslog'' then st
      else let (cursor, st) = getAccesslogCursor cl server st;
               (_, cursor, st) = collectAccesslogBinds cl server cursor st;
               (_, cursor, st) = collectAccesslogWrites cl server cursor st;
               (_, cursor, st) = collectAccesslogLockEvents cl server cursor st
           in st\<lparr>accesslogCursor := AList.update server cursor (accesslogCursor st)\<rparr>)"

end
