(* ===== verification/CollectorProperties.thy ===== *)
theory CollectorProperties
  imports Collectors CollectorsData
begin

section \<open>What the collectors publish\<close>

text \<open>
  Every collector keeps the calls on the metric vectors well typed; this is the law the
  collection cycle relies on. The password policy series are rebuilt by every scan.
\<close>

subsection \<open>Calls fit the registry\<close>

text \<open>
  \<open>fits\<close>: the calls made so far name a vector of the right kind with exactly its labels, no counter
  goes down, and each tracker guards its own vector.
\<close>

definition fits :: "'s ExpState \<Rightarrow> bool" where
  "fits st \<longleftrightarrow> list_all (call_ok NewOpenLDAPMetrics) (calls st) \<and>
     tracked_vec (accesslogBindTracker st) = AccesslogBindTotal \<and>
     tracked_vec (accesslogWriteTracker st) = AccesslogWriteTotal \<and>
     tracked_vec (accesslogLockTracker st) = AccesslogLockEventsTotal"

named_theorems fits_intros

lemma fits_emit: "fits (emit_calls cs st) \<longleftrightarrow> fits st \<and> list_all (call_ok NewOpenLDAPMetrics) cs"
  by (auto simp: fits_def emit_calls_def)

lemma fits_set_gauge: "fits (set_gauge m ls v st) \<longleftrightarrow> fits st \<and> call_ok NewOpenLDAPMetrics (GaugeSet m (With ls) v)"
  by (simp add: set_gauge_def fits_emit)

lemma fits_reset_vec [simp]: "fits (reset_vec m st) \<longleftrightarrow> fits st"
  using all_described [of m] by (simp add: reset_vec_def fits_emit map_of_eq_None_iff)

lemma fits_ext [simp]: "fits (st\<lparr>ext := s\<rparr>) \<longleftrightarrow> fits st" "fits (st\<lparr>counterValues := cv\<rparr>) \<longleftrightarrow> fits st"
  "fits (st\<lparr>accesslogCursor := cur\<rparr>) \<longleftrightarrow> fits st"
  by (simp_all add: fits_def)

lemma fits_on_ext: "on_ext f st = (x, st') \<Longrightarrow> fits st' \<longleftrightarrow> fits st"
  by (auto simp: on_ext_def Let_def split: prod.splits)

lemma fits_snd_on_ext [simp]: "fits (snd (on_ext f st)) \<longleftrightarrow> fits st"
  by (simp add: fits_on_ext [OF surjective_pairing])

lemma fits_fold: "(\<And>x st. x \<in> set xs \<Longrightarrow> fits st \<Longrightarrow> fits (f x st)) \<Longrightarrow> fits st \<Longrightarrow> fits (fold f xs st)"
  by (induction xs arbitrary: st) auto

lemma fits_foldl: "(\<And>x st. x \<in> set xs \<Longrightarrow> fits st \<Longrightarrow> fits (f st x)) \<Longrightarrow> fits st \<Longrightarrow> fits (foldl f st xs)"
  by (induction xs arbitrary: st) auto

lemma f_lt_asym: "f_lt a b \<Longrightarrow> \<not> f_lt b a"
  by (induction a b rule: f_lt.induct) auto

lemma fits_updateCounter:
  assumes "map_of NewOpenLDAPMetrics m = Some d" "vec_kind d = Counter" "vec_labels d = [''server'']" "fits st"
  shows "fits (exp_updateCounter cl m server key v st)"
proof -
  have "list_all (call_ok NewOpenLDAPMetrics) (add_positive m [(''server'', server)] x)" for x
    using assms f_lt_asym by (auto simp: add_positive_def labels_fit_def split: option.splits)
  then show ?thesis
    using assms(4) by (auto simp: exp_updateCounter_def updateCounter_def fits_emit fits_on_ext Let_def split: prod.splits)
qed

lemma fits_updateOperationCounter:
  assumes "map_of NewOpenLDAPMetrics m = Some d" "vec_kind d = Counter" "vec_labels d = [''server'', ''operation'']"
    and "operation \<noteq> ''''" "fits st"
  shows "fits (exp_updateOperationCounter cl m server operation key v st)"
proof -
  have "list_all (call_ok NewOpenLDAPMetrics) (add_positive m [(''server'', server), (''operation'', operation)] x)" for x
    using assms f_lt_asym by (auto simp: add_positive_def labels_fit_def split: option.splits)
  then show ?thesis
    using assms(4,5)
    by (auto simp: exp_updateOperationCounter_def updateOperationCounter_def fits_emit fits_on_ext Let_def split: prod.splits)
qed


lemmas fits_simps = fits_set_gauge fits_on_ext fits_emit labels_fit_def searchLDAP_def

lemma collectStatisticsMetrics_fits: "fits st \<Longrightarrow> fits (collectStatisticsMetrics cl cfg server st)"
  by (auto simp: collectStatisticsMetrics_def fits_simps Let_def intro!: fits_foldl fits_updateCounter
      split: prod.splits sum.splits option.splits)

text \<open>The server names its operations.\<close>

definition names_operations :: "'s Client \<Rightarrow> bool" where
  "names_operations cl \<longleftrightarrow>
     (\<forall>s. case cl_Search cl ''cn=Operations,cn=Monitor'' ''(objectClass=*)'' [''monitorOpInitiated'', ''monitorOpCompleted''] s of
            (Inl _, _) \<Rightarrow> True
          | (Inr entries, _) \<Rightarrow>
              list_all (\<lambda>e. extractCNFromDN (DN e) '',cn=Operations,cn=Monitor'' \<noteq> '''') entries)"

lemma collectOperationsMetrics_fits:
  assumes "names_operations cl" "fits st"
  shows "fits (collectOperationsMetrics cl cfg server st)"
proof -
  have one: "fits (operation_attribute cl server operation st a)" if "fits st" "operation \<noteq> ''''" for st operation a
    using that by (auto simp: operation_attribute_def Let_def intro!: fits_updateOperationCounter split: prod.splits option.splits)
  show ?thesis
  proof (cases "on_ext (cl_Search cl ''cn=Operations,cn=Monitor'' ''(objectClass=*)''
      [''monitorOpInitiated'', ''monitorOpCompleted'']) st")
    case (Pair r st')
    then have st': "fits st'" using assms(2) by (simp add: fits_on_ext)
    have "extractCNFromDN (DN e) '',cn=Operations,cn=Monitor'' \<noteq> ''''" if "r = Inr es" "e \<in> set es" for e es
      using assms(1) Pair that
      by (auto simp: names_operations_def on_ext_def Let_def list_all_iff split: prod.splits sum.splits)
    then have "ToLower (extractCNFromDN (DN e) '',cn=Operations,cn=Monitor'') \<noteq> ''''" if "r = Inr es" "e \<in> set es" for e es
      using that by (auto simp: ToLower_def)
    then show ?thesis
      using Pair st' assms(2)
      by (auto simp: collectOperationsMetrics_def searchLDAP_def Let_def intro!: fits_foldl one split: sum.splits)
  qed
qed

lemma collectIndividualConnections_fits: "fits st \<Longrightarrow> fits (collectIndividualConnections cl server st)"
  by (auto simp: collectIndividualConnections_def fits_simps Let_def intro!: fits_foldl split: prod.splits sum.splits)

lemma getMonitorGroup_fits: "getMonitorGroup cl base st = (r, st') \<Longrightarrow> fits st' = fits st"
  by (auto simp: getMonitorGroup_def fits_simps split: prod.splits sum.splits)

lemma collectConnectionsMetrics_fits: "fits st \<Longrightarrow> fits (collectConnectionsMetrics cl cfg server st)"
  by (auto simp: collectConnectionsMetrics_def getMonitorGroup_fits fits_simps Let_def
      intro!: fits_foldl fits_updateCounter collectIndividualConnections_fits split: prod.splits sum.splits)

lemma collectThreadsState_fits: "fits st \<Longrightarrow> fits (collectThreadsState cl server st)"
  by (auto simp: collectThreadsState_def fits_simps intro!: fits_foldl split: prod.splits sum.splits)

lemma threadMetrics_vec:
  "map_of threadMetrics n = Some m \<Longrightarrow> call_ok NewOpenLDAPMetrics (GaugeSet m (With [(''server'', server)]) v)"
  by (auto simp: threadMetrics_def labels_fit_def split: if_splits)

lemma collectThreadsMetrics_fits: "fits st \<Longrightarrow> fits (collectThreadsMetrics cl cfg server st)"
  by (auto simp: collectThreadsMetrics_def getMonitorGroup_fits fits_set_gauge threadMetrics_vec Let_def
      simp del: call_ok.simps intro!: fits_foldl collectThreadsState_fits split: prod.splits sum.splits option.splits)

lemma collectTimeMetrics_fits: "fits st \<Longrightarrow> fits (collectTimeMetrics cl cfg server st)"
  by (auto simp: collectTimeMetrics_def time_entry_def fits_simps Let_def
      intro!: fits_foldl split: prod.splits sum.splits option.splits)

lemma collectWaitersMetrics_fits: "fits st \<Longrightarrow> fits (collectWaitersMetrics cl cfg server st)"
  by (auto simp: collectWaitersMetrics_def getMonitorGroup_fits fits_simps intro!: fits_foldl split: prod.splits sum.splits)

lemma collectHealthMetrics_fits: "fits st \<Longrightarrow> fits (collectHealthMetrics cl cfg server st)"
  by (auto simp: collectHealthMetrics_def fits_simps Let_def split: prod.splits sum.splits)


lemma named_info_fits:
  "fits st \<Longrightarrow> (\<And>x. call_ok NewOpenLDAPMetrics (GaugeSet m (With (mk x)) (f_of_int 1))) \<Longrightarrow>
   fits (named_info m prefx sfx mk st entry)"
  by (simp add: named_info_def fits_set_gauge)

lemmas fits_auto = fits_foldl fits_fold named_info_fits

lemma collectOverlaysMetrics_fits: "fits st \<Longrightarrow> fits (collectOverlaysMetrics cl cfg server st)"
  by (auto simp: collectOverlaysMetrics_def fits_simps intro!: fits_auto split: prod.splits sum.splits)

lemma recordCertChain_fits: "fits st \<Longrightarrow> fits (recordCertChain cl server certs st)"
  by (auto simp: recordCertChain_def cert_calls_def fits_simps list_all_iff Let_def)

lemma collectTLSCertMetrics_fits: "fits st \<Longrightarrow> fits (collectTLSCertMetrics cl server st)"
  by (auto simp: collectTLSCertMetrics_def fits_on_ext intro!: recordCertChain_fits split: prod.splits sum.splits)

lemma collectTLSMetrics_fits: "fits st \<Longrightarrow> fits (collectTLSMetrics cl cfg server st)"
  by (auto simp: collectTLSMetrics_def fits_simps Let_def intro!: fits_auto collectTLSCertMetrics_fits
      split: prod.splits sum.splits)

lemma collectBackendsMetrics_fits: "fits st \<Longrightarrow> fits (collectBackendsMetrics cl cfg server st)"
  by (auto simp: collectBackendsMetrics_def fits_simps Let_def intro!: fits_auto split: prod.splits sum.splits)

lemma collectListenersMetrics_fits: "fits st \<Longrightarrow> fits (collectListenersMetrics cl cfg server st)"
  by (auto simp: collectListenersMetrics_def fits_simps Let_def intro!: fits_auto split: prod.splits sum.splits)

lemma collectSupportedControlsMetrics_fits: "fits st \<Longrightarrow> fits (collectSupportedControlsMetrics cl cfg server st)"
  by (auto simp: collectSupportedControlsMetrics_def fits_simps Let_def intro!: fits_auto split: prod.splits sum.splits)

lemma collectServerInfoMetrics_fits: "fits st \<Longrightarrow> fits (collectServerInfoMetrics cl cfg server st)"
  by (auto simp: collectServerInfoMetrics_def fits_simps Let_def intro!: fits_auto collectSupportedControlsMetrics_fits
      split: prod.splits sum.splits)

lemma collectLogMetrics_fits: "fits st \<Longrightarrow> fits (collectLogMetrics cl cfg server st)"
  by (auto simp: collectLogMetrics_def fits_simps Let_def intro!: fits_auto split: prod.splits sum.splits)

lemma collectSASLMetrics_fits: "fits st \<Longrightarrow> fits (collectSASLMetrics cl cfg server st)"
  by (auto simp: collectSASLMetrics_def fits_simps Let_def intro!: fits_auto split: prod.splits sum.splits)

lemma recordDatabaseMetrics_fits: "fits st \<Longrightarrow> fits (recordDatabaseMetrics server info dcs st)"
  by (simp add: recordDatabaseMetrics_def fits_simps Let_def)

lemma collectDatabaseMetrics_fits: "fits st \<Longrightarrow> fits (collectDatabaseMetrics cl cfg server st)"
  by (auto simp: collectDatabaseMetrics_def searchDatabaseEntries_def processDatabaseEntry_def fits_on_ext Let_def
      intro!: fits_auto recordDatabaseMetrics_fits split: prod.splits sum.splits)

lemma csn_values_fits: "fits st \<Longrightarrow> fits (snd (csn_values server suffixDN now vs st))"
  by (induction server suffixDN now vs st rule: csn_values.induct)
    (auto simp: fits_simps Let_def split: option.splits sum.splits)

lemma csn_attributes_fits: "fits st \<Longrightarrow> fits (snd (csn_attributes server suffixDN now as st))"
proof (induction server suffixDN now as st rule: csn_attributes.induct)
  case (2 server suffixDN now name vs as st)
  have "fits (snd (csn_values server suffixDN now vs st))" by (rule csn_values_fits [OF 2(3)])
  then show ?case using 2 by (auto split: prod.splits bool.splits)
qed simp

lemma replication_entries_fits: "fits st \<Longrightarrow> fits (snd (replication_entries cl cfg server now es st))"
proof (induction es arbitrary: st)
  case (Cons e es)
  show ?case
  proof (cases "data_suffix cfg e")
    case None
    then show ?thesis using Cons by simp
  next
    case (Some suffixDN)
    obtain r st1 where r: "on_ext (cl_SearchContextCSN cl suffixDN) st = (r, st1)" by fastforce
    then have st1: "fits st1" using Cons.prems by (simp add: fits_on_ext)
    show ?thesis
    proof (cases "\<exists>x xs. r = Inr (x # xs)")
      case True
      then obtain x xs where x: "r = Inr (x # xs)" by blast
      obtain b st2 where b: "csn_attributes server suffixDN now (EntryAttributes x) st1 = (b, st2)" by fastforce
      then have "fits st2" using csn_attributes_fits [OF st1] by (metis snd_conv)
      then show ?thesis using Some r x b Cons.IH by (cases b) simp_all
    next
      case False
      then show ?thesis using Some r st1 Cons.IH by (auto split: sum.split list.split)
    qed
  qed
qed simp

lemma collectReplicationTopology_fits: "fits st \<Longrightarrow> fits (collectReplicationTopology cl cfg server st)"
  by (auto simp: collectReplicationTopology_def fits_simps Let_def intro!: fits_auto split: prod.splits sum.splits)

lemma collectReplicationMetrics_fits: "fits st \<Longrightarrow> fits (snd (collectReplicationMetrics cl cfg server st))"
proof -
  assume st: "fits st"
  obtain r st1 where r: "on_ext (cl_Search cl ''cn=Databases,cn=Monitor'' ''(objectClass=*)'' [''namingContexts'']) st = (r, st1)"
    by fastforce
  obtain now st2 where now: "on_ext (cl_now cl) st1 = (now, st2)" by fastforce
  have f: "fits st1" "fits st2" using st fits_on_ext [OF r] fits_on_ext [OF now] by simp_all
  show ?thesis
  proof (cases r)
    case (Inl e)
    then show ?thesis using r st f by (simp add: collectReplicationMetrics_def searchLDAP_def)
  next
    case (Inr es)
    obtain b st3 where b: "replication_entries cl cfg server now es st2 = (b, st3)" by fastforce
    then have "fits st3" using replication_entries_fits [OF f(2)] by (metis snd_conv)
    then show ?thesis
      using r now Inr b st by (cases b) (simp_all add: collectReplicationMetrics_def searchLDAP_def collectReplicationTopology_fits)
  qed
qed

lemma ppolicy_attribute_fits:
  "fits st \<Longrightarrow> map fst labels = [''server'', ''user_dn'', ''user'', ''base_dn''] \<Longrightarrow> fits (ppolicy_attribute labels a st)"
proof -
  assume "fits st" and l: "map fst labels = [''server'', ''user_dn'', ''user'', ''base_dn'']"
  have "distinct (map fst labels)" "set (map fst labels) = {''server'', ''user_dn'', ''user'', ''base_dn''}"
    unfolding l by simp_all
  with \<open>fits st\<close> show ?thesis
    by (auto simp: ppolicy_attribute_def fits_set_gauge labels_fit_def Let_def split: prod.splits option.splits)
qed

lemma collectPpolicyForSuffix_fits: "fits st \<Longrightarrow> fits (collectPpolicyForSuffix cl server suffixDN st)"
  by (auto simp: collectPpolicyForSuffix_def processPpolicyEntry_def fits_on_ext Let_def
      intro!: fits_auto ppolicy_attribute_fits split: prod.splits sum.splits)

lemma collectPpolicyMetrics_fits: "fits st \<Longrightarrow> fits (collectPpolicyMetrics cl cfg server st)"
  by (auto simp: collectPpolicyMetrics_def searchLDAP_def fits_on_ext Let_def
      intro!: fits_auto collectPpolicyForSuffix_fits split: prod.splits sum.splits option.splits)


lemma Inc_fits:
  assumes "Inc now labels t s = (b, cs, t', s')" "map_of NewOpenLDAPMetrics (tracked_vec t) = Some d"
    "vec_kind d = Counter" "labels_fit d (With labels)"
  shows "tracked_vec t' = tracked_vec t" "list_all (call_ok NewOpenLDAPMetrics) cs"
  using assms
  by (auto simp: Inc_def Inc_locked_def Inc_calls_def CounterInc_def Let_def split: prod.splits option.splits if_splits)

lemma run_bodies_fits:
  "(\<And>e s. fits s \<Longrightarrow> fits (snd (body e s))) \<Longrightarrow> fits s \<Longrightarrow> fits (snd (run_bodies body es n s))"
proof (induction es arbitrary: n s)
  case (Cons e es)
  then show ?case by (cases "body e s") (metis run_bodies.simps(2) case_prod_conv snd_conv)
qed simp

lemma scan_stream_fits:
  assumes "\<And>e s. fits s \<Longrightarrow> fits (snd (body e s))" "fits s"
    and "scan_stream (search_accesslog cl) stream base attrs body cursor s = (r, cursor', s')"
  shows "fits s'"
proof -
  obtain x s1 where x: "on_ext (cl_SearchAccessLog cl (BuildIncrementalFilter base (fst (Cursor_Get cursor stream))) attrs) s = (x, s1)"
    by fastforce
  then have s1: "fits s1" using assms(2) by (simp add: fits_on_ext)
  have "fits (snd (run_bodies body es 0 s1))" for es by (rule run_bodies_fits [OF assms(1) s1])
  then show ?thesis
    using assms(3) x s1
    by (auto simp: scan_stream_def search_accesslog_def stream_loop_eq Let_def split: prod.splits sum.splits) (metis snd_conv)
qed

lemma tracker_Inc_fits:
  assumes "tracker_Inc cl labels t st = (t', st')" "map_of NewOpenLDAPMetrics (tracked_vec t) = Some d"
    "vec_kind d = Counter" "labels_fit d (With labels)" "fits st"
  shows "tracked_vec t' = tracked_vec t" "fits st'"
    "accesslogBindTracker st' = accesslogBindTracker st" "accesslogWriteTracker st' = accesslogWriteTracker st"
    "accesslogLockTracker st' = accesslogLockTracker st"
  using assms Inc_fits
  by (auto simp: tracker_Inc_def fits_emit emit_calls_def [of _ st] split: prod.splits) (auto simp: emit_calls_def)

lemma bind_count_fits: "fits st \<Longrightarrow> fits (snd (bind_count cl server e st))"
proof -
  assume st: "fits st"
  let ?l = "[(''server'', server), (''user'', ExtractUserNameFromDN (Attr e ''reqDN'')), (''result'', ClassifyBindResult (Attr e ''reqResult''))]"
  obtain t st' where i: "tracker_Inc cl ?l (accesslogBindTracker st) st = (t, st')" by fastforce
  note f = tracker_Inc_fits [OF i, unfolded labels_fit_def]
  show ?thesis using st f i by (auto simp: bind_count_def Let_def) (auto simp: fits_def)
qed

lemma write_count_fits: "fits st \<Longrightarrow> fits (snd (write_count cl server e st))"
proof -
  assume st: "fits st"
  let ?l = "[(''server'', server), (''user'', ExtractUserNameFromDN (TrimDNPrefix (Attr e ''reqAuthzID''))), (''operation'', ToLower (Attr e ''reqType''))]"
  obtain t st' where i: "tracker_Inc cl ?l (accesslogWriteTracker st) st = (t, st')" by fastforce
  note f = tracker_Inc_fits [OF i, unfolded labels_fit_def]
  show ?thesis using st f i by (auto simp: write_count_def Let_def) (auto simp: fits_def)
qed

lemma lock_count_fits: "fits st \<Longrightarrow> fits (snd (lock_count cl server e st))"
proof -
  assume st: "fits st"
  let ?l = "[(''server'', server), (''user'', ExtractUserNameFromDN (Attr e ''reqDN''))]"
  obtain t st' where i: "tracker_Inc cl ?l (accesslogLockTracker st) st = (t, st')" by fastforce
  note f = tracker_Inc_fits [OF i, unfolded labels_fit_def]
  show ?thesis using st f i by (auto simp: lock_count_def Let_def) (auto simp: fits_def)
qed

lemma getAccesslogCursor_fits: "getAccesslogCursor cl server st = (cur, st') \<Longrightarrow> fits st' = fits st"
  by (auto simp: getAccesslogCursor_def fits_on_ext Let_def split: option.splits prod.splits)

lemma collectAccesslogMetrics_fits: "fits st \<Longrightarrow> fits (collectAccesslogMetrics cl cfg server st)"
proof -
  assume st: "fits st"
  obtain c0 st0 where g: "getAccesslogCursor cl server st = (c0, st0)" by fastforce
  obtain r1 c1 st1 where b: "collectAccesslogBinds cl server c0 st0 = (r1, c1, st1)" by (metis prod_cases3)
  obtain r2 c2 st2 where w: "collectAccesslogWrites cl server c1 st1 = (r2, c2, st2)" by (metis prod_cases3)
  obtain r3 c3 st3 where l: "collectAccesslogLockEvents cl server c2 st2 = (r3, c3, st3)" by (metis prod_cases3)
  have f0: "fits st0" using st getAccesslogCursor_fits [OF g] by simp
  have f1: "fits st1" by (rule scan_stream_fits [OF bind_count_fits f0 b [unfolded collectAccesslogBinds_def]])
  have f2: "fits st2" by (rule scan_stream_fits [OF write_count_fits f1 w [unfolded collectAccesslogWrites_def]])
  have f3: "fits st3" by (rule scan_stream_fits [OF lock_count_fits f2 l [unfolded collectAccesslogLockEvents_def]])
  show ?thesis using st f3 by (simp add: collectAccesslogMetrics_def g b w l)
qed


subsection \<open>Password policy series\<close>

definition live :: "'s ExpState \<Rightarrow> metric \<Rightarrow> (string \<times> string) set set" where
  "live st m = {s. published NewOpenLDAPMetrics (calls st) m s \<noteq> None}"

lemma live_set_gauge: "live (set_gauge m' ls v st) m = (if m = m' then insert (set ls) (live st m) else live st m)"
  by (auto simp: live_def set_gauge_def emit_calls_def apply_call_def series_of_def)

lemma live_reset: "live (reset_vec m' st) m = (if m = m' then {} else live st m)"
  by (auto simp: live_def reset_vec_def emit_calls_def apply_call_def)

lemma live_on_ext: "on_ext f st = (x, st') \<Longrightarrow> live st' m = live st m"
  by (auto simp: on_ext_def live_def Let_def split: prod.splits)

text \<open>Which attribute of a user makes a series of which vector.\<close>

definition ppolicy_source :: "metric \<Rightarrow> string" where
  "ppolicy_source m =
     (if m = PpolicyPwdChangedTimestamp then ''pwdChangedTime''
      else if m = PpolicyPwdLastSuccess then ''pwdLastSuccess''
      else if m = PpolicyPwdGraceUseCount then ''pwdGraceUseTime'' else ''pwdReset'')"

definition shows_series :: "metric \<Rightarrow> string \<times> string list \<Rightarrow> bool" where
  "shows_series m a \<longleftrightarrow> fst a = ppolicy_source m \<and> snd a \<noteq> [] \<and>
     (m = PpolicyPwdGraceUseCount \<or> m = PpolicyPwdReset \<or> ParseGeneralizedTime (hd (snd a)) \<noteq> None)"

definition ppolicy_vecs :: "metric list" where
  "ppolicy_vecs = [PpolicyPwdChangedTimestamp, PpolicyPwdLastSuccess, PpolicyPwdGraceUseCount, PpolicyPwdReset]"

definition user_labels_of :: "string \<Rightarrow> string \<Rightarrow> Entry \<Rightarrow> Labels" where
  "user_labels_of server base e =
     [(''server'', server), (''user_dn'', DN e), (''user'', extractUserName e), (''base_dn'', base)]"

lemma live_attribute:
  "m \<in> set ppolicy_vecs \<Longrightarrow>
   live (ppolicy_attribute ls a st) m = (if shows_series m a then insert (set ls) (live st m) else live st m)"
  by (cases a) (auto simp: ppolicy_vecs_def ppolicy_attribute_def shows_series_def ppolicy_source_def live_set_gauge Let_def
      split: option.splits)

lemma live_attributes:
  "m \<in> set ppolicy_vecs \<Longrightarrow>
   live (fold (ppolicy_attribute ls) as st) m = live st m \<union> (if list_ex (shows_series m) as then {set ls} else {})"
  by (induction as arbitrary: st) (auto simp: live_attribute)

definition shown :: "metric \<Rightarrow> string \<Rightarrow> string \<Rightarrow> Entry list \<Rightarrow> (string \<times> string) set set" where
  "shown m server base es =
     (\<lambda>e. set (user_labels_of server base e)) ` {e \<in> set es. list_ex (shows_series m) (EntryAttributes e)}"

lemma shown_single:
  "shown m server base [e] = (if list_ex (shows_series m) (EntryAttributes e) then {set (user_labels_of server base e)} else {})"
proof -
  have "{x \<in> set [e]. list_ex (shows_series m) (EntryAttributes x)} =
      (if list_ex (shows_series m) (EntryAttributes e) then {e} else {})" by auto
  then show ?thesis by (simp add: shown_def)
qed

lemma live_entries:
  "m \<in> set ppolicy_vecs \<Longrightarrow>
   live (fold (processPpolicyEntry server base) es st) m = live st m \<union> shown m server base es"
proof (induction es arbitrary: st)
  case (Cons e es)
  have "live (processPpolicyEntry server base e st) m =
      live st m \<union> (if list_ex (shows_series m) (EntryAttributes e) then {set (user_labels_of server base e)} else {})"
    unfolding processPpolicyEntry_def Let_def user_labels_of_def [symmetric] by (rule live_attributes [OF Cons.prems])
  then show ?case using Cons by (auto simp: shown_def)
qed (simp add: shown_def)

text \<open>The answers of the server, the same throughout the scan.\<close>

definition found :: "(string \<Rightarrow> client_error + Entry list) \<Rightarrow> metric \<Rightarrow> string \<Rightarrow> string \<Rightarrow> (string \<times> string) set set" where
  "found users m server base = (case users base of Inl _ \<Rightarrow> {} | Inr es \<Rightarrow> shown m server base es)"

abbreviation ppolicy_filter :: string where
  "ppolicy_filter \<equiv> ''(|(pwdChangedTime=*)(pwdLastSuccess=*)(pwdGraceUseTime=*)(pwdReset=TRUE))''"

lemma live_suffix:
  assumes "\<And>s. fst (cl_SearchSuffix cl base ppolicy_filter ppolicyAttributes s) = users base" "m \<in> set ppolicy_vecs"
  shows "live (collectPpolicyForSuffix cl server base st) m = live st m \<union> found users m server base"
proof -
  obtain r st' where o: "on_ext (cl_SearchSuffix cl base ppolicy_filter ppolicyAttributes) st = (r, st')" by fastforce
  then have "r = users base" using assms(1) by (auto simp: on_ext_def Let_def split: prod.splits) (metis fst_conv)
  then show ?thesis
    using o by (simp add: collectPpolicyForSuffix_def found_def live_on_ext [OF o] live_entries [OF assms(2)] split: sum.split)
qed

lemma live_suffixes:
  assumes "\<And>base s. fst (cl_SearchSuffix cl base ppolicy_filter ppolicyAttributes s) = users base" "m \<in> set ppolicy_vecs"
  shows "live (fold (\<lambda>entry st. case data_suffix cfg entry of None \<Rightarrow> st
             | Some suffixDN \<Rightarrow> collectPpolicyForSuffix cl server suffixDN st) dbs st) m =
           live st m \<union> (\<Union>e\<in>set dbs. case data_suffix cfg e of None \<Rightarrow> {} | Some base \<Rightarrow> found users m server base)"
  by (induction dbs arbitrary: st) (auto simp: live_suffix [where users = users, OF assms] split: option.splits)

text \<open>C17.
  After a successful scan the password policy series are exactly those of the users the server
  returned, under the naming contexts that pass the filters: every vector is rebuilt, so an
  account that disappeared leaves no series behind, whatever was published before.
\<close>

theorem ppolicy_series_are_current:
  assumes "ShouldCollectMetric cfg ''ppolicy''"
    and "\<And>s. fst (cl_Search cl ''cn=Databases,cn=Monitor'' ''(objectClass=*)'' [''namingContexts''] s) = Inr dbs"
    and "\<And>base s. fst (cl_SearchSuffix cl base ppolicy_filter ppolicyAttributes s) = users base"
    and "m \<in> set ppolicy_vecs"
  shows "live (collectPpolicyMetrics cl cfg server st) m =
     (\<Union>e\<in>set dbs. case data_suffix cfg e of None \<Rightarrow> {} | Some base \<Rightarrow> found users m server base)"
proof -
  define st0 where "st0 = reset_vec PpolicyPwdReset (reset_vec PpolicyPwdGraceUseCount
      (reset_vec PpolicyPwdLastSuccess (reset_vec PpolicyPwdChangedTimestamp st)))"
  obtain r st1 where r: "on_ext (cl_Search cl ''cn=Databases,cn=Monitor'' ''(objectClass=*)'' [''namingContexts'']) st0 = (r, st1)"
    by fastforce
  then have "r = Inr dbs" using assms(2) by (auto simp: on_ext_def Let_def split: prod.splits) (metis fst_conv)
  moreover have "live st1 m = {}"
    using live_on_ext [OF r] assms(4) by (auto simp: st0_def live_reset ppolicy_vecs_def)
  ultimately show ?thesis
    using assms(1) r live_suffixes [where users = users, OF assms(3,4), where cfg = cfg and server = server and dbs = dbs and st = st1]
    by (simp add: collectPpolicyMetrics_def searchLDAP_def st0_def Let_def)
qed


text \<open>A server with one data suffix and one user who must change the password.\<close>

definition quiet_client :: "nat Client" where
  "quiet_client =
     \<lparr>cl_now = (\<lambda>s. (int s * second, s)), cl_Search = (\<lambda>b f a s. (Inr [], s)), cl_SearchSuffix = (\<lambda>b f a s. (Inr [], s)),
      cl_SearchContextCSN = (\<lambda>b s. (Inr [], s)), cl_SearchConfig = (\<lambda>f a s. (Inr [], s)),
      cl_SearchRootDSE = (\<lambda>a s. (Inr [], s)), cl_SearchAccessLog = (\<lambda>f a s. (Inr [], s)),
      cl_PeerCertificates = (\<lambda>s. (Inr [], s)), x509_subject = (\<lambda>c. ([], [])), x509_issuer = (\<lambda>c. ([], [])),
      x509_serial = (\<lambda>c. []), x509_NotAfter = (\<lambda>c. 0), ldap_firstRDN = (\<lambda>d. None)\<rparr>"

definition plain_entry :: "string \<Rightarrow> (string \<times> string list) list \<Rightarrow> Entry" where
  "plain_entry dn as = \<lparr>DN = dn, EntryAttributes = as, GetAttributeValue = (\<lambda>_. []), GetAttributeValues = (\<lambda>_. [])\<rparr>"

definition one_database :: "Entry list" where
  "one_database = [plain_entry ''cn=Database 1,cn=Databases,cn=Monitor'' [(''namingContexts'', [''dc=org''])]]"

definition ppolicy_client :: "nat Client" where
  "ppolicy_client = quiet_client\<lparr>cl_Search := (\<lambda>b f a s. (Inr one_database, s)),
     cl_SearchSuffix := (\<lambda>b f a s. (Inr [plain_entry ''uid=a,dc=org'' [(''uid'', [''a'']), (''pwdReset'', [''TRUE''])]], s))\<rparr>"

lemma ppolicy_series_are_current_witness:
  "\<forall>st. live (collectPpolicyMetrics ppolicy_client plain_config ''srv'' st) PpolicyPwdReset =
     {{(''server'', ''srv''), (''user_dn'', ''uid=a,dc=org''), (''user'', ''a''), (''base_dn'', ''dc=org'')}}"
proof (rule allI)
  fix st :: "nat ExpState"
  have d: "data_suffix plain_config (plain_entry ''cn=Database 1,cn=Databases,cn=Monitor'' [(''namingContexts'', [''dc=org''])]) = Some ''dc=org''"
    by code_simp
  have collects: "ShouldCollectMetric plain_config ''ppolicy''" by code_simp
  have "live (collectPpolicyMetrics ppolicy_client plain_config ''srv'' st) PpolicyPwdReset =
     (\<Union>e\<in>set one_database. case data_suffix plain_config e of None \<Rightarrow> {}
        | Some base \<Rightarrow> found (\<lambda>b. Inr [plain_entry ''uid=a,dc=org'' [(''uid'', [''a'']), (''pwdReset'', [''TRUE''])]])
            PpolicyPwdReset ''srv'' base)"
    by (rule ppolicy_series_are_current)
      (use collects in \<open>simp_all add: ppolicy_client_def ppolicy_vecs_def\<close>)
  also have "\<dots> = {{(''server'', ''srv''), (''user_dn'', ''uid=a,dc=org''), (''user'', ''a''), (''base_dn'', ''dc=org'')}}"
    unfolding one_database_def
    by (simp add: d) (simp add: found_def shown_single shows_series_def ppolicy_source_def plain_entry_def
        user_labels_of_def extractUserName_def)
  finally show "live (collectPpolicyMetrics ppolicy_client plain_config ''srv'' st) PpolicyPwdReset =
     {{(''server'', ''srv''), (''user_dn'', ''uid=a,dc=org''), (''user'', ''a''), (''base_dn'', ''dc=org'')}}" .
qed

end
