(* ===== verification/RateLimit.thy ===== *)
theory RateLimit
  imports GoStrings
begin

section \<open>The rate limiter (pkg/security/ratelimit.go)\<close>

text \<open>
  One token bucket per client address, with fractional tokens in \<open>float64\<close>. The buckets are the
  map \<open>clients\<close>; each operation locks the bucket it works on, so a request is one step. The
  parsing of addresses and networks (package \<open>net\<close>) is a parameter record. The HTTP
  middleware is its decision on one request.
\<close>

record clientBucket =
  tokens :: float64
  lastSeen :: time

record RateLimiter =
  clients :: "string \<rightharpoonup> clientBucket"
  rate :: int
  burst :: int
  cleanupInterval :: duration
  stopped :: bool

definition DefaultCleanupInterval :: duration where
  "DefaultCleanupInterval = 10 * minute"

definition NewRateLimiter :: "int \<Rightarrow> int \<Rightarrow> RateLimiter" where
  "NewRateLimiter requestsPerMinute burstSize =
     \<lparr>clients = Map.empty, rate = requestsPerMinute, burst = burstSize,
      cleanupInterval = DefaultCleanupInterval, stopped = False\<rparr>"

definition RateLimiter_Stop :: "RateLimiter \<Rightarrow> RateLimiter" where
  "RateLimiter_Stop rl = (if \<not> stopped rl then rl\<lparr>stopped := True\<rparr> else rl)"

text \<open>\<open>Duration.Minutes\<close>: the whole minutes plus the fraction, each in floating point.\<close>

definition trunc_div :: "int \<Rightarrow> int \<Rightarrow> int" where
  "trunc_div a b = sgn a * sgn b * (\<bar>a\<bar> div \<bar>b\<bar>)"

definition Minutes :: "duration \<Rightarrow> float64" where
  "Minutes d =
     (let m = trunc_div d minute; nsec = d - m * minute
      in f_add (f_of_int m) (f_div (f_of_int nsec) (f_of_int minute)))"

definition allowBucket :: "RateLimiter \<Rightarrow> time \<Rightarrow> clientBucket \<Rightarrow> bool \<times> clientBucket" where
  "allowBucket rl now bucket =
     (let elapsed = Minutes (time_Sub now (lastSeen bucket));
          refilled = f_add (tokens bucket) (f_mul elapsed (f_of_int (rate rl)));
          capped = (if f_lt (f_of_int (burst rl)) refilled then f_of_int (burst rl) else refilled);
          b1 = (if f_lt (Fin 0) elapsed then bucket\<lparr>tokens := capped\<rparr> else bucket);
          b2 = b1\<lparr>lastSeen := now\<rparr>
      in if f_le (Fin 1) (tokens b2) then (True, b2\<lparr>tokens := f_sub (tokens b2) (Fin 1)\<rparr>)
         else (False, b2))"

text \<open>\<open>now1\<close> is read when the bucket is created, \<open>now\<close> when it is charged.\<close>

definition Allow :: "time \<Rightarrow> time \<Rightarrow> string \<Rightarrow> RateLimiter \<Rightarrow> bool \<times> RateLimiter" where
  "Allow now1 now ip rl =
     (let bucket = (case clients rl ip of
                      None \<Rightarrow> \<lparr>tokens = f_of_int (burst rl), lastSeen = now1\<rparr>
                    | Some b \<Rightarrow> b);
          (ok, b1) = allowBucket rl now bucket
      in (ok, rl\<lparr>clients := (clients rl)(ip \<mapsto> b1)\<rparr>))"

text \<open>
  The two passes of the cleanup: candidates are collected first (from the given listing of the
  keys), and each is checked again when it is deleted.
\<close>

definition cleanup_candidates :: "time \<Rightarrow> string list \<Rightarrow> RateLimiter \<Rightarrow> string list" where
  "cleanup_candidates cutoff ips rl =
     filter (\<lambda>ip. case clients rl ip of None \<Rightarrow> False | Some b \<Rightarrow> lastSeen b < cutoff) ips"

definition cleanup_delete :: "time \<Rightarrow> string \<Rightarrow> RateLimiter \<Rightarrow> RateLimiter" where
  "cleanup_delete cutoff ip rl =
     (case clients rl ip of
        None \<Rightarrow> rl
      | Some b \<Rightarrow> (if lastSeen b < cutoff then rl\<lparr>clients := (clients rl)(ip := None)\<rparr> else rl))"

definition cleanupClients ::
  "time \<Rightarrow> string list \<Rightarrow> (RateLimiter \<Rightarrow> RateLimiter) \<Rightarrow> RateLimiter \<Rightarrow> RateLimiter" where
  "cleanupClients now ips between rl =
     (let cutoff = now - cleanupInterval rl;
          toDelete = cleanup_candidates cutoff ips rl;
          rl1 = between rl \<comment> \<open>requests served between the two passes\<close>
      in foldl (\<lambda>r ip. cleanup_delete cutoff ip r) rl1 toDelete)"

definition RateLimiter_Reset :: "string \<Rightarrow> RateLimiter \<Rightarrow> RateLimiter" where
  "RateLimiter_Reset identifier rl = rl\<lparr>clients := (clients rl)(identifier := None)\<rparr>"

definition ResetAll :: "RateLimiter \<Rightarrow> RateLimiter" where
  "ResetAll rl = rl\<lparr>clients := Map.empty\<rparr>"

subsection \<open>The address of a client\<close>

text \<open>
  The functions of the package \<open>net\<close>: addresses and networks are numbers, \<open>None\<close> is a value
  that does not parse.
\<close>

record Net =
  ParseIP :: "string \<Rightarrow> nat option"
  IPString :: "nat \<Rightarrow> string"
  To4 :: "nat \<Rightarrow> bool" \<comment> \<open>is it an IPv4 address?\<close>
  ParseCIDR :: "string \<Rightarrow> nat option"
  ContainsIP :: "nat \<Rightarrow> nat \<Rightarrow> bool"
  SplitHostPort :: "string \<Rightarrow> string option"

definition normalize_cidr :: "Net \<Rightarrow> string \<Rightarrow> string" where
  "normalize_cidr N raw =
     (if \<not> Contains raw ''/''
      then (case ParseIP N raw of
              None \<Rightarrow> raw
            | Some ip \<Rightarrow> (if To4 N ip then raw @ ''/32'' else raw @ ''/128''))
      else raw)"

definition SetTrustedProxies :: "Net \<Rightarrow> string list \<Rightarrow> nat list" where
  "SetTrustedProxies N cidrs =
     concat (map (\<lambda>raw.
       (let raw = TrimSpace raw
        in if raw = '''' then []
           else case ParseCIDR N (normalize_cidr N raw) of None \<Rightarrow> [] | Some ipnet \<Rightarrow> [ipnet])) cidrs)"

definition isTrustedProxy :: "Net \<Rightarrow> nat list \<Rightarrow> nat option \<Rightarrow> bool" where
  "isTrustedProxy N trusted ip =
     (case ip of None \<Rightarrow> False | Some a \<Rightarrow> list_ex (\<lambda>ipnet. ContainsIP N ipnet a) trusted)"

record Request =
  RemoteAddr :: string
  Header :: "string \<Rightarrow> string" \<comment> \<open>\<open>Header.Get\<close>: the empty string when absent\<close>
  Path :: string

definition remoteAddrIP :: "Net \<Rightarrow> Request \<Rightarrow> nat option" where
  "remoteAddrIP N r =
     (if RemoteAddr r = '''' then None
      else let host = (case SplitHostPort N (RemoteAddr r) of Some h \<Rightarrow> h | None \<Rightarrow> RemoteAddr r)
           in ParseIP N (TrimSpace host))"

fun first_untrusted :: "Net \<Rightarrow> nat list \<Rightarrow> string list \<Rightarrow> string option" where
  "first_untrusted N trusted [] = None"
| "first_untrusted N trusted (ipStr # ips) =
     (case ParseIP N (TrimSpace ipStr) of
        None \<Rightarrow> first_untrusted N trusted ips
      | Some ip \<Rightarrow>
          (if \<not> isTrustedProxy N trusted (Some ip) then Some (IPString N ip)
           else first_untrusted N trusted ips))"

definition direct_address :: "Net \<Rightarrow> Request \<Rightarrow> string" where
  "direct_address N r =
     (if RemoteAddr r = '''' then ''127.0.0.1''
      else case SplitHostPort N (RemoteAddr r) of
        Some host \<Rightarrow> host
      | None \<Rightarrow>
          (case ParseIP N (TrimSpace (RemoteAddr r)) of
             Some ip \<Rightarrow> IPString N ip
           | None \<Rightarrow>
               (let trimmedAddr = TrimSpace (RemoteAddr r)
                in if trimmedAddr \<noteq> '''' \<and> trimmedAddr \<noteq> ''invalid'' then trimmedAddr
                   else ''127.0.0.1'')))"

definition GetClientIP :: "Net \<Rightarrow> nat list \<Rightarrow> Request \<Rightarrow> string" where
  "GetClientIP N trusted r =
     (let remote = remoteAddrIP N r;
          forwarded =
            (if remote \<noteq> None \<and> isTrustedProxy N trusted remote
             then (let xff = Header r ''X-Forwarded-For'';
                       fromXff = (if xff \<noteq> '''' then first_untrusted N trusted (Split xff CHR '','') else None)
                   in case fromXff of
                        Some a \<Rightarrow> Some a
                      | None \<Rightarrow>
                          (let xri = Header r ''X-Real-IP''
                           in if xri \<noteq> ''''
                              then map_option (IPString N) (ParseIP N (TrimSpace xri)) else None))
             else None)
      in case forwarded of Some a \<Rightarrow> a | None \<Rightarrow> direct_address N r)"

subsection \<open>The middleware\<close>

datatype rl_event = RecordRateLimitRequest string string | RecordRateLimitBlocked string string

datatype response = TooManyRequests | Served

definition RateLimitMiddlewareWithMonitoring ::
  "Net \<Rightarrow> nat list \<Rightarrow> bool \<Rightarrow> time \<Rightarrow> time \<Rightarrow> Request \<Rightarrow> RateLimiter \<Rightarrow> response \<times> rl_event list \<times> RateLimiter" where
  "RateLimitMiddlewareWithMonitoring N trusted monitoring now1 now r limiter =
     (let clientIP = GetClientIP N trusted r;
          evs = (if monitoring then [RecordRateLimitRequest clientIP (Path r)] else []);
          (ok, rl1) = Allow now1 now clientIP limiter
      in if \<not> ok
         then (TooManyRequests,
               evs @ (if monitoring then [RecordRateLimitBlocked clientIP (Path r)] else []), rl1)
         else (Served, evs, rl1))"

subsection \<open>Tokens\<close>

definition limits_ok :: "RateLimiter \<Rightarrow> bool" where
  "limits_ok rl \<longleftrightarrow> 0 < rate rl \<and> exact_int (rate rl) \<and> 0 \<le> burst rl \<and> exact_int (burst rl)"

definition bucket_ok :: "RateLimiter \<Rightarrow> clientBucket \<Rightarrow> bool" where
  "bucket_ok rl b \<longleftrightarrow> (case tokens b of Fin x \<Rightarrow> 0 \<le> x \<and> x \<le> of_int (burst rl) | _ \<Rightarrow> False)"

lemma ok_frame [simp]:
  "bucket_ok (rl\<lparr>clients := m\<rparr>) b = bucket_ok rl b" "limits_ok (rl\<lparr>clients := m\<rparr>) = limits_ok rl"
  "bucket_ok (rl\<lparr>stopped := s\<rparr>) b = bucket_ok rl b" "limits_ok (rl\<lparr>stopped := s\<rparr>) = limits_ok rl"
  by (simp_all add: bucket_ok_def limits_ok_def split: float64.splits)

definition rl_ok :: "RateLimiter \<Rightarrow> bool" where
  "rl_ok rl \<longleftrightarrow> limits_ok rl \<and> (\<forall>b \<in> ran (clients rl). bucket_ok rl b)"

lemma round64_nonneg:
  assumes "0 \<le> x" shows "round64 x = PosInf \<or> (\<exists>y. round64 x = Fin y \<and> 0 \<le> y)"
  using round_pos_nonneg [OF assms] assms by (auto simp: round64_def Let_def)

lemma round64_ge_int:
  assumes "0 \<le> n" "exact_int n" "of_int n \<le> x"
  shows "round64 x = PosInf \<or> (\<exists>y. round64 x = Fin y \<and> of_int n \<le> y)"
proof -
  have x: "0 \<le> x" using assms(1,3) by (meson of_int_0_le_iff order_trans)
  have "round_pos (of_int n) \<le> round_pos x" using assms by (intro round_pos_mono) auto
  moreover have "round_pos (of_int n) = of_int n" using assms by (intro round_pos_int) (auto simp: exact_int_def)
  ultimately show ?thesis using x by (auto simp: round64_def Let_def)
qed

lemma exact_le: "0 \<le> m \<Longrightarrow> m \<le> n \<Longrightarrow> exact_int n \<Longrightarrow> exact_int m"
  by (auto simp: exact_int_def)

text \<open>A refill yields a value between zero and the burst.\<close>

lemma refill_bounds:
  assumes l: "limits_ok rl" and b: "bucket_ok rl b" and e: "f_lt (Fin 0) e"
    and c: "c = f_add (tokens b) (f_mul e (f_of_int (rate rl)))"
  shows "\<exists>y. (if f_lt (f_of_int (burst rl)) c then f_of_int (burst rl) else c) = Fin y \<and>
             0 \<le> y \<and> y \<le> of_int (burst rl)"
proof -
  have r: "f_of_int (rate rl) = Fin (of_int (rate rl))" "0 < (of_int (rate rl) :: rat)"
    and B: "f_of_int (burst rl) = Fin (of_int (burst rl))" "0 \<le> (of_int (burst rl) :: rat)"
    using l by (auto simp: limits_ok_def)
  obtain x where x: "tokens b = Fin x" "0 \<le> x" using b by (auto simp: bucket_ok_def split: float64.splits)
  have "f_mul e (Fin (of_int (rate rl))) = PosInf \<or> (\<exists>z. f_mul e (Fin (of_int (rate rl))) = Fin z \<and> 0 \<le> z)"
  proof (cases e)
    case (Fin y)
    then have "0 \<le> y * of_int (rate rl)" using e r by simp
    then show ?thesis using Fin round64_nonneg by auto
  qed (use e r in \<open>auto simp: f_inf_def\<close>)
  then have "c = PosInf \<or> (\<exists>z. c = Fin z \<and> 0 \<le> z)"
  proof
    assume "\<exists>z. f_mul e (Fin (of_int (rate rl))) = Fin z \<and> 0 \<le> z"
    then obtain z where z: "f_mul e (Fin (of_int (rate rl))) = Fin z" "0 \<le> z" by blast
    with x have "0 \<le> x + z" by simp
    from round64_nonneg [OF this] show ?thesis using c x r z by simp
  qed (use c x r in simp)
  then show ?thesis using B by (auto simp: not_less)
qed

lemma allowBucket_ok:
  assumes "limits_ok rl" "bucket_ok rl b" "allowBucket rl now b = (ok, b')"
  shows "bucket_ok rl b'"
proof -
  define e where "e = Minutes (time_Sub now (lastSeen b))"
  define c where "c = f_add (tokens b) (f_mul e (f_of_int (rate rl)))"
  define b2 where "b2 = (if f_lt (Fin 0) e
     then b\<lparr>tokens := (if f_lt (f_of_int (burst rl)) c then f_of_int (burst rl) else c)\<rparr> else b)\<lparr>lastSeen := now\<rparr>"
  have b2: "bucket_ok rl b2"
    using refill_bounds [OF assms(1,2) _ c_def] assms(2)
    by (cases "f_lt (Fin 0) e") (auto simp: b2_def bucket_ok_def)
  then obtain y where y: "tokens b2 = Fin y" "0 \<le> y" "y \<le> of_int (burst rl)"
    by (auto simp: bucket_ok_def split: float64.splits)
  have a: "allowBucket rl now b = (if f_le (Fin 1) (tokens b2)
      then (True, b2\<lparr>tokens := f_sub (tokens b2) (Fin 1)\<rparr>) else (False, b2))"
    by (simp add: allowBucket_def Let_def e_def [symmetric] c_def [symmetric] b2_def)
  show ?thesis
  proof (cases "f_le (Fin 1) (tokens b2)")
    case False
    with a b2 assms(3) show ?thesis by simp
  next
    case True
    then have "1 \<le> y" using y by (auto simp: f_le_def f_eq_def)
    then obtain z where "round64 (y - 1) = Fin z" "0 \<le> z" "z \<le> of_int (burst rl)"
      using y assms(1) round64_between [of "y - 1" "burst rl"] by (auto simp: limits_ok_def)
    then show ?thesis using a True assms(3) y by (auto simp: bucket_ok_def f_sub_def)
  qed
qed

lemma fresh_bucket_ok: "limits_ok rl \<Longrightarrow> bucket_ok rl \<lparr>tokens = f_of_int (burst rl), lastSeen = t\<rparr>"
  by (simp add: bucket_ok_def limits_ok_def)

lemma Allow_ok:
  assumes "rl_ok rl" shows "rl_ok (snd (Allow now1 now ip rl))"
proof -
  define b where "b = (case clients rl ip of
      None \<Rightarrow> \<lparr>tokens = f_of_int (burst rl), lastSeen = now1\<rparr> | Some b \<Rightarrow> b)"
  have l: "limits_ok rl" using assms by (simp add: rl_ok_def)
  have "bucket_ok rl b"
    using assms fresh_bucket_ok [OF l] by (auto simp: b_def rl_ok_def ran_def split: option.splits)
  from allowBucket_ok [OF l this] have "bucket_ok rl (snd (allowBucket rl now b))" by (metis prod.collapse)
  then show ?thesis using assms
    by (auto simp: Allow_def Let_def b_def [symmetric] split_beta rl_ok_def ran_def)
qed

lemma rl_ok_submap:
  "rl_ok rl \<Longrightarrow> rl_ok (rl\<lparr>clients := (clients rl)(ip := None)\<rparr>)"
  by (auto simp: rl_ok_def ran_def split: if_splits)

lemma cleanup_delete_ok: "rl_ok rl \<Longrightarrow> rl_ok (cleanup_delete cutoff ip rl)"
  by (auto simp: cleanup_delete_def rl_ok_submap split: option.splits)

lemma cleanup_deletes_ok: "rl_ok rl \<Longrightarrow> rl_ok (foldl (\<lambda>r ip. cleanup_delete cutoff ip r) rl ips)"
  by (induction ips arbitrary: rl) (auto simp: cleanup_delete_ok)

datatype rl_op = OpAllow time time string | OpCleanup time "string list" | OpReset string | OpResetAll | OpStop

fun rl_step :: "rl_op \<Rightarrow> RateLimiter \<Rightarrow> RateLimiter" where
  "rl_step (OpAllow now1 now ip) rl = snd (Allow now1 now ip rl)"
| "rl_step (OpCleanup now ips) rl = cleanupClients now ips id rl"
| "rl_step (OpReset ip) rl = RateLimiter_Reset ip rl"
| "rl_step OpResetAll rl = ResetAll rl"
| "rl_step OpStop rl = RateLimiter_Stop rl"

lemma rl_step_ok: "rl_ok rl \<Longrightarrow> rl_ok (rl_step op rl)"
proof (cases op)
  case (OpAllow t1 t ip)
  then show "rl_ok rl \<Longrightarrow> ?thesis" using Allow_ok by simp
next
  case (OpCleanup t ips)
  then show "rl_ok rl \<Longrightarrow> ?thesis" using cleanup_deletes_ok by (simp add: cleanupClients_def Let_def)
next
  case (OpReset ip)
  then show "rl_ok rl \<Longrightarrow> ?thesis" by (simp add: RateLimiter_Reset_def rl_ok_submap)
qed (auto simp: ResetAll_def RateLimiter_Stop_def rl_ok_def)

interpretation lm: guarded_machine rl_step "\<lambda>_. True" rl_ok
  by unfold_locales (rule rl_step_ok)

lemma rl_run_ok: "rl_ok rl \<Longrightarrow> rl_ok (fold rl_step ops rl)"
  by (simp add: lm.run_inv list.pred_True)

text \<open>C18. In floating point, rounding included, a bucket always holds a finite number of tokens
  between zero and the burst: through any sequence of requests - with clocks that stand still,
  jump ahead or run backwards - cleanups and resets, for every positive rate and every burst a
  double represents exactly.\<close>

theorem tokens_stay_within_burst:
  "0 < r \<Longrightarrow> exact_int r \<Longrightarrow> 0 \<le> b \<Longrightarrow> exact_int b \<Longrightarrow>
   clients (fold rl_step ops (NewRateLimiter r b)) ip = Some bucket \<Longrightarrow>
   \<exists>x. tokens bucket = Fin x \<and> 0 \<le> x \<and> x \<le> of_int (burst (fold rl_step ops (NewRateLimiter r b)))"
proof -
  assume a: "0 < r" "exact_int r" "0 \<le> b" "exact_int b"
    and c: "clients (fold rl_step ops (NewRateLimiter r b)) ip = Some bucket"
  have "rl_ok (NewRateLimiter r b)" using a by (simp add: rl_ok_def limits_ok_def NewRateLimiter_def)
  from rl_run_ok [OF this, of ops] c
  have "bucket_ok (fold rl_step ops (NewRateLimiter r b)) bucket" by (auto simp: rl_ok_def ran_def)
  then show ?thesis by (auto simp: bucket_ok_def split: float64.splits)
qed

lemma tokens_stay_within_burst_witness:
  "\<exists>bucket x. clients (fold rl_step [OpAllow 0 0 ''a'', OpAllow 0 (- 5) ''a''] (NewRateLimiter 30 10)) ''a'' = Some bucket \<and>
     tokens bucket = Fin x \<and> 0 \<le> x"
proof -
  have e: "exact_int 30" "exact_int 10" by (simp_all add: exact_int_def)
  obtain bucket where b: "clients (fold rl_step [OpAllow 0 0 ''a'', OpAllow 0 (- 5) ''a''] (NewRateLimiter 30 10)) ''a'' = Some bucket"
    by (simp add: Allow_def Let_def split_beta)
  from tokens_stay_within_burst [OF _ e(1) _ e(2) b] b show ?thesis by auto
qed

subsection \<open>The burst is the limit\<close>

lemma exact_small: "\<bar>n\<bar> \<le> 1000 \<Longrightarrow> exact_int n"
  by (simp add: exact_int_def)

lemma Minutes_0: "Minutes 0 = Fin 0"
  by (simp add: Minutes_def trunc_div_def exact_int_def minute_def second_def)

lemma allowBucket_same_instant:
  assumes "lastSeen b = now" "tokens b = Fin (of_int k)" "exact_int k"
  shows "allowBucket rl now b =
     (if 1 \<le> k then (True, b\<lparr>tokens := Fin (of_int (k - 1))\<rparr>) else (False, b))"
proof -
  have "exact_int (k - 1)" if "1 \<le> k" using that assms(3) by (simp add: exact_int_def)
  then have s: "f_sub (Fin (of_int k)) (Fin 1) = Fin (of_int (k - 1))" if "1 \<le> k"
    using that round64_int [of "k - 1"] by (simp add: f_sub_def)
  have l: "f_le (Fin 1) (Fin (of_int k)) \<longleftrightarrow> 1 \<le> k" by (auto simp: f_le_def f_eq_def)
  have u: "b\<lparr>lastSeen := now\<rparr> = b" using assms(1) by simp
  show ?thesis using assms
    by (simp add: allowBucket_def Let_def Minutes_0 u s l)
qed

text \<open>The number of requests of one address that pass at one instant.\<close>

fun allowed_at_once :: "nat \<Rightarrow> time \<Rightarrow> string \<Rightarrow> RateLimiter \<Rightarrow> nat" where
  "allowed_at_once 0 now ip rl = 0"
| "allowed_at_once (Suc n) now ip rl =
     (case Allow now now ip rl of (ok, rl1) \<Rightarrow> (if ok then 1 else 0) + allowed_at_once n now ip rl1)"

lemma allowed_at_once_bucket:
  "0 \<le> k \<Longrightarrow> exact_int k \<Longrightarrow> clients rl ip = Some \<lparr>tokens = Fin (of_int k), lastSeen = now\<rparr> \<Longrightarrow>
     allowed_at_once n now ip rl = min n (nat k)"
proof (induction n arbitrary: k rl)
  case (Suc n)
  let ?b = "\<lambda>k. \<lparr>tokens = Fin (of_int k :: rat), lastSeen = now\<rparr>"
  have e: "exact_int (k - 1)" if "1 \<le> k" using that Suc.prems(2) by (simp add: exact_int_def)
  have step: "Allow now now ip rl =
      (if 1 \<le> k then (True, rl\<lparr>clients := (clients rl)(ip \<mapsto> ?b (k - 1))\<rparr>)
       else (False, rl\<lparr>clients := (clients rl)(ip \<mapsto> ?b k)\<rparr>))"
    using Suc.prems allowBucket_same_instant [of "?b k" now k rl] by (simp add: Allow_def)
  show ?case
  proof (cases "1 \<le> k")
    case True
    have "allowed_at_once n now ip (rl\<lparr>clients := (clients rl)(ip \<mapsto> ?b (k - 1))\<rparr>) = min n (nat (k - 1))"
      using True e by (intro Suc.IH) simp_all
    then show ?thesis unfolding allowed_at_once.simps step using True by simp
  next
    case False
    have "allowed_at_once n now ip (rl\<lparr>clients := (clients rl)(ip \<mapsto> ?b k)\<rparr>) = min n (nat k)"
      using Suc.prems by (intro Suc.IH) simp_all
    then show ?thesis unfolding allowed_at_once.simps step using False by simp
  qed
qed simp

text \<open>C30. A client that fires requests all at once gets exactly the burst through: of \<open>n\<close> requests
  of one address at one instant, a fresh limiter lets pass \<open>n\<close> or the burst, whichever is less.\<close>

theorem burst_is_exact:
  "0 \<le> b \<Longrightarrow> exact_int b \<Longrightarrow> allowed_at_once n now ip (NewRateLimiter r b) = min n (nat b)"
proof (cases n)
  case (Suc m)
  assume b: "0 \<le> b" "exact_int b"
  define fb where "fb = \<lparr>tokens = Fin (of_int b :: rat), lastSeen = now\<rparr>"
  have a: "allowBucket (NewRateLimiter r b) now fb =
     (if 1 \<le> b then (True, fb\<lparr>tokens := Fin (of_int (b - 1))\<rparr>) else (False, fb))"
    by (rule allowBucket_same_instant) (simp_all add: fb_def b)
  have A: "Allow now now ip (NewRateLimiter r b) =
     (case allowBucket (NewRateLimiter r b) now fb of
        (ok, b1) \<Rightarrow> (ok, (NewRateLimiter r b)\<lparr>clients := (clients (NewRateLimiter r b))(ip \<mapsto> b1)\<rparr>))"
    using b by (simp add: Allow_def NewRateLimiter_def fb_def split_beta Let_def)
  have e: "exact_int (b - 1)" if "1 \<le> b" using that b by (simp add: exact_int_def)
  let ?rl = "\<lambda>k. (NewRateLimiter r b)\<lparr>clients := (clients (NewRateLimiter r b))
     (ip \<mapsto> \<lparr>tokens = Fin (of_int k :: rat), lastSeen = now\<rparr>)\<rparr>"
  show ?thesis
  proof (cases "1 \<le> b")
    case True
    have "allowed_at_once m now ip (?rl (b - 1)) = min m (nat (b - 1))"
      using True e by (intro allowed_at_once_bucket) simp_all
    then show ?thesis unfolding Suc allowed_at_once.simps A a using True by (simp add: fb_def)
  next
    case False
    have "allowed_at_once m now ip (?rl b) = min m (nat b)"
      using b by (intro allowed_at_once_bucket) simp_all
    then show ?thesis unfolding Suc allowed_at_once.simps A a using False b by (simp add: fb_def)
  qed
qed simp

lemma burst_is_exact_witness: "allowed_at_once 12 0 ''10.0.0.1'' (NewRateLimiter 30 10) = 10"
  using burst_is_exact [of 10 12 0 "''10.0.0.1''" 30] by (simp add: exact_int_def)

subsection \<open>Forgetting idle clients\<close>

lemma f_of_int_nonneg:
  "0 \<le> n \<Longrightarrow> f_of_int n = PosInf \<or> (\<exists>y. f_of_int n = Fin y \<and> 0 \<le> y)"
  by (simp add: f_of_int_def round64_nonneg)

lemma trunc_div_nonneg: "0 \<le> a \<Longrightarrow> 0 < b \<Longrightarrow> trunc_div a b = a div b"
  by (cases "a = 0") (auto simp: trunc_div_def)

lemma Minutes_ge:
  assumes "k * minute \<le> d" "0 \<le> k" "d \<le> max_duration"
  shows "Minutes d = PosInf \<or> (\<exists>y. Minutes d = Fin y \<and> of_int k \<le> y)"
proof -
  have m: "0 < minute" by (simp add: minute_def second_def)
  have d0: "0 \<le> d" using assms m by (meson mult_nonneg_nonneg order_trans less_imp_le)
  define q where "q = d div minute"
  have q: "k \<le> q" using assms(1) m by (simp add: q_def zdiv_mono1 pos_imp_zdiv_neg_iff) (metis less_le_not_le linorder_not_less m mult.commute nonzero_mult_div_cancel_left zdiv_mono1)
  have "q \<le> max_duration div minute" using assms(3) m by (simp add: q_def zdiv_mono1)
  then have qe: "exact_int q" using q assms(2) by (simp add: exact_int_def max_duration_def minute_def second_def)
  define n where "n = d - q * minute"
  have n: "0 \<le> n" "n < minute"
    using m by (simp_all add: n_def q_def minus_div_mult_eq_mod)
  have ne: "exact_int n" using n by (simp add: exact_int_def minute_def second_def)
  have me: "exact_int minute" by (simp add: exact_int_def minute_def second_def)
  have M: "Minutes d = f_add (Fin (of_int q)) (f_div (Fin (of_int n)) (Fin (of_int minute)))"
    using qe ne me d0 m by (simp add: Minutes_def Let_def trunc_div_nonneg q_def [symmetric] n_def [symmetric])
  have "0 \<le> (of_int n / of_int minute :: rat)" using n m by simp
  then obtain z where "f_div (Fin (of_int n)) (Fin (of_int minute)) = PosInf \<or>
      f_div (Fin (of_int n)) (Fin (of_int minute)) = Fin z \<and> 0 \<le> z"
    using round64_nonneg [of "of_int n / of_int minute"] m by auto
  moreover have "of_int k \<le> (of_int q + z :: rat)" if "0 \<le> z" using q that by (simp add: add_increasing2)
  moreover have ke: "exact_int k" using exact_le [OF assms(2) q qe] .
  ultimately show ?thesis using round64_ge_int [OF assms(2) ke, of "of_int q + z"] by (auto simp: M)
qed

lemma idle_bucket_is_full:
  assumes l: "limits_ok rl" and b: "bucket_ok rl b" and r: "burst rl \<le> 10 * rate rl"
    and t: "lastSeen b < now - DefaultCleanupInterval"
  shows "allowBucket rl now b = allowBucket rl now \<lparr>tokens = f_of_int (burst rl), lastSeen = now\<rparr>"
proof -
  define d where "d = time_Sub now (lastSeen b)"
  have "10 * minute \<le> max_duration" by (simp add: max_duration_def minute_def second_def)
  then have d: "10 * minute \<le> d" "d \<le> max_duration"
    using t by (auto simp: d_def time_Sub_def DefaultCleanupInterval_def min_duration_def max_duration_def)
  define e where "e = Minutes d"
  have e: "e = PosInf \<or> (\<exists>y. e = Fin y \<and> 10 \<le> y)"
    using Minutes_ge [OF d(1) _ d(2)] by (simp add: e_def)
  have R: "f_of_int (rate rl) = Fin (of_int (rate rl))" "0 < (of_int (rate rl) :: rat)"
    and B: "f_of_int (burst rl) = Fin (of_int (burst rl))" "0 \<le> burst rl" "exact_int (burst rl)"
    using l by (auto simp: limits_ok_def)
  obtain x where x: "tokens b = Fin x" "0 \<le> x" using b by (auto simp: bucket_ok_def split: float64.splits)
  define m where "m = f_mul e (Fin (of_int (rate rl)))"
  have m: "m = PosInf \<or> (\<exists>z. m = Fin z \<and> of_int (burst rl) \<le> z)"
    using e
  proof
    assume "\<exists>y. e = Fin y \<and> 10 \<le> y"
    then obtain y where y: "e = Fin y" "10 \<le> y" by blast
    have "(of_int (burst rl) :: rat) \<le> of_int (10 * rate rl)" using r by (simp only: of_int_le_iff)
    also have "... \<le> y * of_int (rate rl)" using y(2) R(2) by (simp add: mult_right_mono)
    finally show ?thesis using round64_ge_int [OF B(2,3)] by (simp add: m_def y)
  qed (use R in \<open>simp add: m_def f_inf_def\<close>)
  define c where "c = f_add (tokens b) m"
  have c: "c = PosInf \<or> (\<exists>z. c = Fin z \<and> of_int (burst rl) \<le> z)"
    using m
  proof
    assume "\<exists>z. m = Fin z \<and> of_int (burst rl) \<le> z"
    then obtain z where z: "m = Fin z" "of_int (burst rl) \<le> z" by blast
    then have "of_int (burst rl) \<le> x + z" using x(2) by simp
    from round64_ge_int [OF B(2,3) this] show ?thesis by (simp add: c_def x z)
  qed (simp add: c_def x)
  have cap: "(if f_lt (f_of_int (burst rl)) c then f_of_int (burst rl) else c) = f_of_int (burst rl)"
    using c by (auto simp: B)
  have pos: "f_lt (Fin 0) e" using e by auto
  have u: "b\<lparr>tokens := f_of_int (burst rl), lastSeen := now\<rparr> = \<lparr>tokens = f_of_int (burst rl), lastSeen = now\<rparr>"
    by (cases b) simp
  show ?thesis
    unfolding allowBucket_def Let_def d_def [symmetric] e_def [symmetric] R(1) m_def [symmetric]
      c_def [symmetric] cap
    using pos by (simp add: u Minutes_0)
qed

lemma cleanup_delete_lookup:
  "clients (cleanup_delete cutoff ip' rl) ip =
     (case clients rl ip of None \<Rightarrow> None
      | Some b \<Rightarrow> (if ip' = ip \<and> lastSeen b < cutoff then None else Some b))"
  by (auto simp: cleanup_delete_def split: option.splits)

lemma cleanup_lookup:
  "clients (foldl (\<lambda>r ip. cleanup_delete cutoff ip r) rl ips) ip =
     (case clients rl ip of None \<Rightarrow> None
      | Some b \<Rightarrow> (if ip \<in> set ips \<and> lastSeen b < cutoff then None else Some b))"
proof (induction ips arbitrary: rl)
  case Nil
  then show ?case by (simp split: option.splits)
next
  case (Cons a ips)
  show ?case unfolding foldl_Cons Cons cleanup_delete_lookup
    by (auto split: option.splits)
qed

lemma cleanup_limits:
  "rate (foldl (\<lambda>r ip. cleanup_delete cutoff ip r) rl ips) = rate rl"
  "burst (foldl (\<lambda>r ip. cleanup_delete cutoff ip r) rl ips) = burst rl"
proof (induction ips arbitrary: rl)
  case (Cons a ips)
  {
    case 1
    have "rate (cleanup_delete cutoff a rl) = rate rl" by (simp add: cleanup_delete_def split: option.splits)
    then show ?case using Cons by simp
  next
    case 2
    have "burst (cleanup_delete cutoff a rl) = burst rl" by (simp add: cleanup_delete_def split: option.splits)
    then show ?case using Cons by simp
  }
qed simp_all

lemma allowBucket_cong:
  "rate rl = rate rl' \<Longrightarrow> burst rl = burst rl' \<Longrightarrow> allowBucket rl now b = allowBucket rl' now b"
  by (simp add: allowBucket_def Let_def)

text \<open>C31. Forgetting idle clients changes no decision, as long as the burst is at most ten minutes'
  worth of requests: a client the cleanup removed is served exactly as it would have been with
  its old bucket, which had refilled by then. (With a larger burst the cleanup would give it
  tokens it had not earned.)\<close>

theorem cleanup_is_transparent:
  "rl_ok rl \<Longrightarrow> burst rl \<le> 10 * rate rl \<Longrightarrow> cleanupInterval rl = DefaultCleanupInterval \<Longrightarrow> now \<le> later \<Longrightarrow>
   fst (Allow later later ip (cleanupClients now ips id rl)) = fst (Allow later later ip rl) \<and>
   clients (snd (Allow later later ip (cleanupClients now ips id rl))) ip =
     clients (snd (Allow later later ip rl)) ip"
proof -
  assume ok: "rl_ok rl" and r: "burst rl \<le> 10 * rate rl"
    and i: "cleanupInterval rl = DefaultCleanupInterval" and t: "now \<le> later"
  define q where "q = cleanupClients now ips id rl"
  define fresh where "fresh = \<lparr>tokens = f_of_int (burst rl), lastSeen = later\<rparr>"
  have q: "rate q = rate rl" "burst q = burst rl"
    by (simp_all add: q_def cleanupClients_def Let_def cleanup_limits)
  have e: "allowBucket q later b = allowBucket rl later b" for b by (rule allowBucket_cong) (simp_all add: q)
  have same: "allowBucket rl later (case clients q ip of None \<Rightarrow> fresh | Some b \<Rightarrow> b) =
      allowBucket rl later (case clients rl ip of None \<Rightarrow> fresh | Some b \<Rightarrow> b)"
  proof (cases "clients q ip = clients rl ip")
    case False
    then obtain b where b: "clients rl ip = Some b" "clients q ip = None" "lastSeen b < now - DefaultCleanupInterval"
      by (auto simp: q_def cleanupClients_def Let_def cleanup_lookup i split: option.splits if_splits)
    have "bucket_ok rl b" using ok b(1) by (auto simp: rl_ok_def ran_def)
    then show ?thesis using idle_bucket_is_full [of rl b later] ok r b t
      by (simp add: rl_ok_def fresh_def)
  qed simp
  show "fst (Allow later later ip (cleanupClients now ips id rl)) = fst (Allow later later ip rl) \<and>
   clients (snd (Allow later later ip (cleanupClients now ips id rl))) ip =
     clients (snd (Allow later later ip rl)) ip"
    unfolding q_def [symmetric] Allow_def Let_def q(2) e fresh_def [symmetric] same
    by (simp add: split_beta)
qed

lemma cleanup_is_transparent_witness:
  "fst (Allow (20 * minute) (20 * minute) ''a'' (cleanupClients (15 * minute) [''a''] id
       (snd (Allow 0 0 ''a'' (NewRateLimiter 30 10))))) =
   fst (Allow (20 * minute) (20 * minute) ''a'' (snd (Allow 0 0 ''a'' (NewRateLimiter 30 10))))"
proof -
  have n: "rl_ok (NewRateLimiter 30 10)"
    by (simp add: rl_ok_def limits_ok_def NewRateLimiter_def exact_int_def)
  have f: "burst (snd (Allow 0 0 ''a'' (NewRateLimiter 30 10))) = 10"
    "rate (snd (Allow 0 0 ''a'' (NewRateLimiter 30 10))) = 30"
    "cleanupInterval (snd (Allow 0 0 ''a'' (NewRateLimiter 30 10))) = DefaultCleanupInterval"
    by (simp_all add: Allow_def Let_def split_beta NewRateLimiter_def)
  have t: "15 * minute \<le> 20 * minute" by (simp add: minute_def second_def)
  show ?thesis
    using cleanup_is_transparent [OF Allow_ok [OF n, of 0 0 "''a''"] _ f(3) t, of "''a''" "[''a'']"]
    by (simp add: f)
qed

subsection \<open>Whose address it is\<close>

text \<open> Without a trusted proxy in front, nothing a client writes into its headers changes the
  address it is limited under: two requests from the same peer address are charged alike.\<close>

theorem untrusted_headers_ignored:
  "\<not> isTrustedProxy N trusted (remoteAddrIP N r) \<Longrightarrow> GetClientIP N trusted r = GetClientIP N trusted (r\<lparr>Header := h\<rparr>)"
proof -
  assume u: "\<not> isTrustedProxy N trusted (remoteAddrIP N r)"
  have f: "RemoteAddr (r\<lparr>Header := h\<rparr>) = RemoteAddr r" by simp
  have e: "remoteAddrIP N (r\<lparr>Header := h\<rparr>) = remoteAddrIP N r"
    "direct_address N (r\<lparr>Header := h\<rparr>) = direct_address N r"
    unfolding remoteAddrIP_def direct_address_def f by (rule refl)+
  show "GetClientIP N trusted r = GetClientIP N trusted (r\<lparr>Header := h\<rparr>)"
    using u by (simp add: GetClientIP_def e)
qed

definition demo_net :: Net where
  "demo_net =
     \<lparr>ParseIP = (\<lambda>s. if s = ''10.0.0.1'' then Some 1 else if s = ''9.9.9.9'' then Some 9
                     else if s = ''203.0.113.7'' then Some 7 else None),
      IPString = (\<lambda>n. if n = 1 then ''10.0.0.1'' else if n = 9 then ''9.9.9.9'' else ''203.0.113.7''),
      To4 = (\<lambda>_. True), ParseCIDR = (\<lambda>s. Some 0), ContainsIP = (\<lambda>net ip. ip = 1),
      SplitHostPort = (\<lambda>s. None)\<rparr>"

lemma untrusted_headers_ignored_witness:
  "GetClientIP demo_net [0] \<lparr>RemoteAddr = ''203.0.113.7'', Header = (\<lambda>_. ''9.9.9.9''), Path = ''/metrics''\<rparr> =
   GetClientIP demo_net [0] \<lparr>RemoteAddr = ''203.0.113.7'', Header = (\<lambda>_. ''''), Path = ''/metrics''\<rparr>"
proof -
  let ?r = "\<lparr>RemoteAddr = ''203.0.113.7'', Header = (\<lambda>_. ''9.9.9.9''), Path = ''/metrics''\<rparr>"
  have "\<not> isTrustedProxy demo_net [0] (remoteAddrIP demo_net ?r)" by code_simp
  from untrusted_headers_ignored [OF this, of "\<lambda>_. ''''"] show ?thesis by simp
qed

text \<open> Behind a trusted proxy a client still chooses the address it is limited under. A proxy
  appends the peer it saw to the header it received, and the limiter takes the left-most entry
  that is not a trusted proxy: whatever address the client sends in the header wins over the
  actual one, so changing it gives the client a fresh bucket for every request.\<close>

theorem forwarded_for_is_spoofable:
  "isTrustedProxy N trusted (remoteAddrIP N r) \<Longrightarrow>
   Header r ''X-Forwarded-For'' = forged @ '','' @ actual \<Longrightarrow> CHR '','' \<notin> set forged \<Longrightarrow>
   ParseIP N (TrimSpace forged) = Some a \<Longrightarrow> \<not> isTrustedProxy N trusted (Some a) \<Longrightarrow>
   GetClientIP N trusted r = IPString N a"
proof -
  assume t: "isTrustedProxy N trusted (remoteAddrIP N r)"
    and h: "Header r ''X-Forwarded-For'' = forged @ '','' @ actual" and c: "CHR '','' \<notin> set forged"
    and p: "ParseIP N (TrimSpace forged) = Some a" and u: "\<not> isTrustedProxy N trusted (Some a)"
  have rem: "remoteAddrIP N r \<noteq> None" using t by (auto simp: isTrustedProxy_def split: option.splits)
  have s: "Split (forged @ '','' @ actual) CHR '','' = forged # Split actual CHR '',''"
    using c by (induction forged) auto
  have "first_untrusted N trusted (Split (Header r ''X-Forwarded-For'') CHR '','') = Some (IPString N a)"
    unfolding h s using p u by simp
  then show "GetClientIP N trusted r = IPString N a" using t rem h by (simp add: GetClientIP_def Let_def)
qed

lemma forwarded_for_is_spoofable_witness:
  "GetClientIP demo_net [0] \<lparr>RemoteAddr = ''10.0.0.1'',
     Header = (\<lambda>k. if k = ''X-Forwarded-For'' then ''9.9.9.9'' @ '','' @ ''203.0.113.7'' else ''''), Path = ''/metrics''\<rparr>
   = ''9.9.9.9''"
proof -
  let ?r = "\<lparr>RemoteAddr = ''10.0.0.1'',
     Header = (\<lambda>k. if k = ''X-Forwarded-For'' then ''9.9.9.9'' @ '','' @ ''203.0.113.7'' else ''''), Path = ''/metrics''\<rparr>"
  have "isTrustedProxy demo_net [0] (remoteAddrIP demo_net ?r)" by code_simp
  moreover have "Header ?r ''X-Forwarded-For'' = ''9.9.9.9'' @ '','' @ ''203.0.113.7''" by simp
  moreover have "CHR '','' \<notin> set ''9.9.9.9''" by simp
  moreover have "ParseIP demo_net (TrimSpace ''9.9.9.9'') = Some 9" by code_simp
  moreover have "\<not> isTrustedProxy demo_net [0] (Some 9)" by code_simp
  ultimately have "GetClientIP demo_net [0] ?r = IPString demo_net 9" by (rule forwarded_for_is_spoofable)
  then show ?thesis by (simp add: demo_net_def)
qed

end
