(* ===== verification/Monitoring.thy ===== *)
theory Monitoring
  imports Metrics PooledClient RateLimit "HOL-Library.AList"
begin

section \<open>Internal monitoring\<close>

text \<open>
  pkg/monitoring: the exporter's vectors about itself, the recorders the pool, the breaker and the
  rate limiter call (their calls are the events of those components), the registration, the zero
  values published at start, and the event counters with their clean-up.
\<close>

subsection \<open>The vectors\<close>

datatype im_metric =
    PoolUtilization
  | PoolConnections
  | PoolWaitTime
  | PoolOperations
  | PoolConnectionsCreated
  | PoolConnectionsClosed
  | PoolConnectionsFailed
  | PoolConnectionsReused
  | PoolConnectionAge
  | PoolConnectionIdleTime
  | PoolWaitTimeouts
  | PoolHealthChecks
  | PoolHealthCheckFailures
  | PoolGetRequests
  | PoolGetFailures
  | PoolPutRequests
  | PoolPutRejections
  | CircuitBreakerState
  | CircuitBreakerRequests
  | CircuitBreakerFailures
  | CollectionLatency
  | CollectionSuccess
  | CollectionFailures
  | RateLimitRequests
  | RateLimitBlocked
  | GoroutineCount
  | MemoryUsage
  | Uptime

definition pool_vecs :: "(im_metric \<times> vec_desc) list" where
  "pool_vecs =
    [(PoolUtilization, \<lparr>vec_kind = Gauge, vec_name = ''openldap_exporter_pool_utilization_ratio'', vec_labels = [''server'', ''pool_type'']\<rparr>),
     (PoolConnections, \<lparr>vec_kind = Gauge, vec_name = ''openldap_exporter_pool_connections'', vec_labels = [''server'', ''pool_type'', ''state'']\<rparr>),
     (PoolWaitTime, \<lparr>vec_kind = Histogram, vec_name = ''openldap_exporter_pool_wait_time_seconds'', vec_labels = [''server'', ''pool_type'']\<rparr>),
     (PoolOperations, \<lparr>vec_kind = Counter, vec_name = ''openldap_exporter_pool_operations_total'', vec_labels = [''server'', ''pool_type'', ''operation'']\<rparr>),
     (PoolConnectionsCreated, \<lparr>vec_kind = Counter, vec_name = ''openldap_exporter_pool_connections_created_total'', vec_labels = [''server'', ''pool_type'']\<rparr>),
     (PoolConnectionsClosed, \<lparr>vec_kind = Counter, vec_name = ''openldap_exporter_pool_connections_closed_total'', vec_labels = [''server'', ''pool_type'', ''reason'']\<rparr>),
     (PoolConnectionsFailed, \<lparr>vec_kind = Counter, vec_name = ''openldap_exporter_pool_connections_failed_total'', vec_labels = [''server'', ''pool_type'', ''error'']\<rparr>),
     (PoolConnectionsReused, \<lparr>vec_kind = Counter, vec_name = ''openldap_exporter_pool_connections_reused_total'', vec_labels = [''server'', ''pool_type'']\<rparr>),
     (PoolConnectionAge, \<lparr>vec_kind = Histogram, vec_name = ''openldap_exporter_pool_connection_age_seconds'', vec_labels = [''server'', ''pool_type'']\<rparr>),
     (PoolConnectionIdleTime, \<lparr>vec_kind = Histogram, vec_name = ''openldap_exporter_pool_connection_idle_seconds'', vec_labels = [''server'', ''pool_type'']\<rparr>),
     (PoolWaitTimeouts, \<lparr>vec_kind = Counter, vec_name = ''openldap_exporter_pool_wait_timeouts_total'', vec_labels = [''server'', ''pool_type'']\<rparr>),
     (PoolHealthChecks, \<lparr>vec_kind = Counter, vec_name = ''openldap_exporter_pool_health_checks_total'', vec_labels = [''server'', ''pool_type'', ''result'']\<rparr>),
     (PoolHealthCheckFailures, \<lparr>vec_kind = Counter, vec_name = ''openldap_exporter_pool_health_check_failures_total'', vec_labels = [''server'', ''pool_type'']\<rparr>)]"

definition request_vecs :: "(im_metric \<times> vec_desc) list" where
  "request_vecs =
    [(PoolGetRequests, \<lparr>vec_kind = Counter, vec_name = ''openldap_exporter_pool_get_requests_total'', vec_labels = [''server'', ''pool_type'']\<rparr>),
     (PoolGetFailures, \<lparr>vec_kind = Counter, vec_name = ''openldap_exporter_pool_get_failures_total'', vec_labels = [''server'', ''pool_type'', ''reason'']\<rparr>),
     (PoolPutRequests, \<lparr>vec_kind = Counter, vec_name = ''openldap_exporter_pool_put_requests_total'', vec_labels = [''server'', ''pool_type'']\<rparr>),
     (PoolPutRejections, \<lparr>vec_kind = Counter, vec_name = ''openldap_exporter_pool_put_rejections_total'', vec_labels = [''server'', ''pool_type'', ''reason'']\<rparr>),
     (CircuitBreakerState, \<lparr>vec_kind = Gauge, vec_name = ''openldap_exporter_circuit_breaker_state'', vec_labels = [''server'', ''component'']\<rparr>),
     (CircuitBreakerRequests, \<lparr>vec_kind = Counter, vec_name = ''openldap_exporter_circuit_breaker_requests_total'', vec_labels = [''server'', ''component'', ''result'']\<rparr>),
     (CircuitBreakerFailures, \<lparr>vec_kind = Counter, vec_name = ''openldap_exporter_circuit_breaker_failures_total'', vec_labels = [''server'', ''component'']\<rparr>),
     (CollectionLatency, \<lparr>vec_kind = Histogram, vec_name = ''openldap_exporter_collection_latency_seconds'', vec_labels = [''server'', ''metric_type'']\<rparr>),
     (CollectionSuccess, \<lparr>vec_kind = Counter, vec_name = ''openldap_exporter_collection_success_total'', vec_labels = [''server'', ''metric_type'']\<rparr>),
     (CollectionFailures, \<lparr>vec_kind = Counter, vec_name = ''openldap_exporter_collection_failures_total'', vec_labels = [''server'', ''metric_type'']\<rparr>),
     (RateLimitRequests, \<lparr>vec_kind = Counter, vec_name = ''openldap_exporter_rate_limit_requests_total'', vec_labels = [''client_ip'', ''endpoint'']\<rparr>),
     (RateLimitBlocked, \<lparr>vec_kind = Counter, vec_name = ''openldap_exporter_rate_limit_blocked_total'', vec_labels = [''client_ip'', ''endpoint'']\<rparr>),
     (GoroutineCount, \<lparr>vec_kind = Gauge, vec_name = ''openldap_exporter_system_goroutines'', vec_labels = [''server'']\<rparr>)]"

definition system_vecs :: "(im_metric \<times> vec_desc) list" where
  "system_vecs =
    [(MemoryUsage, \<lparr>vec_kind = Gauge, vec_name = ''openldap_exporter_system_memory_bytes'', vec_labels = [''server'', ''type'']\<rparr>),
     (Uptime, \<lparr>vec_kind = Gauge, vec_name = ''openldap_exporter_system_uptime_seconds'', vec_labels = [''server'']\<rparr>)]"

definition im_vecs :: "(im_metric \<times> vec_desc) list" where
  "im_vecs = pool_vecs @ request_vecs @ system_vecs"

definition registered :: "im_metric list" where
  "registered =
    [PoolUtilization, PoolConnections, PoolWaitTime, PoolOperations, PoolConnectionsCreated,
     PoolConnectionsClosed, PoolConnectionsFailed, PoolConnectionsReused, PoolConnectionAge,
     PoolConnectionIdleTime, PoolWaitTimeouts, PoolHealthChecks, PoolHealthCheckFailures,
     PoolGetRequests, PoolGetFailures, PoolPutRequests, PoolPutRejections, CircuitBreakerState,
     CircuitBreakerRequests, CircuitBreakerFailures, CollectionLatency, CollectionSuccess,
     CollectionFailures, RateLimitRequests, RateLimitBlocked, GoroutineCount, MemoryUsage,
     Uptime]"

record EventCounter =
  Count :: int
  LastEvent :: time
  FirstEvent :: time

record InternalMonitoring =
  im_events :: "(string \<times> EventCounter) list"
  im_startTime :: time
  im_calls :: "im_metric vec_call list"

definition MaxEvents :: nat where "MaxEvents = 1000"
definition EventTTL :: duration where "EventTTL = 24 * hour"
definition UnknownClientIP :: string where "UnknownClientIP = ''unknown''"

definition NewInternalMonitoring :: "time \<Rightarrow> InternalMonitoring" where
  "NewInternalMonitoring now = \<lparr>im_events = [], im_startTime = now, im_calls = []\<rparr>"

definition im_call :: "im_metric vec_call list \<Rightarrow> InternalMonitoring \<Rightarrow> InternalMonitoring" where
  "im_call cs im = im\<lparr>im_calls := im_calls im @ cs\<rparr>"

text \<open>\<open>RegisterMetrics\<close>: \<open>register\<close> is the registry's answer for a vector; the first error is returned.\<close>

definition RegisterMetrics :: "(im_metric \<Rightarrow> string option) \<Rightarrow> string option \<times> nat \<times> nat" where
  "RegisterMetrics register =
     (case filter (\<lambda>m. register m \<noteq> None) registered of
        [] \<Rightarrow> (None, length registered, 0)
      | m # ms \<Rightarrow> (register m, length registered - length (m # ms), length (m # ms)))"

subsection \<open>The recorders\<close>

fun pool_calls :: "string \<times> string \<times> pool_event \<Rightarrow> im_metric vec_call list" where
  "pool_calls (server, pooltype, RecordPoolOperation op) =
     [CounterInc PoolOperations (WithLabelValues [server, pooltype, op])]"
| "pool_calls (server, pooltype, RecordPoolConnections st n) =
     [GaugeSet PoolConnections (WithLabelValues [server, pooltype, st]) n]"
| "pool_calls (server, pooltype, RecordPoolUtilization u) =
     [GaugeSet PoolUtilization (WithLabelValues [server, pooltype]) u]"
| "pool_calls (server, pooltype, RecordPoolWaitTime d) =
     [Observe PoolWaitTime (WithLabelValues [server, pooltype]) d]"
| "pool_calls (server, pooltype, RecordPoolWaitTimeout) =
     [CounterInc PoolWaitTimeouts (WithLabelValues [server, pooltype])]"
| "pool_calls (server, pooltype, RecordPoolConnectionCreated) =
     [CounterInc PoolConnectionsCreated (WithLabelValues [server, pooltype])]"
| "pool_calls (server, pooltype, RecordPoolConnectionClosed reason) =
     [CounterInc PoolConnectionsClosed (WithLabelValues [server, pooltype, reason])]"
| "pool_calls (server, pooltype, RecordPoolConnectionFailed err) =
     [CounterInc PoolConnectionsFailed (WithLabelValues [server, pooltype, err])]"
| "pool_calls (server, pooltype, RecordPoolConnectionReused) =
     [CounterInc PoolConnectionsReused (WithLabelValues [server, pooltype])]"
| "pool_calls (server, pooltype, RecordPoolGetRequest) =
     [CounterInc PoolGetRequests (WithLabelValues [server, pooltype])]"
| "pool_calls (server, pooltype, RecordPoolGetFailure reason) =
     [CounterInc PoolGetFailures (WithLabelValues [server, pooltype, reason])]"
| "pool_calls (server, pooltype, RecordPoolPutRequest) =
     [CounterInc PoolPutRequests (WithLabelValues [server, pooltype])]"
| "pool_calls (server, pooltype, RecordPoolPutRejection reason) =
     [CounterInc PoolPutRejections (WithLabelValues [server, pooltype, reason])]"

fun cb_calls :: "string \<times> string \<times> cb_event \<Rightarrow> im_metric vec_call list" where
  "cb_calls (server, compon, RecordCircuitBreakerState st) =
     [GaugeSet CircuitBreakerState (WithLabelValues [server, compon]) (f_of_int (State_code st))]"
| "cb_calls (server, compon, RecordCircuitBreakerRequest result) =
     [CounterInc CircuitBreakerRequests (WithLabelValues [server, compon, result])]"
| "cb_calls (server, compon, RecordCircuitBreakerFailure) =
     [CounterInc CircuitBreakerFailures (WithLabelValues [server, compon])]"

fun rl_calls :: "rl_event \<Rightarrow> im_metric vec_call list" where
  "rl_calls (RecordRateLimitRequest ip endpoint) = [CounterInc RateLimitRequests (WithLabelValues [ip, endpoint])]"
| "rl_calls (RecordRateLimitBlocked ip endpoint) = [CounterInc RateLimitBlocked (WithLabelValues [ip, endpoint])]"

definition RecordCollectionLatency :: "string \<Rightarrow> string \<Rightarrow> duration \<Rightarrow> InternalMonitoring \<Rightarrow> InternalMonitoring" where
  "RecordCollectionLatency server metricType d im =
     im_call [Observe CollectionLatency (WithLabelValues [server, metricType]) d] im"

definition RecordCollectionSuccess :: "string \<Rightarrow> string \<Rightarrow> InternalMonitoring \<Rightarrow> InternalMonitoring" where
  "RecordCollectionSuccess server metricType im =
     im_call [CounterInc CollectionSuccess (WithLabelValues [server, metricType])] im"

definition RecordCollectionFailure :: "string \<Rightarrow> string \<Rightarrow> InternalMonitoring \<Rightarrow> InternalMonitoring" where
  "RecordCollectionFailure server metricType im =
     im_call [CounterInc CollectionFailures (WithLabelValues [server, metricType])] im"

definition UpdateSystemMetrics ::
  "string \<Rightarrow> int \<Rightarrow> int \<Rightarrow> int \<Rightarrow> int \<Rightarrow> time \<Rightarrow> InternalMonitoring \<Rightarrow> InternalMonitoring" where
  "UpdateSystemMetrics server goroutines heapBytes stackBytes sysBytes now im =
     im_call
       [GaugeSet GoroutineCount (WithLabelValues [server]) (f_of_int goroutines),
        GaugeSet MemoryUsage (WithLabelValues [server, ''heap'']) (f_of_int heapBytes),
        GaugeSet MemoryUsage (WithLabelValues [server, ''stack'']) (f_of_int stackBytes),
        GaugeSet MemoryUsage (WithLabelValues [server, ''sys'']) (f_of_int sysBytes),
        GaugeSet Uptime (WithLabelValues [server]) (duration_Seconds (time_Sub now (im_startTime im)))] im"

definition zero_counter :: "im_metric \<Rightarrow> string list \<Rightarrow> im_metric vec_call" where
  "zero_counter m vs = CounterAdd m (WithLabelValues vs) (f_of_int 0)"

definition InitializeMetricsForServer :: "string \<Rightarrow> InternalMonitoring \<Rightarrow> InternalMonitoring" where
  "InitializeMetricsForServer serverName im =
     (let pooltype = ''ldap''
      in im_call
       (map (\<lambda>r. zero_counter PoolConnectionsClosed [serverName, pooltype, r])
          [''normal'', ''timeout'', ''error'', ''shutdown''] @
        map (\<lambda>r. zero_counter PoolConnectionsFailed [serverName, pooltype, r]) [''network_error'', ''auth_error''] @
        map (\<lambda>r. zero_counter PoolGetFailures [serverName, pooltype, r])
          [''timeout'', ''creation_failed'', ''max_attempts''] @
        map (\<lambda>r. zero_counter PoolPutRejections [serverName, pooltype, r]) [''invalid_connection'', ''pool_full''] @
        [zero_counter PoolWaitTimeouts [serverName, pooltype],
         zero_counter PoolHealthChecks [serverName, pooltype, ''success''],
         zero_counter PoolHealthChecks [serverName, pooltype, ''failure''],
         zero_counter PoolHealthCheckFailures [serverName, pooltype],
         zero_counter CircuitBreakerFailures [serverName, pooltype],
         zero_counter CircuitBreakerRequests [serverName, pooltype, ''blocked'']] @
        map (\<lambda>t. zero_counter CollectionFailures [serverName, t])
          [''scrape'', ''connections'', ''statistics'', ''operations'', ''threads'', ''health''] @
        map (\<lambda>e. zero_counter RateLimitBlocked [UnknownClientIP, e])
          [''/metrics'', ''/health'', ''/internal/metrics'']) im)"

subsection \<open>Event counters\<close>

definition cleanupOldEventsUnsafe :: "time \<Rightarrow> InternalMonitoring \<Rightarrow> InternalMonitoring" where
  "cleanupOldEventsUnsafe now im =
     im\<lparr>im_events := filter (\<lambda>(k, c). \<not> time_Sub now (LastEvent c) > EventTTL) (im_events im)\<rparr>"

text \<open>\<open>CleanupEvents\<close> is the same under the lock; \<open>im_reset\<close> is \<open>Reset\<close>.\<close>

definition CleanupEvents :: "time \<Rightarrow> InternalMonitoring \<Rightarrow> InternalMonitoring" where
  "CleanupEvents now im = cleanupOldEventsUnsafe now im"

definition im_reset :: "InternalMonitoring \<Rightarrow> InternalMonitoring" where
  "im_reset im = im\<lparr>im_events := []\<rparr>"

text \<open>The clock is read by the clean-up, when it runs, and then for the event: \<open>now1 \<le> now\<close>.\<close>

definition RecordEvent :: "string \<Rightarrow> time \<Rightarrow> time \<Rightarrow> InternalMonitoring \<Rightarrow> InternalMonitoring" where
  "RecordEvent eventType now1 now im =
     (let im = (if length (im_events im) \<ge> MaxEvents then cleanupOldEventsUnsafe now1 im else im)
      in case map_of (im_events im) eventType of
           Some c \<Rightarrow> im\<lparr>im_events := AList.update eventType (c\<lparr>Count := Count c + 1, LastEvent := now\<rparr>) (im_events im)\<rparr>
         | None \<Rightarrow> im\<lparr>im_events := im_events im @
              [(eventType, \<lparr>Count = 1, LastEvent = now, FirstEvent = now\<rparr>)]\<rparr>)"

definition GetEventStats :: "InternalMonitoring \<Rightarrow> (string \<times> int \<times> time) list" where
  "GetEventStats im = map (\<lambda>(k, c). (k, Count c, LastEvent c)) (im_events im)"

definition RecordScrape ::
  "string \<Rightarrow> duration \<Rightarrow> bool \<Rightarrow> time \<Rightarrow> time \<Rightarrow> InternalMonitoring \<Rightarrow> InternalMonitoring" where
  "RecordScrape server d success now1 now im =
     (let im = im_call [Observe CollectionLatency (WithLabelValues [server, ''scrape'']) d] im;
          im = im_call [if success then CounterInc CollectionSuccess (WithLabelValues [server, ''scrape''])
                        else CounterInc CollectionFailures (WithLabelValues [server, ''scrape''])] im
      in RecordEvent (if success then ''scrape_success'' else ''scrape_failure'') now1 now im)"

subsection \<open>No recorder panics\<close>

definition no_panic :: "InternalMonitoring \<Rightarrow> bool" where
  "no_panic im \<longleftrightarrow> list_all (call_ok im_vecs) (im_calls im)"

datatype im_op =
    OpPool string string pool_event
  | OpBreaker string string cb_event
  | OpRateLimit rl_event
  | OpScrape string duration bool time time
  | OpCollection string string duration bool
  | OpSystem string int int int int time
  | OpInit string
  | OpEvent string time time
  | OpCleanup time
  | OpReset

fun im_step :: "im_op \<Rightarrow> InternalMonitoring \<Rightarrow> InternalMonitoring" where
  "im_step (OpPool server pooltype ev) im = im_call (pool_calls (server, pooltype, ev)) im"
| "im_step (OpBreaker server compon ev) im = im_call (cb_calls (server, compon, ev)) im"
| "im_step (OpRateLimit ev) im = im_call (rl_calls ev) im"
| "im_step (OpScrape server d ok now1 now) im = RecordScrape server d ok now1 now im"
| "im_step (OpCollection server t d ok) im =
     (let im = RecordCollectionLatency server t d im
      in if ok then RecordCollectionSuccess server t im else RecordCollectionFailure server t im)"
| "im_step (OpSystem server g h s y now) im = UpdateSystemMetrics server g h s y now im"
| "im_step (OpInit server) im = InitializeMetricsForServer server im"
| "im_step (OpEvent t now1 now) im = RecordEvent t now1 now im"
| "im_step (OpCleanup now) im = CleanupEvents now im"
| "im_step OpReset im = im_reset im"

lemma im_lookup [simp]:
  "map_of im_vecs PoolUtilization = Some \<lparr>vec_kind = Gauge, vec_name = ''openldap_exporter_pool_utilization_ratio'', vec_labels = [''server'', ''pool_type'']\<rparr> \<and>
   map_of im_vecs PoolConnections = Some \<lparr>vec_kind = Gauge, vec_name = ''openldap_exporter_pool_connections'', vec_labels = [''server'', ''pool_type'', ''state'']\<rparr> \<and>
   map_of im_vecs PoolWaitTime = Some \<lparr>vec_kind = Histogram, vec_name = ''openldap_exporter_pool_wait_time_seconds'', vec_labels = [''server'', ''pool_type'']\<rparr> \<and>
   map_of im_vecs PoolOperations = Some \<lparr>vec_kind = Counter, vec_name = ''openldap_exporter_pool_operations_total'', vec_labels = [''server'', ''pool_type'', ''operation'']\<rparr> \<and>
   map_of im_vecs PoolConnectionsCreated = Some \<lparr>vec_kind = Counter, vec_name = ''openldap_exporter_pool_connections_created_total'', vec_labels = [''server'', ''pool_type'']\<rparr> \<and>
   map_of im_vecs PoolConnectionsClosed = Some \<lparr>vec_kind = Counter, vec_name = ''openldap_exporter_pool_connections_closed_total'', vec_labels = [''server'', ''pool_type'', ''reason'']\<rparr> \<and>
   map_of im_vecs PoolConnectionsFailed = Some \<lparr>vec_kind = Counter, vec_name = ''openldap_exporter_pool_connections_failed_total'', vec_labels = [''server'', ''pool_type'', ''error'']\<rparr> \<and>
   map_of im_vecs PoolConnectionsReused = Some \<lparr>vec_kind = Counter, vec_name = ''openldap_exporter_pool_connections_reused_total'', vec_labels = [''server'', ''pool_type'']\<rparr> \<and>
   map_of im_vecs PoolConnectionAge = Some \<lparr>vec_kind = Histogram, vec_name = ''openldap_exporter_pool_connection_age_seconds'', vec_labels = [''server'', ''pool_type'']\<rparr> \<and>
   map_of im_vecs PoolConnectionIdleTime = Some \<lparr>vec_kind = Histogram, vec_name = ''openldap_exporter_pool_connection_idle_seconds'', vec_labels = [''server'', ''pool_type'']\<rparr> \<and>
   map_of im_vecs PoolWaitTimeouts = Some \<lparr>vec_kind = Counter, vec_name = ''openldap_exporter_pool_wait_timeouts_total'', vec_labels = [''server'', ''pool_type'']\<rparr> \<and>
   map_of im_vecs PoolHealthChecks = Some \<lparr>vec_kind = Counter, vec_name = ''openldap_exporter_pool_health_checks_total'', vec_labels = [''server'', ''pool_type'', ''result'']\<rparr> \<and>
   map_of im_vecs PoolHealthCheckFailures = Some \<lparr>vec_kind = Counter, vec_name = ''openldap_exporter_pool_health_check_failures_total'', vec_labels = [''server'', ''pool_type'']\<rparr> \<and>
   map_of im_vecs PoolGetRequests = Some \<lparr>vec_kind = Counter, vec_name = ''openldap_exporter_pool_get_requests_total'', vec_labels = [''server'', ''pool_type'']\<rparr> \<and>
   map_of im_vecs PoolGetFailures = Some \<lparr>vec_kind = Counter, vec_name = ''openldap_exporter_pool_get_failures_total'', vec_labels = [''server'', ''pool_type'', ''reason'']\<rparr> \<and>
   map_of im_vecs PoolPutRequests = Some \<lparr>vec_kind = Counter, vec_name = ''openldap_exporter_pool_put_requests_total'', vec_labels = [''server'', ''pool_type'']\<rparr> \<and>
   map_of im_vecs PoolPutRejections = Some \<lparr>vec_kind = Counter, vec_name = ''openldap_exporter_pool_put_rejections_total'', vec_labels = [''server'', ''pool_type'', ''reason'']\<rparr> \<and>
   map_of im_vecs CircuitBreakerState = Some \<lparr>vec_kind = Gauge, vec_name = ''openldap_exporter_circuit_breaker_state'', vec_labels = [''server'', ''component'']\<rparr> \<and>
   map_of im_vecs CircuitBreakerRequests = Some \<lparr>vec_kind = Counter, vec_name = ''openldap_exporter_circuit_breaker_requests_total'', vec_labels = [''server'', ''component'', ''result'']\<rparr> \<and>
   map_of im_vecs CircuitBreakerFailures = Some \<lparr>vec_kind = Counter, vec_name = ''openldap_exporter_circuit_breaker_failures_total'', vec_labels = [''server'', ''component'']\<rparr> \<and>
   map_of im_vecs CollectionLatency = Some \<lparr>vec_kind = Histogram, vec_name = ''openldap_exporter_collection_latency_seconds'', vec_labels = [''server'', ''metric_type'']\<rparr> \<and>
   map_of im_vecs CollectionSuccess = Some \<lparr>vec_kind = Counter, vec_name = ''openldap_exporter_collection_success_total'', vec_labels = [''server'', ''metric_type'']\<rparr> \<and>
   map_of im_vecs CollectionFailures = Some \<lparr>vec_kind = Counter, vec_name = ''openldap_exporter_collection_failures_total'', vec_labels = [''server'', ''metric_type'']\<rparr> \<and>
   map_of im_vecs RateLimitRequests = Some \<lparr>vec_kind = Counter, vec_name = ''openldap_exporter_rate_limit_requests_total'', vec_labels = [''client_ip'', ''endpoint'']\<rparr> \<and>
   map_of im_vecs RateLimitBlocked = Some \<lparr>vec_kind = Counter, vec_name = ''openldap_exporter_rate_limit_blocked_total'', vec_labels = [''client_ip'', ''endpoint'']\<rparr> \<and>
   map_of im_vecs GoroutineCount = Some \<lparr>vec_kind = Gauge, vec_name = ''openldap_exporter_system_goroutines'', vec_labels = [''server'']\<rparr> \<and>
   map_of im_vecs MemoryUsage = Some \<lparr>vec_kind = Gauge, vec_name = ''openldap_exporter_system_memory_bytes'', vec_labels = [''server'', ''type'']\<rparr> \<and>
   map_of im_vecs Uptime = Some \<lparr>vec_kind = Gauge, vec_name = ''openldap_exporter_system_uptime_seconds'', vec_labels = [''server'']\<rparr>"
proof -
  define F where "F = map_of im_vecs"
  have "list_all (\<lambda>(m, d). map_of im_vecs m = Some d) im_vecs" by code_simp
  then have "list_all (\<lambda>(m, d). F m = Some d) im_vecs" by (simp only: F_def)
  then show ?thesis
    unfolding F_def [symmetric] by (simp only: im_vecs_def pool_vecs_def request_vecs_def system_vecs_def append.simps list.pred_inject prod.case simp_thms)
qed

lemma no_panic_call: "no_panic (im_call cs im) \<longleftrightarrow> no_panic im \<and> list_all (call_ok im_vecs) cs"
  by (simp add: no_panic_def im_call_def)

lemma pool_calls_ok: "list_all (call_ok im_vecs) (pool_calls (server, pooltype, ev))"
  by (cases ev) (simp_all add: CounterInc_def labels_fit_def)

lemma cb_calls_ok: "list_all (call_ok im_vecs) (cb_calls (server, compon, ev))"
  by (cases ev) (simp_all add: CounterInc_def labels_fit_def)

lemma rl_calls_ok: "list_all (call_ok im_vecs) (rl_calls ev)"
  by (cases ev) (simp_all add: CounterInc_def labels_fit_def)

lemma no_panic_RecordEvent: "no_panic (RecordEvent t now1 now im) = no_panic im"
  by (simp add: RecordEvent_def cleanupOldEventsUnsafe_def no_panic_def Let_def split: option.splits)

lemma no_panic_step: "no_panic im \<Longrightarrow> no_panic (im_step op im)"
proof (cases op)
  case (OpPool server pooltype ev)
  then show "no_panic im \<Longrightarrow> ?thesis" using pool_calls_ok by (simp add: no_panic_call del: pool_calls.simps)
next
  case (OpBreaker server compon ev)
  then show "no_panic im \<Longrightarrow> ?thesis" using cb_calls_ok by (simp add: no_panic_call del: cb_calls.simps)
next
  case (OpRateLimit ev)
  then show "no_panic im \<Longrightarrow> ?thesis" using rl_calls_ok by (simp add: no_panic_call del: rl_calls.simps)
next
  case (OpScrape server d ok now1 now)
  then show "no_panic im \<Longrightarrow> ?thesis"
    by (simp add: RecordScrape_def Let_def no_panic_RecordEvent no_panic_call CounterInc_def labels_fit_def)
next
  case (OpCollection server t d ok)
  then show "no_panic im \<Longrightarrow> ?thesis"
    by (simp add: RecordCollectionLatency_def RecordCollectionSuccess_def RecordCollectionFailure_def Let_def
        no_panic_call CounterInc_def labels_fit_def)
next
  case (OpSystem server g h s y now)
  then show "no_panic im \<Longrightarrow> ?thesis"
    by (simp add: UpdateSystemMetrics_def no_panic_call labels_fit_def)
next
  case (OpInit server)
  then show "no_panic im \<Longrightarrow> ?thesis"
    by (simp add: InitializeMetricsForServer_def Let_def no_panic_call zero_counter_def labels_fit_def)
next
  case (OpEvent t now1 now)
  then show "no_panic im \<Longrightarrow> ?thesis" by (simp add: no_panic_RecordEvent)
qed (simp_all add: CleanupEvents_def cleanupOldEventsUnsafe_def im_reset_def no_panic_def)

interpretation mo: guarded_machine im_step "\<lambda>_. True" no_panic
  by unfold_locales (rule no_panic_step)

text \<open>
  Whatever the pool, the breaker, the rate limiter and the collection loop report, in any order,
  every call into the monitoring vectors names a vector of the right kind with as many values as
  it has labels, and no counter decreases. (Whether the values are valid UTF-8 is not modelled.)
\<close>

theorem monitoring_never_panics:
  "no_panic (fold im_step ops (NewInternalMonitoring start))"
  by (rule mo.run_inv) (simp_all add: NewInternalMonitoring_def no_panic_def list.pred_True)

end
