(* ===== verification/Exporter.thy ===== *)
theory Exporter
  imports CollectorProperties Monitoring "HOL-Library.Multiset"
begin

section \<open>The exporter: shared counters, the collection cycle, the scrape\<close>

text \<open>
  pkg/exporter/exporter.go and the atomic helpers of helpers.go. Goroutines are explicit
  state: a schedule says which of them takes its next step. A collector runs as one step of the
  goroutine that executes it.
\<close>

subsection \<open>The shared float\<close>

text \<open>
  \<open>Add\<close> is a loop of a load and a compare-and-swap. A caller is \<open>Ready\<close> to load, has \<open>Loaded\<close> a
  value, or has \<open>Returned\<close> the new one.
\<close>

definition af_CompareAndSwap :: "float64 \<Rightarrow> float64 \<Rightarrow> float64 \<Rightarrow> bool \<times> float64" where
  "af_CompareAndSwap old new v = (if v = old then (True, new) else (False, v))"

datatype adder = Ready float64 | Loaded float64 float64 | Returned float64 float64

fun add_step :: "nat \<Rightarrow> adder list \<times> float64 \<Rightarrow> adder list \<times> float64" where
  "add_step i (ts, v) =
     (if i < length ts
      then case ts ! i of
             Ready d \<Rightarrow> (ts[i := Loaded d v], v)
           | Loaded d old \<Rightarrow>
               (case af_CompareAndSwap old (f_add old d) v of
                  (True, v) \<Rightarrow> (ts[i := Returned d v], v)
                | (False, v) \<Rightarrow> (ts[i := Ready d], v))
           | Returned d r \<Rightarrow> (ts, v)
      else (ts, v))"

text \<open>A single caller.\<close>

definition af_Add :: "float64 \<Rightarrow> float64 \<Rightarrow> float64" where
  "af_Add d v = snd (fold add_step [0, 0] ([Ready d], v))"

lemma af_Add_eq [simp]: "af_Add d v = f_add v d"
  by (simp add: af_Add_def af_CompareAndSwap_def)

fun returned_delta :: "adder \<Rightarrow> float64 list" where
  "returned_delta (Returned d r) = [d]"
| "returned_delta _ = []"

definition returned :: "adder list \<Rightarrow> float64 list" where
  "returned ts = concat (map returned_delta ts)"



lemma mset_returned_update:
  "i < length ts \<Longrightarrow> mset (returned (ts[i := t])) + mset (returned_delta (ts ! i)) = mset (returned ts) + mset (returned_delta t)"
proof -
  assume i: "i < length ts"
  have e: "returned (a @ x # b) = returned a @ returned_delta x @ returned b" for a x b by (simp add: returned_def)
  have "returned ts = returned (take i ts) @ returned_delta (ts ! i) @ returned (drop (Suc i) ts)"
    by (subst id_take_nth_drop [OF i]) (rule e)
  moreover have "returned (ts[i := t]) = returned (take i ts) @ returned_delta t @ returned (drop (Suc i) ts)"
    by (simp add: upd_conv_take_nth_drop i e)
  ultimately show ?thesis by simp
qed

definition adds_applied :: "float64 \<Rightarrow> adder list \<times> float64 \<Rightarrow> bool" where
  "adds_applied v0 s \<longleftrightarrow> (\<exists>order. mset order = mset (returned (fst s)) \<and> snd s = foldl f_add v0 order)"

lemma adds_applied_step: "adds_applied v0 s \<Longrightarrow> adds_applied v0 (add_step i s)"
proof -
  obtain ts v where s: "s = (ts, v)" by fastforce
  assume "adds_applied v0 s"
  then obtain order where o: "mset order = mset (returned ts)" "v = foldl f_add v0 order"
    by (auto simp: adds_applied_def s)
  show ?thesis
  proof (cases "i < length ts")
    case i: True
    note u = mset_returned_update [OF i]
    show ?thesis
    proof (cases "ts ! i")
      case (Ready d)
      then show ?thesis using o i u [of "Loaded d v"] by (auto simp: s adds_applied_def)
    next
      case (Loaded d old)
      show ?thesis
      proof (cases "v = old")
        case True
        have "mset (order @ [d]) = mset (returned (ts[i := Returned d (f_add old d)]))"
          using o u [of "Returned d (f_add old d)"] Loaded by simp
        moreover have "f_add old d = foldl f_add v0 (order @ [d])" using True o by simp
        ultimately show ?thesis
          using Loaded True i by (auto simp: s adds_applied_def af_CompareAndSwap_def intro!: exI [of _ "order @ [d]"])
      next
        case False
        then show ?thesis using o i Loaded u [of "Ready d"] by (auto simp: s adds_applied_def af_CompareAndSwap_def)
      qed
    next
      case (Returned d r)
      then show ?thesis using o i by (auto simp: s adds_applied_def)
    qed
  next
    case False
    then show ?thesis using o by (auto simp: s adds_applied_def)
  qed
qed

lemma adds_applied_start: "adds_applied v0 (map Ready ds, v0)"
proof -
  have "returned (map Ready ds) = []" by (induction ds) (auto simp: returned_def)
  then show ?thesis by (simp add: adds_applied_def)
qed

text \<open>
  The work left: a caller that holds a stale value has three steps ahead, and every success can make
  the other callers stale once.
\<close>

fun adder_weight :: "float64 \<Rightarrow> adder \<Rightarrow> int" where
  "adder_weight v (Ready d) = 2"
| "adder_weight v (Loaded d old) = (if old = v then 1 else 3)"
| "adder_weight v (Returned d r) = 0"

fun adder_open :: "adder \<Rightarrow> int" where
  "adder_open (Returned d r) = 0"
| "adder_open _ = 1"

definition add_potential :: "adder list \<times> float64 \<Rightarrow> int" where
  "add_potential s =
     (let (ts, v) = s
      in sum_list (map (adder_weight v) ts) + 2 * int (length ts) * sum_list (map adder_open ts))"

lemma adder_weight_change: "adder_weight v' t \<le> adder_weight v t + 2"
  by (cases t) auto

lemma sum_weight_change: "sum_list (map (adder_weight v') ts) \<le> sum_list (map (adder_weight v) ts) + 2 * int (length ts)"
proof (induction ts)
  case (Cons t ts)
  then show ?case using adder_weight_change [of v' t v] by simp
qed simp

lemma add_potential_nonneg: "0 \<le> add_potential s"
proof -
  have "0 \<le> adder_weight v t" "0 \<le> adder_open t" for v t by (cases t; simp)+
  then show ?thesis by (auto simp: add_potential_def Let_def intro!: add_nonneg_nonneg mult_nonneg_nonneg sum_list_nonneg split: prod.split)
qed

lemma add_step_potential: "add_step i s \<noteq> s \<Longrightarrow> add_potential (add_step i s) < add_potential s"
proof -
  obtain ts v where s: "s = (ts, v)" by fastforce
  assume ne: "add_step i s \<noteq> s"
  then have i: "i < length ts" by (auto simp: s split: if_splits)
  note u = sum_list_update_int [OF i]
  show ?thesis
  proof (cases "ts ! i")
    case (Ready d)
    then show ?thesis using i u [of "adder_weight v" "Loaded d v"] u [of adder_open "Loaded d v"]
      by (simp add: s add_potential_def)
  next
    case (Loaded d old)
    show ?thesis
    proof (cases "v = old")
      case True
      let ?n = "2 * int (length ts)"
      have "sum_list (map adder_open (ts[i := Returned d (f_add old d)])) = sum_list (map adder_open ts) - 1"
        using u [of adder_open "Returned d (f_add old d)"] Loaded by simp
      then have "?n * sum_list (map adder_open (ts[i := Returned d (f_add old d)])) = ?n * sum_list (map adder_open ts) - ?n"
        by (simp add: right_diff_distrib)
      moreover have "sum_list (map (adder_weight v) (ts[i := Returned d (f_add old d)])) = sum_list (map (adder_weight v) ts) - 1"
        using u [of "adder_weight v" "Returned d (f_add old d)"] Loaded True by simp
      moreover note sum_weight_change [of "f_add old d" "ts[i := Returned d (f_add old d)]" v]
      ultimately show ?thesis using Loaded True i by (simp add: s add_potential_def af_CompareAndSwap_def)
    next
      case False
      then show ?thesis using Loaded i u [of "adder_weight v" "Ready d"] u [of adder_open "Ready d"]
        by (simp add: s add_potential_def af_CompareAndSwap_def)
    qed
  next
    case (Returned d r)
    then show ?thesis using ne i by (simp add: s)
  qed
qed

interpretation ad: working_machine add_step "\<lambda>_. True" "adds_applied v0" add_potential for v0
  by unfold_locales (rule adds_applied_step add_potential_nonneg add_step_potential; assumption?)+

subsection \<open>No add is lost, and every schedule of adds ends\<close>

text \<open>C25.
  Under any interleaving of any number of concurrent \<open>Add\<close> calls no increment is lost: the value is
  the initial one with the deltas of exactly the calls that have returned, added one at a time in
  some order.
\<close>

theorem concurrent_adds_are_not_lost:
  "case fold add_step sched (map Ready ds, v0) of
     (ts, v) \<Rightarrow> \<exists>order. mset order = mset (returned ts) \<and> v = foldl f_add v0 order"
proof -
  have "adds_applied v0 (fold add_step sched (map Ready ds, v0))"
    by (rule ad.run_inv) (simp_all add: adds_applied_start list.pred_True)
  then show ?thesis
    by (cases "fold add_step sched (map Ready ds, v0)") (simp add: adds_applied_def)
qed

text \<open>C38.
  The compare-and-swap loop always ends: n concurrent calls take at most 2n(n + 1) steps together
  under any schedule, so a scrape is never held up by its counter.
\<close>

theorem concurrent_adds_terminate:
  "work_done add_step sched (map Ready ds, v0) \<le> 2 * length ds * (length ds + 1)"
proof -
  have "int (work_done add_step sched (map Ready ds, v0)) \<le> add_potential (map Ready ds, v0)"
    using ad.work_bound [of sched v0 "(map Ready ds, v0)"] by (simp add: adds_applied_start list.pred_True)
  also have "add_potential (map Ready ds, v0) = 2 * int (length ds) + 2 * int (length ds) * int (length ds)"
    by (simp add: add_potential_def comp_def sum_list_triv)
  finally have "int (work_done add_step sched (map Ready ds, v0)) \<le> int (2 * length ds * (length ds + 1))"
    by (simp add: algebra_simps)
  then show ?thesis by (simp only: of_nat_le_iff)
qed

section \<open>One collection cycle\<close>

text \<open>
  The goroutines of \<open>collectAllMetricsWithContext\<close>, one per enabled group. A goroutine waits for a
  slot of the semaphore, holds it while it looks at its context and while it runs the collector,
  and is then done. \<open>run\<close> is the effect of a group's collector and whether it panicked.
\<close>

definition MaxConcurrentCollectors :: nat where "MaxConcurrentCollectors = 4"

datatype task_outcome = Completed | Cancelled | Panicked
datatype task_state = Waiting | Holding | Running | Done task_outcome
datatype collect_error = NoConnection client_error | ContextErr | PanicErr

record 'd cycle =
  cyc_tasks :: "(string \<times> task_state) list"
  cyc_ctx_done :: bool
  collectErrors :: "collect_error list"
  cyc_result :: "collect_error option option" \<comment> \<open>\<open>Some\<close> once the function has returned\<close>
  cyc_data :: 'd

datatype cycle_event = Acquire nat | GiveUp nat | Begin nat | Skip nat | Finish nat | Expire | AllDone | TimeOut

definition slots_held :: "'d cycle \<Rightarrow> nat" where
  "slots_held c = length (filter (\<lambda>(n, t). t = Holding \<or> t = Running) (cyc_tasks c))"

definition task_at :: "'d cycle \<Rightarrow> nat \<Rightarrow> task_state \<Rightarrow> bool" where
  "task_at c i t \<longleftrightarrow> i < length (cyc_tasks c) \<and> snd (cyc_tasks c ! i) = t"

definition set_task :: "nat \<Rightarrow> task_state \<Rightarrow> 'd cycle \<Rightarrow> 'd cycle" where
  "set_task i t c = c\<lparr>cyc_tasks := (cyc_tasks c)[i := (fst (cyc_tasks c ! i), t)]\<rparr>"

definition add_error :: "collect_error \<Rightarrow> 'd cycle \<Rightarrow> 'd cycle" where
  "add_error e c = c\<lparr>collectErrors := collectErrors c @ [e]\<rparr>"

text \<open>
  A step that is not enabled changes nothing. \<open>Skip\<close> does not require the cycle's context to be
  done: the context of a task has a limit of its own.
\<close>

fun cycle_step :: "(string \<Rightarrow> 'd \<Rightarrow> bool \<times> 'd) \<Rightarrow> cycle_event \<Rightarrow> 'd cycle \<Rightarrow> 'd cycle" where
  "cycle_step run (Acquire i) c =
     (if task_at c i Waiting \<and> slots_held c < MaxConcurrentCollectors then set_task i Holding c else c)"
| "cycle_step run (GiveUp i) c =
     (if task_at c i Waiting \<and> cyc_ctx_done c then add_error ContextErr (set_task i (Done Cancelled) c) else c)"
| "cycle_step run (Begin i) c =
     (if task_at c i Holding \<and> \<not> cyc_ctx_done c then set_task i Running c else c)"
| "cycle_step run (Skip i) c =
     (if task_at c i Holding then add_error ContextErr (set_task i (Done Cancelled) c) else c)"
| "cycle_step run (Finish i) c =
     (if task_at c i Running
      then let (panicked, d) = run (fst (cyc_tasks c ! i)) (cyc_data c); c = c\<lparr>cyc_data := d\<rparr>
           in if panicked then add_error PanicErr (set_task i (Done Panicked) c)
              else set_task i (Done Completed) c
      else c)"
| "cycle_step run Expire c = c\<lparr>cyc_ctx_done := True\<rparr>"
| "cycle_step run AllDone c =
     (if cyc_result c = None \<and> list_all (\<lambda>(n, t). case t of Done _ \<Rightarrow> True | _ \<Rightarrow> False) (cyc_tasks c)
      then c\<lparr>cyc_result := Some (if collectErrors c = [] then None else Some (hd (collectErrors c)))\<rparr> else c)"
| "cycle_step run TimeOut c =
     (if cyc_result c = None \<and> cyc_ctx_done c then c\<lparr>cyc_result := Some (Some ContextErr)\<rparr> else c)"

definition start_cycle :: "string list \<Rightarrow> 'd \<Rightarrow> 'd cycle" where
  "start_cycle groups d =
     \<lparr>cyc_tasks = map (\<lambda>n. (n, Waiting)) groups, cyc_ctx_done = False, collectErrors = [],
      cyc_result = None, cyc_data = d\<rparr>"

definition cycle_run :: "(string \<Rightarrow> 'd \<Rightarrow> bool \<times> 'd) \<Rightarrow> cycle_event list \<Rightarrow> 'd cycle \<Rightarrow> 'd cycle" where
  "cycle_run run evs c = fold (cycle_step run) evs c"

subsection \<open>What every state of a cycle satisfies\<close>

lemma set_task_simps [simp]:
  "cyc_ctx_done (set_task i t c) = cyc_ctx_done c" "collectErrors (set_task i t c) = collectErrors c"
  "cyc_result (set_task i t c) = cyc_result c" "cyc_data (set_task i t c) = cyc_data c"
  "length (cyc_tasks (set_task i t c)) = length (cyc_tasks c)"
  by (simp_all add: set_task_def)

lemma add_error_simps [simp]:
  "cyc_ctx_done (add_error e c) = cyc_ctx_done c" "collectErrors (add_error e c) = collectErrors c @ [e]"
  "cyc_result (add_error e c) = cyc_result c" "cyc_data (add_error e c) = cyc_data c"
  "cyc_tasks (add_error e c) = cyc_tasks c" "slots_held (add_error e c) = slots_held c"
  by (simp_all add: add_error_def slots_held_def)

definition executed :: "'d cycle \<Rightarrow> string list" where
  "executed c = concat (map (\<lambda>(n, t). if t = Done Completed \<or> t = Done Panicked then [n] else []) (cyc_tasks c))"

definition failed :: "'d cycle \<Rightarrow> bool" where
  "failed c \<longleftrightarrow> list_ex (\<lambda>(n, t). t = Done Cancelled \<or> t = Done Panicked) (cyc_tasks c)"

lemma tasks_split:
  "task_at c i t0 \<Longrightarrow> \<exists>a n b. cyc_tasks c = a @ (n, t0) # b \<and> fst (cyc_tasks c ! i) = n \<and>
     (\<forall>t. cyc_tasks (set_task i t c) = a @ (n, t) # b)"
proof -
  assume t: "task_at c i t0"
  then have i: "i < length (cyc_tasks c)" by (simp add: task_at_def)
  obtain n where n: "cyc_tasks c ! i = (n, t0)" using t by (cases "cyc_tasks c ! i") (simp add: task_at_def)
  show ?thesis
    using id_take_nth_drop [OF i] n
    by (intro exI [of _ "take i (cyc_tasks c)"] exI [of _ n] exI [of _ "drop (Suc i) (cyc_tasks c)"])
      (simp add: set_task_def upd_conv_take_nth_drop [OF i])
qed

text \<open>
  The groups that have run, in the order they did, explain the data; an error was recorded exactly
  when a task failed; no more slots are held than there are; a returned success means every
  group has run to its end.
\<close>

definition cycle_inv :: "(string \<Rightarrow> 'd \<Rightarrow> bool \<times> 'd) \<Rightarrow> 'd \<Rightarrow> 'd cycle \<Rightarrow> bool" where
  "cycle_inv run d0 c \<longleftrightarrow>
     slots_held c \<le> MaxConcurrentCollectors \<and>
     (\<exists>order. mset order = mset (executed c) \<and> cyc_data c = fold (\<lambda>n d. snd (run n d)) order d0) \<and>
     (collectErrors c = [] \<longleftrightarrow> \<not> failed c)"

lemma cycle_inv_set:
  assumes "cycle_inv run d0 c" "task_at c i t0"
    and "t0 = Waiting \<or> t0 = Holding \<or> t0 = Running" "t = Holding \<or> t = Running"
    and "t0 = Waiting \<Longrightarrow> slots_held c < MaxConcurrentCollectors"
  shows "cycle_inv run d0 (set_task i t c)"
proof -
  obtain a n b where s: "cyc_tasks c = a @ (n, t0) # b" "cyc_tasks (set_task i t c) = a @ (n, t) # b"
    using tasks_split [OF assms(2)] by blast
  then have "executed (set_task i t c) = executed c" "failed (set_task i t c) = failed c"
    "slots_held (set_task i t c) \<le> MaxConcurrentCollectors"
    using assms by (auto simp: executed_def failed_def slots_held_def cycle_inv_def)
  then show ?thesis using assms(1) by (simp add: cycle_inv_def)
qed

lemma cycle_inv_cancel:
  assumes "cycle_inv run d0 c" "task_at c i t0" "t0 = Waiting \<or> t0 = Holding"
  shows "cycle_inv run d0 (add_error e (set_task i (Done Cancelled) c))"
proof -
  obtain a n b where s: "cyc_tasks c = a @ (n, t0) # b" "cyc_tasks (set_task i (Done Cancelled) c) = a @ (n, Done Cancelled) # b"
    using tasks_split [OF assms(2)] by blast
  then show ?thesis using assms(1,3) by (auto simp: cycle_inv_def executed_def failed_def slots_held_def)
qed

lemma cycle_inv_finish:
  assumes "cycle_inv run d0 c" "task_at c i Running"
  shows "cycle_inv run d0 (cycle_step run (Finish i) c)"
proof -
  obtain a n b where s: "cyc_tasks c = a @ (n, Running) # b" "fst (cyc_tasks c ! i) = n"
    "\<And>t. cyc_tasks (set_task i t c) = a @ (n, t) # b"
    using tasks_split [OF assms(2)] by blast
  obtain p d where r: "run n (cyc_data c) = (p, d)" by fastforce
  obtain order where o: "mset order = mset (executed c)" "cyc_data c = fold (\<lambda>n d. snd (run n d)) order d0"
    using assms(1) by (auto simp: cycle_inv_def)
  have "\<exists>order. mset order = add_mset n (mset (executed c)) \<and> d = fold (\<lambda>n d. snd (run n d)) order d0"
    using o r by (intro exI [of _ "order @ [n]"]) simp
  moreover have "cyc_tasks (set_task i t (c\<lparr>cyc_data := d\<rparr>)) = a @ (n, t) # b" for t
    using s(3) [of t] by (simp add: set_task_def)
  ultimately show ?thesis
    using assms s(1,2) r by (auto simp: cycle_inv_def executed_def failed_def slots_held_def Let_def)
qed

lemma cycle_inv_step: "cycle_inv run d0 c \<Longrightarrow> cycle_inv run d0 (cycle_step run ev c)"
proof (cases ev)
  case (Finish i)
  assume inv: "cycle_inv run d0 c"
  show ?thesis
  proof (cases "task_at c i Running")
    case True
    then show ?thesis unfolding Finish by (rule cycle_inv_finish [OF inv])
  next
    case False
    then show ?thesis using inv by (simp add: Finish)
  qed
next
  case Expire
  assume "cycle_inv run d0 c"
  then show ?thesis using Expire by (simp add: cycle_inv_def slots_held_def executed_def failed_def)
next
  case AllDone
  assume "cycle_inv run d0 c"
  then show ?thesis using AllDone by (simp add: cycle_inv_def slots_held_def executed_def failed_def)
next
  case TimeOut
  assume "cycle_inv run d0 c"
  then show ?thesis using TimeOut by (simp add: cycle_inv_def slots_held_def executed_def failed_def)
qed (auto intro: cycle_inv_set cycle_inv_cancel)

lemma executed_start: "executed (start_cycle groups d) = []"
  by (induction groups) (simp_all add: executed_def start_cycle_def)

lemma cycle_inv_start: "cycle_inv run d0 (start_cycle groups d0)"
  unfolding cycle_inv_def executed_start
  by (auto simp: start_cycle_def slots_held_def failed_def list_ex_iff)

interpretation cy: guarded_machine "cycle_step run" "\<lambda>_. True" "cycle_inv run d0" for run d0
  by unfold_locales (rule cycle_inv_step)

lemma cycle_inv_run: "cycle_inv run d0 (cycle_run run evs (start_cycle groups d0))"
  unfolding cycle_run_def by (rule cy.run_inv) (simp_all add: cycle_inv_start list.pred_True)


definition all_completed :: "'d cycle \<Rightarrow> bool" where
  "all_completed c \<longleftrightarrow> list_all (\<lambda>(n, t). t = Done Completed) (cyc_tasks c)"

lemma all_completed_task_at: "all_completed c \<Longrightarrow> t \<noteq> Done Completed \<Longrightarrow> \<not> task_at c i t"
  by (auto simp: all_completed_def task_at_def list_all_length)

lemma names_kept: "map fst (cyc_tasks (cycle_step run ev c)) = map fst (cyc_tasks c)"
  by (cases ev) (auto simp: set_task_def map_update task_at_def list_update_same_conv Let_def split: prod.split)

lemma success_step:
  assumes "cycle_inv run d0 c" "cyc_result c = Some None \<longrightarrow> all_completed c"
    and "cyc_result (cycle_step run ev c) = Some None"
  shows "all_completed (cycle_step run ev c)"
proof (cases "cyc_result c = Some None")
  case True
  then have "all_completed c" using assms(2) by blast
  then have "cyc_tasks (cycle_step run ev c) = cyc_tasks c"
    using all_completed_task_at [of c] by (cases ev) auto
  then show ?thesis using \<open>all_completed c\<close> by (simp add: all_completed_def)
next
  case False
  then have "ev = AllDone" using assms(3) by (cases ev) (auto simp: Let_def split: if_splits prod.splits)
  then have "list_all (\<lambda>(n, t). case t of Done _ \<Rightarrow> True | _ \<Rightarrow> False) (cyc_tasks c)" "collectErrors c = []"
    using assms(3) False by (auto split: if_splits)
  moreover from this(2) have "\<not> failed c" using assms(1) by (simp add: cycle_inv_def)
  ultimately have "all_completed c"
    by (fastforce simp: all_completed_def failed_def list_all_iff list_ex_iff split: task_state.splits intro: task_outcome.exhaust)
  then show ?thesis using \<open>ev = AllDone\<close> by (simp add: all_completed_def)
qed

lemma success_run:
  "cyc_result (cycle_run run evs (start_cycle groups d0)) = Some None \<Longrightarrow>
   all_completed (cycle_run run evs (start_cycle groups d0))"
proof (induction evs rule: rev_induct)
  case (snoc ev evs)
  have "cycle_inv run d0 (cycle_run run evs (start_cycle groups d0))" by (rule cycle_inv_run)
  then show ?case using snoc success_step by (fastforce simp: cycle_run_def)
qed (simp add: cycle_run_def start_cycle_def)

lemma names_run: "map fst (cyc_tasks (cycle_run run evs (start_cycle groups d))) = groups"
  by (induction evs rule: rev_induct) (simp_all add: cycle_run_def names_kept start_cycle_def comp_def)

lemma executed_all: "all_completed c \<Longrightarrow> executed c = map fst (cyc_tasks c)"
proof -
  have "list_all (\<lambda>(n, t). t = Done Completed) ts \<Longrightarrow>
      concat (map (\<lambda>(n, t). if t = Done Completed \<or> t = Done Panicked then [n] else []) ts) = map fst ts" for ts :: "(string \<times> task_state) list"
    by (induction ts) auto
  then show "all_completed c \<Longrightarrow> executed c = map fst (cyc_tasks c)" by (simp add: all_completed_def executed_def)
qed

text \<open>C9.
  Whatever the schedule, at most four collectors run at a time, each enabled group runs at most
  once, and the collected state is that of running the groups that did run one after the other in
  some order. When the function reports success, these are all enabled groups.
\<close>

theorem cycle_runs_each_group_once:
  assumes "c = cycle_run run evs (start_cycle groups d)"
  shows "slots_held c \<le> MaxConcurrentCollectors \<and>
    (\<exists>order. mset order \<subseteq># mset groups \<and> cyc_data c = fold (\<lambda>n d. snd (run n d)) order d \<and>
       (cyc_result c = Some None \<longrightarrow> mset order = mset groups))"
proof -
  have inv: "cycle_inv run d c" unfolding assms by (rule cycle_inv_run)
  then obtain order where o: "mset order = mset (executed c)" "cyc_data c = fold (\<lambda>n d. snd (run n d)) order d"
    by (auto simp: cycle_inv_def)
  have names: "map fst (cyc_tasks c) = groups" unfolding assms by (rule names_run)
  have "mset (concat (map (\<lambda>(n, t). if t = Done Completed \<or> t = Done Panicked then [n] else []) ts)) \<subseteq># mset (map fst ts)"
    for ts :: "(string \<times> task_state) list"
    by (induction ts) (auto simp: subseteq_mset_def le_SucI)
  then have "mset order \<subseteq># mset groups" unfolding o(1) names [symmetric] executed_def .
  moreover have "mset order = mset groups" if "cyc_result c = Some None"
    using that success_run executed_all names unfolding o(1) assms by metis
  ultimately show ?thesis using inv o(2) by (auto simp: cycle_inv_def)
qed


lemma cycle_runs_each_group_once_witness:
  "let c = cycle_run (\<lambda>n d. (False, d @ [n]))
       [Acquire 1, Acquire 0, Begin 1, Begin 0, Finish 1, Finish 0, AllDone] (start_cycle [''time'', ''sasl''] [])
   in cyc_result c = Some None \<and> (\<exists>order. mset order = mset [''time'', ''sasl''] \<and>
        cyc_data c = fold (\<lambda>n d. snd (False, d @ [n])) order [])"
proof -
  let ?run = "\<lambda>n d. (False, d @ [n])"
  let ?c = "cycle_run ?run [Acquire 1, Acquire 0, Begin 1, Begin 0, Finish 1, Finish 0, AllDone]
    (start_cycle [''time'', ''sasl''] [])"
  have r: "cyc_result ?c = Some None" by code_simp
  show ?thesis using cycle_runs_each_group_once [OF refl, of ?run] r by (fastforce simp: Let_def)
qed

subsection \<open>A cycle ends\<close>

fun steps_left :: "task_state \<Rightarrow> int" where
  "steps_left Waiting = 3"
| "steps_left Holding = 2"
| "steps_left Running = 1"
| "steps_left (Done r) = 0"

definition cycle_potential :: "'d cycle \<Rightarrow> int" where
  "cycle_potential c =
     sum_list (map (\<lambda>(n, t). steps_left t) (cyc_tasks c)) + (if cyc_ctx_done c then 0 else 1) +
     (if cyc_result c = None then 1 else 0)"

lemma cycle_potential_nonneg: "0 \<le> cycle_potential c"
proof -
  have "0 \<le> steps_left t" for t by (cases t) simp_all
  then have "0 \<le> sum_list (map (\<lambda>(n, t). steps_left t) (cyc_tasks c))" by (auto intro!: sum_list_nonneg)
  then show ?thesis by (simp add: cycle_potential_def)
qed

lemma cycle_potential_set:
  "task_at c i t0 \<Longrightarrow> cycle_potential (set_task i t c) = cycle_potential c - steps_left t0 + steps_left t"
proof -
  assume "task_at c i t0"
  then obtain a n b where s: "cyc_tasks c = a @ (n, t0) # b" "cyc_tasks (set_task i t c) = a @ (n, t) # b"
    using tasks_split by blast
  show ?thesis unfolding cycle_potential_def s set_task_simps by simp
qed

lemma cycle_potential_add_error: "cycle_potential (add_error e c) = cycle_potential c"
  by (simp add: cycle_potential_def)

lemma cycle_potential_finish:
  assumes "task_at c i Running"
  shows "cycle_potential (cycle_step run (Finish i) c) = cycle_potential c - 1"
proof -
  obtain p d where r: "run (fst (cyc_tasks c ! i)) (cyc_data c) = (p, d)" by fastforce
  have "task_at (c\<lparr>cyc_data := d\<rparr>) i Running" using assms by (simp add: task_at_def)
  then have "cycle_potential (set_task i (Done x) (c\<lparr>cyc_data := d\<rparr>)) = cycle_potential (c\<lparr>cyc_data := d\<rparr>) - 1" for x
    by (simp add: cycle_potential_set)
  moreover have "cycle_potential (c\<lparr>cyc_data := d\<rparr>) = cycle_potential c" by (simp add: cycle_potential_def)
  ultimately show ?thesis using assms r by (simp add: Let_def cycle_potential_add_error)
qed

lemma cycle_step_potential:
  assumes "cycle_step run ev c \<noteq> c"
  shows "cycle_potential (cycle_step run ev c) < cycle_potential c"
proof (cases ev)
  case (Finish i)
  then have t: "task_at c i Running" using assms by (auto split: if_splits)
  then show ?thesis unfolding Finish by (simp add: cycle_potential_finish del: cycle_step.simps)
next
  case Expire
  then show ?thesis using assms by (cases "cyc_ctx_done c") (simp_all add: cycle_potential_def)
qed (use assms in \<open>auto simp: cycle_potential_set cycle_potential_add_error cycle_potential_def [of "cyc_result_update _ _"]
      cycle_potential_def [of c] split: if_splits\<close>)

interpretation cw: working_machine "cycle_step run" "\<lambda>_. True" "\<lambda>_. True" cycle_potential for run
  by unfold_locales (simp_all add: cycle_potential_nonneg cycle_step_potential del: cycle_step.simps)

text \<open>A step other than the context's own is possible until the function has returned.\<close>

lemma cycle_can_move:
  assumes "cyc_result c = None"
  shows "\<exists>ev. ev \<noteq> Expire \<and> ev \<noteq> TimeOut \<and> cycle_step run ev c \<noteq> c"
proof (cases "list_all (\<lambda>(n, t). case t of Done _ \<Rightarrow> True | _ \<Rightarrow> False) (cyc_tasks c)")
  case True
  then have "cyc_result (cycle_step run AllDone c) \<noteq> cyc_result c" using assms by simp
  then have "cycle_step run AllDone c \<noteq> c" by metis
  then show ?thesis by (intro exI [of _ AllDone]) simp
next
  case False
  have changes: "t \<noteq> t0 \<Longrightarrow> task_at c i t0 \<Longrightarrow> set_task i t c \<noteq> c" for i t0 t
  proof
    assume a: "t \<noteq> t0" "task_at c i t0" and e: "set_task i t c = c"
    obtain a n b where "cyc_tasks c = a @ (n, t0) # b" "cyc_tasks (set_task i t c) = a @ (n, t) # b"
      using tasks_split [OF a(2)] by blast
    then show False using a(1) e by simp
  qed
  have errs: "add_error e x \<noteq> c" if "collectErrors x = collectErrors c" for e x
    using that by (metis add_error_simps(2) append_self_conv list.simps(3))
  show ?thesis
  proof (cases "slots_held c = 0")
    case True
    from False obtain x where x: "x \<in> set (cyc_tasks c)" "\<forall>r. snd x \<noteq> Done r"
      by (auto simp: list_all_iff split: task_state.splits)
    moreover have "\<forall>x\<in>set (cyc_tasks c). snd x \<noteq> Holding \<and> snd x \<noteq> Running"
      using True by (auto simp: slots_held_def filter_empty_conv)
    ultimately have "snd x = Waiting" by (cases "snd x") auto
    then obtain i where "task_at c i Waiting" using x(1) by (auto simp: task_at_def in_set_conv_nth)
    then have "cycle_step run (Acquire i) c \<noteq> c" using True changes [of Holding Waiting] by (simp add: MaxConcurrentCollectors_def)
    then show ?thesis by blast
  next
    case False
    then obtain x where "x \<in> set (cyc_tasks c)" "snd x = Holding \<or> snd x = Running"
      by (auto simp: slots_held_def filter_empty_conv)
    then obtain i where "task_at c i Holding \<or> task_at c i Running" by (auto simp: task_at_def in_set_conv_nth)
    then show ?thesis
    proof
      assume h: "task_at c i Holding"
      then have "cycle_step run (Skip i) c \<noteq> c" using errs by simp
      then show ?thesis by blast
    next
      assume r: "task_at c i Running"
      have "cycle_step run (Finish i) c \<noteq> c" using cycle_potential_finish [OF r, of run] by fastforce
      then show ?thesis by blast
    qed
  qed
qed

text \<open>C10.
  A cycle ends: however its goroutines are scheduled, at most three steps per group and two more
  are taken in all, and until the function has returned some goroutine can move without waiting for
  the context to expire. No schedule blocks on the semaphore.
\<close>

theorem collection_cycle_terminates:
  "work_done (cycle_step run) evs (start_cycle groups d) \<le> 3 * length groups + 2 \<and>
   (cyc_result (cycle_run run evs (start_cycle groups d)) = None \<longrightarrow>
      (\<exists>ev. ev \<noteq> Expire \<and> ev \<noteq> TimeOut \<and>
         cycle_step run ev (cycle_run run evs (start_cycle groups d)) \<noteq> cycle_run run evs (start_cycle groups d)))"
proof -
  have "int (work_done (cycle_step run) evs (start_cycle groups d)) \<le> cycle_potential (start_cycle groups d)"
    by (rule cw.work_bound) (simp_all add: list.pred_True)
  also have "cycle_potential (start_cycle groups d) = 3 * int (length groups) + 2"
    by (simp add: cycle_potential_def start_cycle_def comp_def sum_list_triv)
  finally have "work_done (cycle_step run) evs (start_cycle groups d) \<le> 3 * length groups + 2" by linarith
  then show ?thesis using cycle_can_move by blast
qed

lemma collection_cycle_terminates_witness:
  "\<exists>ev. ev \<noteq> Expire \<and> ev \<noteq> TimeOut \<and>
     cycle_step (\<lambda>n d. (False, d)) ev (cycle_run (\<lambda>n d. (False, d)) [Acquire 0] (start_cycle [''time''] ())) \<noteq>
     cycle_run (\<lambda>n d. (False, d)) [Acquire 0] (start_cycle [''time''] ())"
proof -
  have "cyc_result (cycle_run (\<lambda>n d. (False, d)) [Acquire 0] (start_cycle [''time''] ())) = None" by code_simp
  then show ?thesis
    using collection_cycle_terminates [of "\<lambda>n d. (False, d)" "[Acquire 0]" "[''time'']" "()"] by blast
qed

end
