(* ===== verification/ScrapeCycle.thy ===== *)
theory ScrapeCycle
  imports Exporter
begin

section \<open>The exporter's collection and its scrape\<close>

text \<open>
  \<open>OpenLDAPExporter\<close> of pkg/exporter/exporter.go: which collector a group runs, a collection with its
  error paths, the guard against overlapping ticks, what a scrape serves and the shutdown.
\<close>

subsection \<open>What a cycle may rely on\<close>

text \<open>The law every collector keeps: its effect preserves \<open>good\<close>. A cycle then does too.\<close>

locale collection_tasks =
  fixes run :: "string \<Rightarrow> 'd \<Rightarrow> bool \<times> 'd" and good :: "'d \<Rightarrow> bool"
  assumes run_good: "good d \<Longrightarrow> good (snd (run n d))"
begin

lemma step_good: "good (cyc_data c) \<Longrightarrow> good (cyc_data (cycle_step run ev c))"
proof (cases ev)
  case (Finish i)
  assume "good (cyc_data c)"
  then have "good (snd (run (fst (cyc_tasks c ! i)) (cyc_data c)))" by (rule run_good)
  then show ?thesis using \<open>good (cyc_data c)\<close>
    by (cases "run (fst (cyc_tasks c ! i)) (cyc_data c)") (simp add: Finish Let_def)
qed auto

end

sublocale collection_tasks \<subseteq> steps: guarded_machine "cycle_step run" "\<lambda>_. True" "\<lambda>c. good (cyc_data c)"
  by unfold_locales (rule step_good)

context collection_tasks
begin

lemma cycle_good: "good d \<Longrightarrow> good (cyc_data (cycle_run run evs (start_cycle groups d)))"
  unfolding cycle_run_def by (rule steps.run_inv) (simp_all add: start_cycle_def list.pred_True)

end

subsection \<open>The collectors of the groups\<close>

definition collectionTasks :: "string list" where
  "collectionTasks =
     [''connections'', ''statistics'', ''operations'', ''threads'', ''time'', ''waiters'', ''overlays'', ''tls'',
      ''backends'', ''listeners'', ''health'', ''database'', ''server'', ''log'', ''sasl'', ''replication'', ''ppolicy'',
      ''accesslog'']"

definition run_task :: "'s Client \<Rightarrow> Config \<Rightarrow> string \<Rightarrow> string \<Rightarrow> 's ExpState \<Rightarrow> bool \<times> 's ExpState" where
  "run_task cl cfg server name st =
     (if name = ''replication'' then collectReplicationMetrics cl cfg server st
      else (False,
        if name = ''connections'' then collectConnectionsMetrics cl cfg server st
        else if name = ''statistics'' then collectStatisticsMetrics cl cfg server st
        else if name = ''operations'' then collectOperationsMetrics cl cfg server st
        else if name = ''threads'' then collectThreadsMetrics cl cfg server st
        else if name = ''time'' then collectTimeMetrics cl cfg server st
        else if name = ''waiters'' then collectWaitersMetrics cl cfg server st
        else if name = ''overlays'' then collectOverlaysMetrics cl cfg server st
        else if name = ''tls'' then collectTLSMetrics cl cfg server st
        else if name = ''backends'' then collectBackendsMetrics cl cfg server st
        else if name = ''listeners'' then collectListenersMetrics cl cfg server st
        else if name = ''health'' then collectHealthMetrics cl cfg server st
        else if name = ''database'' then collectDatabaseMetrics cl cfg server st
        else if name = ''server'' then collectServerInfoMetrics cl cfg server st
        else if name = ''log'' then collectLogMetrics cl cfg server st
        else if name = ''sasl'' then collectSASLMetrics cl cfg server st
        else if name = ''ppolicy'' then collectPpolicyMetrics cl cfg server st
        else if name = ''accesslog'' then collectAccesslogMetrics cl cfg server st
        else st))"

lemma run_task_fits:
  assumes "names_operations cl" "fits st"
  shows "fits (snd (run_task cl cfg server name st))"
  unfolding run_task_def
  by (simp add: assms collectReplicationMetrics_fits collectConnectionsMetrics_fits collectStatisticsMetrics_fits
    collectOperationsMetrics_fits collectThreadsMetrics_fits collectTimeMetrics_fits collectWaitersMetrics_fits
    collectOverlaysMetrics_fits collectTLSMetrics_fits collectBackendsMetrics_fits collectListenersMetrics_fits
    collectHealthMetrics_fits collectDatabaseMetrics_fits collectServerInfoMetrics_fits collectLogMetrics_fits
    collectSASLMetrics_fits collectPpolicyMetrics_fits collectAccesslogMetrics_fits)

interpretation tk: collection_tasks "run_task cl cfg server" "\<lambda>st. names_operations cl \<longrightarrow> fits st" for cl cfg server
  by unfold_locales (simp add: run_task_fits)

subsection \<open>The exporter\<close>

record 's Exporter =
  exp_config :: Config
  exp_state :: "'s ExpState"
  exp_monitoring :: InternalMonitoring
  collecting :: bool
  stopped :: bool
  totalScrapes :: float64
  totalErrors :: float64
  lastScrapeTime :: float64

definition up_gauge :: "Config \<Rightarrow> int \<Rightarrow> metric vec_call" where
  "up_gauge cfg n = GaugeSet Up (WithLabelValues [ServerName cfg]) (f_of_int n)"

definition NewOpenLDAPExporter :: "Config \<Rightarrow> time \<Rightarrow> 's \<Rightarrow> 's Exporter" where
  "NewOpenLDAPExporter cfg now s =
     \<lparr>exp_config = cfg,
      exp_state =
        \<lparr>counterValues = [], accesslogCursor = [],
         accesslogBindTracker = newAccesslogSeriesTracker AccesslogBindTotal MaxAccesslogSeriesPerVec,
         accesslogWriteTracker = newAccesslogSeriesTracker AccesslogWriteTotal MaxAccesslogSeriesPerVec,
         accesslogLockTracker = newAccesslogSeriesTracker AccesslogLockEventsTotal MaxAccesslogSeriesPerVec,
         calls = [up_gauge cfg 1], ext = s\<rparr>,
      exp_monitoring = InitializeMetricsForServer (ServerName cfg) (NewInternalMonitoring now),
      collecting = False, stopped = False,
      totalScrapes = f_of_int 0, totalErrors = f_of_int 0, lastScrapeTime = f_of_int 0\<rparr>"

text \<open>
  A collection under a schedule of its goroutines. Its result is \<open>None\<close> as long as the schedule has
  not brought it to return; \<open>Some None\<close> is success.
\<close>

definition collectAllMetricsWithContext ::
  "'s Client \<Rightarrow> Config \<Rightarrow> cycle_event list \<Rightarrow> 's ExpState \<Rightarrow> collect_error option option \<times> 's ExpState" where
  "collectAllMetricsWithContext cl cfg evs st =
     (case ensureConnection cl st of
        (Some err, st) \<Rightarrow> (Some (Some (NoConnection err)), st)
      | (None, st) \<Rightarrow>
          let c = cycle_run (run_task cl cfg (ServerName cfg)) evs
                    (start_cycle (filter (ShouldCollectMetric cfg) collectionTasks) st)
          in (cyc_result c, cyc_data c))"

definition runCollection :: "'s Client \<Rightarrow> cycle_event list \<Rightarrow> 's Exporter \<Rightarrow> 's Exporter option" where
  "runCollection cl evs e =
     (let cfg = exp_config e;
          (start, st) = on_ext (cl_now cl) (exp_state e)
      in case collectAllMetricsWithContext cl cfg evs st of
           (None, st) \<Rightarrow> None
         | (Some err, st) \<Rightarrow>
             let e = (if err = None
                      then e\<lparr>exp_state := emit_calls [up_gauge cfg 1] st\<rparr>
                      else e\<lparr>exp_state := emit_calls [up_gauge cfg 0,
                                 CounterInc ScrapeErrors (WithLabelValues [ServerName cfg])] st,
                             totalErrors := af_Add (f_of_int 1) (totalErrors e)\<rparr>);
                 (t, st) = on_ext (cl_now cl) (exp_state e);
                 (now1, st) = on_ext (cl_now cl) st;
                 (now, st) = on_ext (cl_now cl) st
             in Some (e\<lparr>exp_state := st,
                  exp_monitoring := RecordScrape (ServerName cfg) (time_Sub t start) (err = None) now1 now (exp_monitoring e)\<rparr>))"

text \<open>A tick is skipped while a cycle runs; the guard is released when the cycle returns.\<close>

definition collectOnce :: "'s Client \<Rightarrow> cycle_event list \<Rightarrow> 's Exporter \<Rightarrow> 's Exporter option" where
  "collectOnce cl evs e =
     (if collecting e then Some e
      else case runCollection cl evs (e\<lparr>collecting := True\<rparr>) of
             None \<Rightarrow> None
           | Some e \<Rightarrow> Some (e\<lparr>collecting := False\<rparr>))"

definition CollectNow :: "'s Client \<Rightarrow> cycle_event list \<Rightarrow> 's Exporter \<Rightarrow> 's Exporter option" where
  "CollectNow cl evs e = runCollection cl evs e"

text \<open>A scrape reads the vectors; it makes no call to the client.\<close>

definition Exporter_Collect ::
  "time \<Rightarrow> 's Exporter \<Rightarrow> (metric \<times> ((string \<times> string) set \<Rightarrow> float64 option)) list \<times> 's Exporter" where
  "Exporter_Collect now e =
     (map (\<lambda>m. (m, published NewOpenLDAPMetrics (calls (exp_state e)) m)) Collectors,
      e\<lparr>totalScrapes := af_Add (f_of_int 1) (totalScrapes e), lastScrapeTime := f_of_int (Unix now)\<rparr>)"

text \<open>Closing happens once; \<open>close_client\<close> is what closing the client does.\<close>

definition Exporter_Close :: "('s \<Rightarrow> 's) \<Rightarrow> 's Exporter \<Rightarrow> 's Exporter" where
  "Exporter_Close close_client e =
     (if stopped e then e
      else let st = exp_state e; st = st\<lparr>ext := close_client (ext st)\<rparr>
           in e\<lparr>stopped := True, exp_state := emit_calls [up_gauge (exp_config e) 0] st\<rparr>)"

definition GetAtomicCounterStats :: "'s Exporter \<Rightarrow> (string \<times> float64) list" where
  "GetAtomicCounterStats e =
     [(''total_scrapes'', totalScrapes e), (''total_errors'', totalErrors e), (''last_scrape_time'', lastScrapeTime e)] @
     map (\<lambda>(server, m). (''counter_entries_'' @ server, f_of_int (int (length m)))) (counterValues (exp_state e)) @
     [(''counter_entries_total'', f_of_int (int (counter_entries_total (counterValues (exp_state e)))))]"

text \<open>One round of the sweeping goroutine.\<close>

definition sweepAccesslogTrackers :: "'s Client \<Rightarrow> 's Exporter \<Rightarrow> 's Exporter" where
  "sweepAccesslogTrackers cl e =
     (let st = exp_state e;
          (now, st) = on_ext (cl_now cl) st;
          (_, cs, t) = Sweep now AccesslogSeriesTTL (accesslogBindTracker st);
          st = emit_calls cs (st\<lparr>accesslogBindTracker := t\<rparr>);
          (now, st) = on_ext (cl_now cl) st;
          (_, cs, t) = Sweep now AccesslogSeriesTTL (accesslogWriteTracker st);
          st = emit_calls cs (st\<lparr>accesslogWriteTracker := t\<rparr>);
          (now, st) = on_ext (cl_now cl) st;
          (_, cs, t) = Sweep now AccesslogSeriesTTL (accesslogLockTracker st);
          st = emit_calls cs (st\<lparr>accesslogLockTracker := t\<rparr>)
      in e\<lparr>exp_state := st\<rparr>)"

definition cleanupOldCounters :: "'s Client \<Rightarrow> 's Exporter \<Rightarrow> 's Exporter" where
  "cleanupOldCounters cl e =
     (let (now, st) = on_ext (cl_now cl) (exp_state e)
      in e\<lparr>exp_state := st\<lparr>counterValues := cleanupOldCountersSync now (counterValues st)\<rparr>\<rparr>)"


subsection \<open>Any history of the exporter is well typed\<close>

datatype exp_op =
  OTick "cycle_event list" | ONow "cycle_event list" | OScrape time | OSweep | OCleanup | OStop

fun exp_step :: "'s Client \<Rightarrow> ('s \<Rightarrow> 's) \<Rightarrow> exp_op \<Rightarrow> 's Exporter \<Rightarrow> 's Exporter option" where
  "exp_step cl fin (OTick evs) e = collectOnce cl evs e"
| "exp_step cl fin (ONow evs) e = CollectNow cl evs e"
| "exp_step cl fin (OScrape now) e = Some (snd (Exporter_Collect now e))"
| "exp_step cl fin OSweep e = Some (sweepAccesslogTrackers cl e)"
| "exp_step cl fin OCleanup e = Some (cleanupOldCounters cl e)"
| "exp_step cl fin OStop e = Some (Exporter_Close fin e)"

fun exp_history :: "'s Client \<Rightarrow> ('s \<Rightarrow> 's) \<Rightarrow> exp_op list \<Rightarrow> 's Exporter \<Rightarrow> 's Exporter option" where
  "exp_history cl fin [] e = Some e"
| "exp_history cl fin (op # ops) e = (case exp_step cl fin op e of None \<Rightarrow> None | Some e \<Rightarrow> exp_history cl fin ops e)"

definition exp_ok :: "'s Exporter \<Rightarrow> bool" where
  "exp_ok e \<longleftrightarrow> fits (exp_state e) \<and> no_panic (exp_monitoring e)"

lemma up_gauge_ok [simp]: "call_ok NewOpenLDAPMetrics (up_gauge cfg n)"
  by (simp add: up_gauge_def labels_fit_def)

lemma scrape_error_ok [simp]: "call_ok NewOpenLDAPMetrics (CounterInc ScrapeErrors (WithLabelValues [server]))"
  by (simp add: CounterInc_def labels_fit_def)

lemma RecordScrape_ok: "no_panic im \<Longrightarrow> no_panic (RecordScrape server d ok now1 now im)"
  using no_panic_step [of im "OpScrape server d ok now1 now"] by simp

lemma New_ok: "exp_ok (NewOpenLDAPExporter cfg now s)"
proof -
  have "no_panic (NewInternalMonitoring now)" by (simp add: no_panic_def NewInternalMonitoring_def)
  then have "no_panic (InitializeMetricsForServer (ServerName cfg) (NewInternalMonitoring now))"
    using no_panic_step [of _ "OpInit (ServerName cfg)"] by simp
  then show ?thesis
    by (simp add: exp_ok_def NewOpenLDAPExporter_def fits_def newAccesslogSeriesTracker_def)
qed

lemma collectAll_fits:
  assumes "names_operations cl" "fits st" "collectAllMetricsWithContext cl cfg evs st = (r, st')"
  shows "fits st'"
proof -
  obtain err st1 where c: "ensureConnection cl st = (err, st1)" by fastforce
  then have "fits st1" using assms(2)
    by (auto simp: ensureConnection_def fits_on_ext split: prod.splits sum.splits)
  then have "fits (cyc_data (cycle_run (run_task cl cfg (ServerName cfg)) evs (start_cycle gs st1)))" for gs
    using tk.cycle_good [of cl st1 cfg "ServerName cfg" evs gs] assms(1) by simp
  then show ?thesis using assms(3) c \<open>fits st1\<close>
    by (auto simp: collectAllMetricsWithContext_def Let_def split: option.splits)
qed

lemma runCollection_ok:
  assumes "names_operations cl" "exp_ok e" "runCollection cl evs e = Some e'"
  shows "exp_ok e'"
proof -
  obtain start st where o: "on_ext (cl_now cl) (exp_state e) = (start, st)" by fastforce
  obtain r st1 where c: "collectAllMetricsWithContext cl (exp_config e) evs st = (r, st1)" by fastforce
  have "fits st1" using collectAll_fits [OF assms(1) _ c] fits_on_ext [OF o] assms(2) by (simp add: exp_ok_def)
  then show ?thesis
    using assms(2,3) o c
    by (auto simp: runCollection_def exp_ok_def Let_def fits_emit fits_on_ext RecordScrape_ok
        split: option.splits prod.splits)
qed

lemma Sweep_fits:
  assumes "Sweep now ttl t = (n, cs, t')"
  shows "tracked_vec t' = tracked_vec t" "list_all (call_ok NewOpenLDAPMetrics) cs"
proof -
  have "map_of NewOpenLDAPMetrics (tracked_vec t) \<noteq> None"
    using all_described [of "tracked_vec t"] by (simp add: map_of_eq_None_iff)
  then show "tracked_vec t' = tracked_vec t" "list_all (call_ok NewOpenLDAPMetrics) cs"
    using assms by (auto simp: Sweep_def Sweep_locked_def Sweep_calls_def Let_def list_all_iff)
qed

lemma sweep_ok: "exp_ok e \<Longrightarrow> exp_ok (sweepAccesslogTrackers cl e)"
  by (auto simp: sweepAccesslogTrackers_def exp_ok_def Let_def fits_emit Sweep_fits on_ext_def emit_calls_def fits_def
      split: prod.splits)

lemma exp_step_ok:
  assumes "names_operations cl" "exp_ok e" "exp_step cl fin op e = Some e'"
  shows "exp_ok e'"
proof (cases op)
  case (OTick evs)
  have "exp_ok (e\<lparr>collecting := True\<rparr>)" using assms(2) by (simp add: exp_ok_def)
  note runCollection_ok [OF assms(1) this, of evs]
  then show ?thesis using assms(2,3) OTick by (fastforce simp: collectOnce_def exp_ok_def split: if_splits option.splits)
next
  case (ONow evs)
  then show ?thesis using runCollection_ok [OF assms(1,2)] assms(3) by (simp add: CollectNow_def)
next
  case (OScrape now)
  then show ?thesis using assms(2,3) by (auto simp: Exporter_Collect_def exp_ok_def)
next
  case OSweep
  then show ?thesis using sweep_ok [OF assms(2)] assms(3) by auto
next
  case OCleanup
  then show ?thesis using assms(2,3) by (auto simp: cleanupOldCounters_def exp_ok_def Let_def fits_on_ext split: prod.splits)
next
  case OStop
  then show ?thesis using assms(2,3) by (auto simp: Exporter_Close_def exp_ok_def Let_def fits_emit split: if_splits)
qed

lemma exp_history_eq: "exp_history cl fin ops e = history (exp_step cl fin) ops e"
  by (induction ops arbitrary: e) (simp_all only: exp_history.simps history_Nil history_Cons cong: option.case_cong)

interpretation ex: fallible_machine "exp_step cl fin" "\<lambda>_. names_operations cl" exp_ok for cl fin
  by unfold_locales (rule exp_step_ok)

text \<open>C8.
  However the exporter is used - ticks and forced collections under any schedule of their
  goroutines, with any answers and failures of the server, scrapes, sweeps, clean-ups, the
  shutdown - every call it makes on a metric vector names an existing vector of the right kind with
  exactly its labels, and no counter is ever asked to decrease. The only assumption is that the
  server's operation entries have a name: without one the label is missing.
\<close>

theorem exporter_calls_are_well_typed:
  assumes "names_operations cl"
    and "exp_history cl fin ops (NewOpenLDAPExporter cfg now s) = Some e"
  shows "list_all (call_ok NewOpenLDAPMetrics) (calls (exp_state e)) \<and>
     list_all (call_ok im_vecs) (im_calls (exp_monitoring e))"
proof -
  have "list_all (\<lambda>_. names_operations cl) ops" using assms(1) by (simp add: list_all_iff)
  then have "exp_ok e" by (rule ex.history_inv [OF assms(2) [unfolded exp_history_eq] _ New_ok])
  then show ?thesis by (simp add: exp_ok_def fits_def no_panic_def)
qed


text \<open>A server without entries; one cycle runs the statistics collector.\<close>

definition one_group :: Config where
  "one_group = plain_config\<lparr>MetricsInclude := [''statistics''], ServerName := ''srv''\<rparr>"

lemma exporter_calls_are_well_typed_witness:
  "\<exists>e. exp_history quiet_client id [OScrape 5, OTick [Acquire 0, Begin 0, Finish 0, AllDone], OStop]
      (NewOpenLDAPExporter one_group 0 7) = Some e \<and>
    list_all (call_ok NewOpenLDAPMetrics) (calls (exp_state e)) \<and> list_all (call_ok im_vecs) (im_calls (exp_monitoring e))"
proof -
  have n: "names_operations quiet_client" by (simp add: names_operations_def quiet_client_def)
  have g: "filter (ShouldCollectMetric one_group) collectionTasks = [''statistics'']" by code_simp
  have c: "cyc_result (cycle_run run [Acquire 0, Begin 0, Finish 0, AllDone] (start_cycle [''statistics''] d)) \<noteq> None"
    for run and d :: "nat ExpState"
    by (simp add: cycle_run_def start_cycle_def task_at_def slots_held_def MaxConcurrentCollectors_def set_task_def
        add_error_def Let_def split: prod.split)
  have "fst (ensureConnection quiet_client st) = None" for st :: "nat ExpState"
    by (simp add: ensureConnection_def on_ext_def quiet_client_def)
  then have "fst (collectAllMetricsWithContext quiet_client one_group [Acquire 0, Begin 0, Finish 0, AllDone] st) \<noteq> None"
    for st :: "nat ExpState"
    using c by (simp add: collectAllMetricsWithContext_def g Let_def split: prod.split option.split)
  note all = this
  have "runCollection quiet_client [Acquire 0, Begin 0, Finish 0, AllDone] e \<noteq> None"
    if "exp_config e = one_group" for e :: "nat Exporter"
  proof -
    obtain a st where o: "on_ext (cl_now quiet_client) (exp_state e) = (a, st)" by fastforce
    obtain err st' where "collectAllMetricsWithContext quiet_client one_group [Acquire 0, Begin 0, Finish 0, AllDone] st =
        (Some err, st')"
      using all [of st] by (cases "collectAllMetricsWithContext quiet_client one_group [Acquire 0, Begin 0, Finish 0, AllDone] st") auto
    then show ?thesis using that o by (simp add: runCollection_def Let_def split: prod.split)
  qed
  note run = this
  have "collectOnce quiet_client [Acquire 0, Begin 0, Finish 0, AllDone] e \<noteq> None"
    if "exp_config e = one_group" for e :: "nat Exporter"
    using run [of "e\<lparr>collecting := True\<rparr>"] that by (auto simp: collectOnce_def)
  then obtain e where "exp_history quiet_client id [OScrape 5, OTick [Acquire 0, Begin 0, Finish 0, AllDone], OStop]
      (NewOpenLDAPExporter one_group 0 7) = Some e"
    by (fastforce simp: Exporter_Collect_def NewOpenLDAPExporter_def split: option.split)
  then show ?thesis using exporter_calls_are_well_typed [OF n] by blast
qed

subsection \<open>A failed connection\<close>

text \<open>C40.
  When the connection check fails, the collection sets \<open>openldap_up\<close> to 0 and counts an error, and
  that is all: no collector runs, so every other published value stays as it was -
  \<open>openldap_health_status\<close> included, which keeps saying healthy while the server is down.
\<close>

theorem failed_connection_leaves_health_status:
  assumes "\<And>s. \<exists>err s'. cl_Search cl ''cn=Monitor'' ''(objectClass=*)'' [''cn''] s = (Inl err, s')"
  shows "\<exists>e'. runCollection cl evs e = Some e' \<and>
     published NewOpenLDAPMetrics (calls (exp_state e')) Up {(''server'', ServerName (exp_config e))} = Some (f_of_int 0) \<and>
     totalErrors e' = f_add (totalErrors e) (f_of_int 1) \<and>
     published NewOpenLDAPMetrics (calls (exp_state e')) HealthStatus =
       published NewOpenLDAPMetrics (calls (exp_state e)) HealthStatus"
proof -
  let ?l = "[ServerName (exp_config e)]"
  obtain start st where o: "on_ext (cl_now cl) (exp_state e) = (start, st)" by fastforce
  obtain err s' where s: "cl_Search cl ''cn=Monitor'' ''(objectClass=*)'' [''cn''] (ext st) = (Inl err, s')"
    using assms by blast
  have c: "collectAllMetricsWithContext cl (exp_config e) evs st = (Some (Some (NoConnection err)), st\<lparr>ext := s'\<rparr>)"
    by (simp add: collectAllMetricsWithContext_def ensureConnection_def on_ext_def s)
  have k: "calls st = calls (exp_state e)" using o by (auto simp: on_ext_def Let_def split: prod.splits)
  have on: "calls (snd (on_ext f x)) = calls x" for f :: "'a \<Rightarrow> time \<times> 'a" and x
    by (simp add: on_ext_def Let_def split: prod.split)
  have "\<exists>e'. runCollection cl evs e = Some e' \<and> totalErrors e' = f_add (totalErrors e) (f_of_int 1) \<and>
      calls (exp_state e') = calls (exp_state e) @ [up_gauge (exp_config e) 0, CounterInc ScrapeErrors (WithLabelValues ?l)]"
    using o c k by (auto simp: runCollection_def Let_def split_beta on emit_calls_def)
  then obtain e' where e': "runCollection cl evs e = Some e'" "totalErrors e' = f_add (totalErrors e) (f_of_int 1)"
    "calls (exp_state e') = (calls (exp_state e) @ [up_gauge (exp_config e) 0]) @ [CounterInc ScrapeErrors (WithLabelValues ?l)]"
    by auto
  then show ?thesis
    by (intro exI [of _ e']) (auto simp only: e'(3) published_snoc, auto simp: apply_call_def up_gauge_def CounterInc_def series_of_def)
qed

lemma failed_connection_leaves_health_status_witness:
  "\<exists>e'. runCollection (quiet_client\<lparr>cl_Search := (\<lambda>b f a s. (Inl (BreakerOpen), s))\<rparr>) []
        (NewOpenLDAPExporter plain_config 0 7) = Some e' \<and>
     published NewOpenLDAPMetrics (calls (exp_state e')) HealthStatus =
       published NewOpenLDAPMetrics (calls (exp_state (NewOpenLDAPExporter plain_config 0 (7 :: nat)))) HealthStatus"
  using failed_connection_leaves_health_status
    [of "quiet_client\<lparr>cl_Search := (\<lambda>b f a s. (Inl (BreakerOpen), s))\<rparr>" "[]"
        "NewOpenLDAPExporter plain_config 0 7"] by auto

end
