(* ===== verification/Retry.thy ===== *)
theory Retry
  imports GoStrings
begin

section \<open>Retrying an operation\<close>

text \<open>
  The retry helpers of pkg/exporter/helpers.go: which errors are worth a retry, the delay before the next
  attempt, and the loop. An error is its chain of wrapped errors, outermost first, each known by
  what \<open>errors.Is\<close> and \<open>errors.As\<close> can tell about it. The random source, the context and the timer are
  functions on the state \<open>'s\<close> of the world the operation works on.
\<close>

subsection \<open>Which errors are retried\<close>

datatype err_kind =
    CtxDeadlineExceeded
  | CtxCanceled
  | NetErrClosed
  | IoEOF
  | IoUnexpectedEOF
  | Errno string
  | OpError bool \<comment> \<open>a \<open>*net.OpError\<close> and whether it is a timeout\<close>
  | OtherNetError bool \<comment> \<open>another \<open>net.Error\<close>\<close>
  | LdapError int
  | OtherError

type_synonym go_error = "err_kind list"

text \<open>What \<open>Timeout()\<close> says where the error is a \<open>net.Error\<close>.\<close>

fun net_timeout :: "err_kind \<Rightarrow> bool option" where
  "net_timeout CtxDeadlineExceeded = Some True"
| "net_timeout (Errno e) = Some (e \<in> {''EAGAIN'', ''EWOULDBLOCK'', ''ETIMEDOUT''})"
| "net_timeout (OpError t) = Some t"
| "net_timeout (OtherNetError t) = Some t"
| "net_timeout _ = None"

fun ldap_code :: "err_kind \<Rightarrow> int option" where
  "ldap_code (LdapError c) = Some c"
| "ldap_code _ = None"

text \<open>\<open>errors.As\<close> stops at the first error of the chain that fits.\<close>

fun errors_As :: "(err_kind \<Rightarrow> 'a option) \<Rightarrow> go_error \<Rightarrow> 'a option" where
  "errors_As f [] = None"
| "errors_As f (k # ks) = (case f k of Some x \<Rightarrow> Some x | None \<Rightarrow> errors_As f ks)"

definition isRetryableError :: "go_error option \<Rightarrow> bool" where
  "isRetryableError err =
     (case err of
        None \<Rightarrow> False
      | Some ks \<Rightarrow>
          if CtxDeadlineExceeded \<in> set ks \<or> CtxCanceled \<in> set ks then True
          else if NetErrClosed \<in> set ks \<or> IoEOF \<in> set ks \<or> IoUnexpectedEOF \<in> set ks \<or>
            list_ex (\<lambda>e. Errno e \<in> set ks)
              [''ECONNREFUSED'', ''ECONNRESET'', ''EPIPE'', ''ETIMEDOUT'', ''EHOSTUNREACH'', ''ENETUNREACH''] then True
          else if errors_As net_timeout ks = Some True then True
          else if OpError True \<in> set ks \<or> OpError False \<in> set ks then True
          else case errors_As ldap_code ks of
                 None \<Rightarrow> False
               | Some c \<Rightarrow> c \<in> {3, 51, 52, 200})"

subsection \<open>The delay\<close>

record RetryConfig =
  MaxAttempts :: int
  InitialDelay :: duration
  MaxDelay :: duration
  BackoffFactor :: float64
  JitterFactor :: float64

definition DefaultRetryConfig :: RetryConfig where
  "DefaultRetryConfig =
     \<lparr>MaxAttempts = 3, InitialDelay = 100 * millisecond, MaxDelay = 2 * second,
      BackoffFactor = f_of_int 2, JitterFactor = round64 (1 / 10)\<rparr>"

text \<open>The conversion of a finite \<open>float64\<close> in range cuts the fraction off; other values do not occur.\<close>

definition duration_of_float :: "float64 \<Rightarrow> duration option" where
  "duration_of_float v =
     (case v of
        Fin x \<Rightarrow> let n = (if 0 \<le> x then \<lfloor>x\<rfloor> else \<lceil>x\<rceil>)
                in if min_duration \<le> n \<and> n \<le> max_duration then Some n else None
      | _ \<Rightarrow> None)"

fun backoff :: "float64 \<Rightarrow> nat \<Rightarrow> float64 \<Rightarrow> float64" where
  "backoff factor 0 delay = delay"
| "backoff factor (Suc n) delay = backoff factor n (f_mul delay factor)"

text \<open>\<open>rnd\<close> is the result of \<open>rand.Int\<close>, \<open>None\<close> when the random source fails.\<close>

definition calculateDelay :: "RetryConfig \<Rightarrow> int \<Rightarrow> int option \<Rightarrow> duration option" where
  "calculateDelay rc attempt rnd =
     (if attempt \<le> 0 then Some (InitialDelay rc)
      else let delay = backoff (BackoffFactor rc) (nat attempt) (f_of_int (InitialDelay rc));
               delay = (if f_lt (f_of_int (MaxDelay rc)) delay then f_of_int (MaxDelay rc) else delay)
           in case rnd of
                None \<Rightarrow> duration_of_float delay
              | Some k \<Rightarrow>
                  let random = f_div (f_of_int k) (f_of_int 1000000);
                      jitter = f_mul (f_mul (f_mul (f_sub random (round64 (1 / 2))) (f_of_int 2)) (JitterFactor rc)) delay
                  in case duration_of_float (f_add delay jitter) of
                       None \<Rightarrow> None
                     | Some finalDelay \<Rightarrow> Some (if finalDelay < InitialDelay rc then InitialDelay rc else finalDelay))"

subsection \<open>The loop\<close>

record 's retry_env =
  ctx_Err :: "'s \<Rightarrow> go_error option \<times> 's"
  rand_Int :: "'s \<Rightarrow> int option \<times> 's"
  wait_for :: "duration \<Rightarrow> 's \<Rightarrow> bool \<times> 's" \<comment> \<open>false: the context was done first\<close>

text \<open>\<open>left\<close> is the number of attempts left, the current one included.\<close>

fun retry_loop ::
  "'s retry_env \<Rightarrow> ('s \<Rightarrow> go_error option \<times> 's) \<Rightarrow> RetryConfig \<Rightarrow> nat \<Rightarrow> int \<Rightarrow> go_error option \<Rightarrow> 's
     \<Rightarrow> go_error option \<times> 's" where
  "retry_loop env fn rc 0 attempt lastErr s = (lastErr, s)"
| "retry_loop env fn rc (Suc left) attempt lastErr s =
     (case ctx_Err env s of
        (Some e, s) \<Rightarrow> (Some e, s)
      | (None, s) \<Rightarrow>
     (case fn s of
        (None, s) \<Rightarrow> (None, s)
      | (Some err, s) \<Rightarrow>
          if \<not> isRetryableError (Some err) then (Some err, s)
          else if attempt = MaxAttempts rc - 1 then (Some err, s)
          else let (rnd, s) = rand_Int env s
               in case wait_for env (the (calculateDelay rc attempt rnd)) s of
                    (True, s) \<Rightarrow> retry_loop env fn rc left (attempt + 1) (Some err) s
                  | (False, s) \<Rightarrow> ctx_Err env s))"

definition retryOperation ::
  "'s retry_env \<Rightarrow> ('s \<Rightarrow> go_error option \<times> 's) \<Rightarrow> 's \<Rightarrow> go_error option \<times> 's" where
  "retryOperation env fn s =
     (let rc = DefaultRetryConfig in retry_loop env fn rc (nat (MaxAttempts rc)) 0 None s)"

subsection \<open>Bounds of the delay\<close>

lemma duration_of_float_between:
  assumes "of_int lo \<le> x" "x \<le> of_int hi" "0 \<le> lo" "hi \<le> max_duration"
  shows "\<exists>n. duration_of_float (Fin x) = Some n \<and> lo \<le> n \<and> n \<le> hi"
proof -
  have "lo \<le> \<lfloor>x\<rfloor>" "\<lfloor>x\<rfloor> \<le> hi" using assms(1,2) by (simp_all add: le_floor_iff floor_le_iff)
  moreover have "0 \<le> x" using assms(1,3) by (meson of_int_0_le_iff order_trans)
  ultimately show ?thesis using assms(3,4) by (simp add: duration_of_float_def min_duration_def)
qed

lemma one_tenth: "round64 (1 / 10) = Fin (3602879701896397 / 36028797018963968)"
  by code_simp

lemma tenth_rounded: "round64 (3602879701896397 / 36028797018963968) = Fin (3602879701896397 / 36028797018963968)"
  by code_simp

lemma tenth_of_delay: "round64 (3602879701896397 / 36028797018963968 * 200000000) = Fin 20000000"
  by code_simp

lemma one_half: "round64 (1 / 2) = Fin (1 / 2)"
  by code_simp

lemma small_integers: "round64 1 = Fin 1" "round64 180000000 = Fin 180000000" "round64 220000000 = Fin 220000000"
  using round64_int [of 1] round64_int [of 180000000] round64_int [of 220000000] by (simp_all add: exact_int_def)

lemmas rounded_constants = small_integers one_half tenth_rounded tenth_of_delay

text \<open>The first delay is the initial one; the second is twice that, give or take a tenth.\<close>

lemma second_delay_bounds:
  assumes "case rnd of None \<Rightarrow> True | Some k \<Rightarrow> 0 \<le> k \<and> k < 1000000"
  shows "\<exists>d. calculateDelay DefaultRetryConfig 1 rnd = Some d \<and> 180 * millisecond \<le> d \<and> d \<le> 220 * millisecond"
proof -
  define delay where "delay = (let delay = backoff (BackoffFactor DefaultRetryConfig) (nat 1) (f_of_int (InitialDelay DefaultRetryConfig))
     in if f_lt (f_of_int (MaxDelay DefaultRetryConfig)) delay then f_of_int (MaxDelay DefaultRetryConfig) else delay)"
  have "round64 200000000 = Fin 200000000" using round64_int [of 200000000] by (simp add: exact_int_def)
  then have delay: "delay = Fin 200000000"
    by (simp add: delay_def DefaultRetryConfig_def time_defs exact_int_def numeral_eq_Suc)
  show ?thesis
  proof (cases rnd)
    case None
    have "duration_of_float (Fin 200000000) = Some 200000000"
      by (simp add: duration_of_float_def min_duration_def max_duration_def)
    then have "calculateDelay DefaultRetryConfig 1 rnd = Some 200000000"
      using delay unfolding delay_def by (simp add: calculateDelay_def None Let_def)
    then show ?thesis by (simp add: time_defs)
  next
    case (Some k)
    define j where "j = round64 (1 / 10)"
    have j: "j = Fin (3602879701896397 / 36028797018963968)" unfolding j_def by (rule one_tenth)
    note p = rounded_constants
    have c: "round64 0 = Fin 0" "round64 1 = Fin 1" "round64 (1 / 2) = Fin (1 / 2)" "round64 (- 1 / 2) = Fin (- 1 / 2)"
      "round64 (- 1) = Fin (- 1)" "f_of_int 1000000 = Fin 1000000" "f_of_int 2 = Fin 2"
      "round64 (3602879701896397 / 36028797018963968) = Fin (3602879701896397 / 36028797018963968)"
      "round64 (- (3602879701896397 / 36028797018963968)) = Fin (- (3602879701896397 / 36028797018963968))"
      "round64 (3602879701896397 / 36028797018963968 * 200000000) = Fin 20000000"
      "round64 (- (3602879701896397 / 36028797018963968) * 200000000) = Fin (- 20000000)"
      "round64 180000000 = Fin 180000000" "round64 220000000 = Fin 220000000"
      using p round64_minus [of "1 / 2"] round64_minus [of 1] round64_minus [of "3602879701896397 / 36028797018963968"]
        round64_minus [of "3602879701896397 / 36028797018963968 * 200000000"]
      by (simp_all add: exact_int_def)
    have k: "0 \<le> k" "k < 1000000" using assms Some by simp_all
    then have "f_of_int k = Fin (of_int k)" by (intro f_of_int_exact) (simp add: exact_int_def)
    then obtain a where a: "f_div (f_of_int k) (f_of_int 1000000) = Fin a" "0 \<le> a" "a \<le> 1"
      using round64_interval [of 0 "of_int k / 1000000" 1, OF _ _ c(1,2)] k c(6) by auto
    obtain b where b: "f_sub (Fin a) (round64 (1 / 2)) = Fin b" "- 1 / 2 \<le> b" "b \<le> 1 / 2"
      using round64_interval [of "- 1 / 2" "a - 1 / 2" "1 / 2", OF _ _ c(4,3)] a c(3) by (auto simp: f_sub_def)
    obtain d where d: "f_mul (Fin b) (f_of_int 2) = Fin d" "- 1 \<le> d" "d \<le> 1"
      using round64_interval [of "- 1" "b * 2" 1, OF _ _ c(5,2)] b c(7) by auto
    obtain e where e: "f_mul (Fin d) j = Fin e" "- (3602879701896397 / 36028797018963968) \<le> e"
      "e \<le> 3602879701896397 / 36028797018963968"
      using round64_interval [of "- (3602879701896397 / 36028797018963968)" "d * (3602879701896397 / 36028797018963968)"
          "3602879701896397 / 36028797018963968", OF _ _ c(9,8)] d j by auto
    obtain f where f: "f_mul (Fin e) (Fin 200000000) = Fin f" "- 20000000 \<le> f" "f \<le> 20000000"
      using round64_interval [of "- (3602879701896397 / 36028797018963968) * 200000000" "e * 200000000"
          "3602879701896397 / 36028797018963968 * 200000000", OF _ _ c(11,10)] e by auto
    obtain g where g: "f_add (Fin 200000000) (Fin f) = Fin g" "180000000 \<le> g" "g \<le> 220000000"
      using round64_interval [of 180000000 "200000000 + f" 220000000, OF _ _ c(12,13)] f by auto
    obtain n where n: "duration_of_float (Fin g) = Some n" "180000000 \<le> n" "n \<le> 220000000"
      using duration_of_float_between [of 180000000 g 220000000] g by (auto simp: max_duration_def)
    have "JitterFactor DefaultRetryConfig = j" by (simp add: DefaultRetryConfig_def j_def)
    then have "calculateDelay DefaultRetryConfig 1 rnd = Some (if n < InitialDelay DefaultRetryConfig then InitialDelay DefaultRetryConfig else n)"
      using delay unfolding delay_def by (simp add: calculateDelay_def Some Let_def a b d e f g n del: f_mul.simps f_add.simps)
    then show ?thesis using n by (simp add: DefaultRetryConfig_def time_defs)
  qed
qed

subsection \<open>The loop is bounded\<close>

text \<open>The world with the number of calls of the operation and the delays waited for.\<close>

definition counted_fn ::
  "('s \<Rightarrow> go_error option \<times> 's) \<Rightarrow> nat \<times> duration list \<times> 's \<Rightarrow> go_error option \<times> nat \<times> duration list \<times> 's" where
  "counted_fn fn = (\<lambda>(n, ds, s). case fn s of (r, s) \<Rightarrow> (r, n + 1, ds, s))"

definition counted_env :: "'s retry_env \<Rightarrow> (nat \<times> duration list \<times> 's) retry_env" where
  "counted_env env =
     \<lparr>ctx_Err = (\<lambda>(n, ds, s). case ctx_Err env s of (r, s) \<Rightarrow> (r, n, ds, s)),
      rand_Int = (\<lambda>(n, ds, s). case rand_Int env s of (r, s) \<Rightarrow> (r, n, ds, s)),
      wait_for = (\<lambda>d (n, ds, s). case wait_for env d s of (b, s) \<Rightarrow> (b, n, ds @ [d], s))\<rparr>"

definition fair_random :: "'s retry_env \<Rightarrow> bool" where
  "fair_random env \<longleftrightarrow> (\<forall>s k. fst (rand_Int env s) = Some k \<longrightarrow> 0 \<le> k \<and> k < 1000000)"

lemma first_delay: "calculateDelay DefaultRetryConfig 0 rnd = Some (100 * millisecond)"
  by (simp add: calculateDelay_def DefaultRetryConfig_def)

text \<open>What the loop has done after \<open>i\<close> failed attempts, and what it may still do.\<close>

definition attempts_ok :: "nat \<Rightarrow> nat \<times> duration list \<times> 's \<Rightarrow> bool" where
  "attempts_ok i = (\<lambda>(n, ds, s). n = i \<and> length ds = i \<and>
     list_all (\<lambda>d. 100 * millisecond \<le> d \<and> d \<le> 220 * millisecond) ds \<and>
     sum_list ds \<le> (if i = 0 then 0 else 100 * millisecond + int (i - 1) * (220 * millisecond)))"

definition retry_done :: "nat \<times> duration list \<times> 's \<Rightarrow> bool" where
  "retry_done = (\<lambda>(n, ds, s). n \<le> 3 \<and> length ds \<le> n \<and> length ds \<le> 2 \<and>
     list_all (\<lambda>d. 100 * millisecond \<le> d \<and> d \<le> 220 * millisecond) ds \<and> sum_list ds \<le> 320 * millisecond)"

lemma attempts_done: "i \<le> 2 \<Longrightarrow> attempts_ok i x \<Longrightarrow> retry_done x"
proof -
  assume i: "i \<le> 2" and a: "attempts_ok i x"
  consider "i = 0" | "i = 1" | "i = 2" using i by linarith
  then show ?thesis using a by cases (auto simp: attempts_ok_def retry_done_def time_defs)
qed

lemma retry_loop_bounded:
  assumes fair: "fair_random env" and "attempts_ok i x" and "left + i = 3"
  shows "retry_done (snd (retry_loop (counted_env env) (counted_fn fn) DefaultRetryConfig left (int i) lastErr x))
    \<or> left = 0"
  using assms(2,3)
proof (induction left arbitrary: i x lastErr)
  case (Suc left)
  obtain n ds s where x: "x = (n, ds, s)" by (metis prod_cases3)
  have i: "i \<le> 2" using Suc.prems(2) by simp
  obtain ce s1 where c: "ctx_Err env s = (ce, s1)" by fastforce
  obtain r s2 where f: "fn s1 = (r, s2)" by fastforce
  obtain rnd s3 where k: "rand_Int env s2 = (rnd, s3)" by fastforce
  define d where "d = the (calculateDelay DefaultRetryConfig (int i) rnd)"
  obtain b s4 where w: "wait_for env d s3 = (b, s4)" by fastforce
  obtain ce2 s5 where c2: "ctx_Err env s4 = (ce2, s5)" by fastforce
  have n: "n = i" "length ds = i" using Suc.prems(1) by (simp_all add: x attempts_ok_def)
  have now: "retry_done (n, ds, s1)" using attempts_done [OF i Suc.prems(1)] by (simp add: x retry_done_def)
  have once: "retry_done (n + 1, ds, s2)" using now n i by (simp add: retry_done_def)
  have db: "100 * millisecond \<le> d \<and> d \<le> (if i = 0 then 100 else 220) * millisecond" if "i \<noteq> 2"
  proof (cases "i = 0")
    case True
    then show ?thesis by (simp add: d_def first_delay)
  next
    case False
    then have "i = 1" using i that by linarith
    have "case rnd of None \<Rightarrow> True | Some k \<Rightarrow> 0 \<le> k \<and> k < 1000000"
    proof (cases rnd)
      case (Some j)
      then have "fst (rand_Int env s2) = Some j" by (simp add: k)
      then show ?thesis using fair Some unfolding fair_random_def by (simp only: option.case)
    qed simp
    from second_delay_bounds [OF this] obtain d' where
      "calculateDelay DefaultRetryConfig 1 rnd = Some d'" "180 * millisecond \<le> d'" "d' \<le> 220 * millisecond" by blast
    then show ?thesis using \<open>i = 1\<close> by (simp add: d_def time_defs)
  qed
  have next_ok: "attempts_ok (Suc i) (n + 1, ds @ [d], s')" if "i \<noteq> 2" for s' :: 's
  proof -
    have "i = 0 \<or> i = 1" using i that by linarith
    then show ?thesis
      using Suc.prems(1) db [OF that] by (elim disjE) (auto simp: x attempts_ok_def time_defs)
  qed
  show ?case
  proof (cases "ce = None \<and> r \<noteq> None \<and> isRetryableError r \<and> i \<noteq> 2")
    case False
    then show ?thesis
      using now once c f by (cases r) (auto simp: x counted_env_def counted_fn_def DefaultRetryConfig_def split: option.splits)
  next
    case True
    then obtain err where r: "r = Some err" by blast
    have left: "left + Suc i = 3" "left \<noteq> 0" using Suc.prems(2) True i by linarith+
    have stop: "int i \<noteq> MaxAttempts DefaultRetryConfig - 1" using True by (simp add: DefaultRetryConfig_def)
    have more: "retry_done (snd (retry_loop (counted_env env) (counted_fn fn) DefaultRetryConfig left (int (Suc i)) (Some err)
        (n + 1, ds @ [d], s4)))" using Suc.IH [OF next_ok left(1)] True left(2) by blast
    have halt: "retry_done (n + 1, ds @ [d], s5)" using attempts_done [OF _ next_ok, of s5] True i by simp
    show ?thesis
      using True c f k w c2 r stop more halt unfolding x
      by (cases b) (simp_all add: counted_env_def counted_fn_def d_def [symmetric] ac_simps)
  qed
qed simp

text \<open>
  Whatever the operation, the context and the random source do, an operation is tried at most three times; every
  wait takes between 100 and 220 milliseconds, and all waits together at most 320.
\<close>

theorem retries_are_bounded:
  assumes "fair_random env"
    and "retryOperation (counted_env env) (counted_fn fn) (0, [], s) = (r, n, ds, s')"
  shows "n \<le> 3 \<and> length ds \<le> 2 \<and> list_all (\<lambda>d. 100 * millisecond \<le> d \<and> d \<le> 220 * millisecond) ds \<and>
    sum_list ds \<le> 320 * millisecond"
proof -
  have "attempts_ok 0 (0, [], s)" by (simp add: attempts_ok_def)
  from retry_loop_bounded [OF assms(1) this, of 3 fn None] assms(2) show ?thesis
    by (simp add: retryOperation_def DefaultRetryConfig_def Let_def retry_done_def)
qed

text \<open>An operation that always fails with an end of file, no jitter.\<close>

lemma retries_are_bounded_witness:
  "\<exists>ds s'. retryOperation (counted_env \<lparr>ctx_Err = (\<lambda>s. (None, s)), rand_Int = (\<lambda>s. (None, s)), wait_for = (\<lambda>d s. (True, s))\<rparr>)
     (counted_fn (\<lambda>s :: unit. (Some [OtherError, IoEOF], s))) (0, [], ()) = (Some [OtherError, IoEOF], 3, ds, s') \<and>
   sum_list ds \<le> 320 * millisecond"
proof -
  let ?env = "\<lparr>ctx_Err = (\<lambda>s :: unit. (None, s)), rand_Int = (\<lambda>s. (None, s)), wait_for = (\<lambda>d s. (True, s))\<rparr>"
  let ?fn = "\<lambda>s :: unit. (Some [OtherError, IoEOF], s)"
  have f: "fair_random ?env" by (simp add: fair_random_def)
  have i: "isRetryableError (Some [OtherError, IoEOF])" by (simp add: isRetryableError_def)
  obtain ds s' where r: "retryOperation (counted_env ?env) (counted_fn ?fn) (0, [], ()) = (Some [OtherError, IoEOF], 3, ds, s')"
    by (simp add: retryOperation_def DefaultRetryConfig_def counted_env_def counted_fn_def Let_def i numeral_3_eq_3)
  show ?thesis using retries_are_bounded [OF f r] r by blast
qed

end
