(* ===== verification/GoUrl.thy ===== *)
theory GoUrl
  imports GoStrings
begin

section \<open>URLs\<close>

text \<open>
  What the replication poller uses of net/url and net: \<open>url.Parse\<close> down to the scheme and the host
  of the result (\<open>None\<close> is the parse error), the accessors \<open>Hostname\<close> and \<open>Port\<close>, and
  \<open>net.JoinHostPort\<close>. The other parts of a URL matter only as far as they make the parser fail.
\<close>

subsection \<open>Percent encoding\<close>

definition is_hex :: "char \<Rightarrow> bool" where
  "is_hex c \<longleftrightarrow> is_digit c \<or> c \<in> set ''abcdefABCDEF''"

definition is_letter :: "char \<Rightarrow> bool" where
  "is_letter c \<longleftrightarrow> (let n = of_char c :: nat in 65 \<le> n \<and> n \<le> 90 \<or> 97 \<le> n \<and> n \<le> 122)"

definition hex_digit_val :: "char \<Rightarrow> nat" where
  "hex_digit_val c =
     (let n = of_char c in if is_digit c then n - 48 else if 97 \<le> n then n - 87 else n - 55)"

text \<open>The bytes a host may hold without encoding; other ASCII bytes make the parser fail.\<close>

definition host_byte :: "char \<Rightarrow> bool" where
  "host_byte c \<longleftrightarrow> is_letter c \<or> is_digit c \<or> c \<in> set ''-_.~!$&'()*+,;=:[]<>'' \<or> c = CHR 0x22 \<or> 128 \<le> (of_char c :: nat)"

text \<open>\<open>unescape\<close> in a path, a user name or a fragment, and in a host: there only bytes outside ASCII
  and the percent sign itself may be encoded. In the zone of an IPv6 literal (\<open>zone\<close>) the bytes
  of a host and the blank may be encoded too.\<close>

fun unescape_ok :: "string \<Rightarrow> bool" where
  "unescape_ok (c # s) =
     (if c = CHR ''%'' then (case s of a # b # t \<Rightarrow> is_hex a \<and> is_hex b \<and> unescape_ok t | _ \<Rightarrow> False)
      else unescape_ok s)"
| "unescape_ok [] = True"

fun unescape_host :: "bool \<Rightarrow> string \<Rightarrow> string option" where
  "unescape_host zone (c # s) =
     (if c = CHR ''%''
      then (case s of
              a # b # t \<Rightarrow>
                (let v = char_of (16 * hex_digit_val a + hex_digit_val b)
                 in if \<not> is_hex a \<or> \<not> is_hex b then None
                    else if \<not> zone \<and> hex_digit_val a < 8 \<and> [a, b] \<noteq> ''25'' then None
                    else if zone \<and> [a, b] \<noteq> ''25'' \<and> v \<noteq> CHR '' '' \<and> \<not> (host_byte v \<and> (of_char v :: nat) < 128) then None
                    else (case unescape_host zone t of None \<Rightarrow> None | Some u \<Rightarrow> Some (v # u)))
            | _ \<Rightarrow> None)
      else if \<not> host_byte c then None
      else (case unescape_host zone s of None \<Rightarrow> None | Some u \<Rightarrow> Some (c # u)))"
| "unescape_host zone [] = Some []"

subsection \<open>Scheme and authority\<close>

text \<open>\<open>getScheme\<close>: \<open>None\<close> is the error of a leading colon.\<close>

fun scheme_loop :: "string \<Rightarrow> string \<Rightarrow> (string \<times> string) option option" where
  "scheme_loop acc [] = Some None"
| "scheme_loop acc (c # s) =
     (if is_letter c then scheme_loop (acc @ [c]) s
      else if is_digit c \<or> c \<in> set ''+-.'' then (if acc = [] then Some None else scheme_loop (acc @ [c]) s)
      else if c = CHR '':'' then (if acc = [] then None else Some (Some (acc, s)))
      else Some None)"

definition getScheme :: "string \<Rightarrow> (string \<times> string) option" where
  "getScheme raw =
     (case scheme_loop [] raw of None \<Rightarrow> None | Some None \<Rightarrow> Some ([], raw) | Some (Some x) \<Rightarrow> Some x)"

definition valid_optional_port :: "string \<Rightarrow> bool" where
  "valid_optional_port s \<longleftrightarrow> (case s of [] \<Rightarrow> True | c # ds \<Rightarrow> c = CHR '':'' \<and> list_all is_digit ds)"

definition valid_userinfo :: "string \<Rightarrow> bool" where
  "valid_userinfo s \<longleftrightarrow> list_all (\<lambda>c. is_letter c \<or> is_digit c \<or> c \<in> set ''-._:~!$&'()*+,;=%@'') s"

definition LastIndexByte :: "string \<Rightarrow> char \<Rightarrow> int" where
  "LastIndexByte s c = (let i = IndexByte (rev s) c in if i < 0 then - 1 else int (length s) - 1 - i)"

definition before_first :: "char \<Rightarrow> string \<Rightarrow> string" where
  "before_first c s = takeWhile (\<lambda>x. x \<noteq> c) s"

text \<open>
  \<open>netip.ParseAddr\<close> as far as it accepts: an IPv6 literal of eight groups of at most four hex
  digits, one run of groups may be left out as \<open>::\<close>, the last two may be written as an IPv4
  address. \<open>addr6_loop n el s\<close> has read \<open>n\<close> of the 16 bytes, \<open>el\<close> tells whether \<open>::\<close> was seen.
\<close>

definition octet_ok :: "string \<Rightarrow> bool" where
  "octet_ok f \<longleftrightarrow> f \<noteq> [] \<and> list_all is_digit f \<and> digits_val f \<le> 255 \<and> (hd f = CHR ''0'' \<longrightarrow> length f = 1)"

definition ipv4_ok :: "string \<Rightarrow> bool" where
  "ipv4_ok s \<longleftrightarrow> (let fs = Split s CHR ''.'' in length fs = 4 \<and> list_all octet_ok fs)"

definition addr6_end :: "nat \<Rightarrow> bool \<Rightarrow> string \<Rightarrow> bool" where
  "addr6_end n el s \<longleftrightarrow> s = [] \<and> (if n < 16 then el else \<not> el)"

fun addr6_loop :: "nat \<Rightarrow> nat \<Rightarrow> bool \<Rightarrow> string \<Rightarrow> bool" where
  "addr6_loop 0 n el s = addr6_end n el s"
| "addr6_loop (Suc k) n el s =
     (let grp = takeWhile is_hex s; rest = drop (length grp) s
      in if grp = [] \<or> length grp > 4 then False
         else if rest \<noteq> [] \<and> hd rest = CHR ''.''
         then (el \<or> n = 12) \<and> n + 4 \<le> 16 \<and> ipv4_ok s \<and> addr6_end (n + 4) el []
         else (case rest of
                 [] \<Rightarrow> addr6_end (n + 2) el []
               | c # t \<Rightarrow>
                   if c \<noteq> CHR '':'' \<or> t = [] then False
                   else if hd t = CHR '':''
                   then if el then False
                        else if tl t = [] then addr6_end (n + 2) True []
                        else addr6_loop k (n + 2) True (tl t)
                   else addr6_loop k (n + 2) el t))"

text \<open>A group takes two of the 16 bytes, so the loop runs at most eight times.\<close>

definition parse_addr6 :: "string \<Rightarrow> bool" where
  "parse_addr6 lit \<longleftrightarrow>
     (let a = takeWhile (\<lambda>c. c \<noteq> CHR ''%'') lit; zone = drop (length a) lit
      in CHR '':'' \<in> set (takeWhile (\<lambda>c. c \<noteq> CHR ''.'') a) \<and> zone \<noteq> ''%'' \<and>
         (if HasPrefix a ''::'' then drop 2 a = [] \<or> addr6_loop 8 0 True (drop 2 a) else addr6_loop 8 0 False a))"

fun Index :: "string \<Rightarrow> string \<Rightarrow> nat" where
  "Index s sub = (if HasPrefix s sub then 0 else case s of [] \<Rightarrow> 0 | _ # t \<Rightarrow> Suc (Index t sub))"

definition parse_literal :: "string \<Rightarrow> string option" where
  "parse_literal hostname =
     (let i = Index hostname ''%25''
      in case (unescape_host False (take i hostname), unescape_host True (drop i hostname)) of
           (Some a, Some z) \<Rightarrow> if parse_addr6 (a @ z) then Some (a @ z) else None
         | _ \<Rightarrow> None)"

text \<open>
  \<open>parseHost\<close>: a bracket is allowed only around an IPv6 literal at the start. Only the two HTTP
  schemes insist that the port follows the first colon.
\<close>

definition parseHost :: "string \<Rightarrow> string \<Rightarrow> string option" where
  "parseHost scheme host =
     (let br = LastIndexByte host CHR ''[''
      in if br > 0 then None
         else if br = 0
         then let i = LastIndexByte host CHR '']''
              in if i < 0 then None
                 else let colonPort = drop (nat i + 1) host
                      in if \<not> valid_optional_port colonPort then None
                         else (case parse_literal (drop 1 (take (nat i) host)) of
                                 None \<Rightarrow> None
                               | Some lit \<Rightarrow> Some (''['' @ lit @ '']'' @ colonPort))
         else let i = (if scheme = ''http'' \<or> scheme = ''https'' then IndexByte host CHR '':'' else LastIndexByte host CHR '':'')
              in if i \<ge> 0 \<and> \<not> valid_optional_port (drop (nat i) host) then None
                 else unescape_host False host)"

definition parseAuthority :: "string \<Rightarrow> string \<Rightarrow> string option" where
  "parseAuthority scheme authority =
     (let i = LastIndexByte authority CHR ''@''
      in if i < 0 then parseHost scheme authority
         else case parseHost scheme (drop (nat i + 1) authority) of
                None \<Rightarrow> None
              | Some host \<Rightarrow>
                  if valid_userinfo (take (nat i) authority) \<and> unescape_ok (take (nat i) authority) then Some host else None)"

subsection \<open>Parse\<close>

definition is_ctl :: "char \<Rightarrow> bool" where
  "is_ctl c \<longleftrightarrow> (let n = of_char c :: nat in n < 32 \<or> n = 127)"

definition url_Parse :: "string \<Rightarrow> (string \<times> string) option" where
  "url_Parse rawURL =
     (let u = before_first CHR ''#'' rawURL; frag = drop (length u + 1) rawURL
      in if list_ex is_ctl u then None
         else if u = ''*'' then (if unescape_ok frag then Some ([], []) else None)
         else case getScheme u of
                None \<Rightarrow> None
              | Some (scheme, rest) \<Rightarrow>
                  let scheme = ToLower scheme; rest = before_first CHR ''?'' rest
                  in if \<not> HasPrefix rest ''/'' \<and> scheme \<noteq> [] then (if unescape_ok frag then Some (scheme, []) else None)
                     else if \<not> HasPrefix rest ''/'' \<and> Contains (before_first CHR ''/'' rest) '':'' then None
                     else if HasPrefix rest ''//'' \<and> (scheme \<noteq> [] \<or> \<not> HasPrefix rest ''///'')
                     then let authority = before_first CHR ''/'' (drop 2 rest); path = drop (length authority + 2) rest
                          in (case parseAuthority scheme authority of
                                None \<Rightarrow> None
                              | Some host \<Rightarrow> if unescape_ok path \<and> unescape_ok frag then Some (scheme, host) else None)
                     else if unescape_ok rest \<and> unescape_ok frag then Some (scheme, []) else None)"

text \<open>\<open>Hostname\<close> and \<open>Port\<close> of the host of a URL.\<close>

definition url_splitHostPort :: "string \<Rightarrow> string \<times> string" where
  "url_splitHostPort hostPort =
     (let colon = LastIndexByte hostPort CHR '':'';
          (host, port) = (if colon \<ge> 0 \<and> valid_optional_port (drop (nat colon) hostPort)
                          then (take (nat colon) hostPort, drop (nat colon + 1) hostPort) else (hostPort, []))
      in (if HasPrefix host ''['' \<and> HasSuffix host '']'' then take (length host - 2) (drop 1 host) else host, port))"

definition JoinHostPort :: "string \<Rightarrow> string \<Rightarrow> string" where
  "JoinHostPort host port =
     (if CHR '':'' \<in> set host then ''['' @ host @ '']:'' @ port else host @ '':'' @ port)"

text \<open>\<open>net.SplitHostPort\<close>: a host with a colon must be in brackets.\<close>

definition net_SplitHostPort :: "string \<Rightarrow> (string \<times> string) option" where
  "net_SplitHostPort hostport =
     (let i = LastIndexByte hostport CHR '':'';
          port = drop (nat i + 1) hostport
      in if i < 0 then None
         else if HasPrefix hostport ''[''
         then let e = IndexByte hostport CHR '']''
              in if e < 0 \<or> e + 1 \<noteq> i then None
                 else if CHR ''['' \<in> set (drop 1 hostport) \<or> CHR '']'' \<in> set (drop (nat e + 1) hostport) then None
                 else Some (take (nat e - 1) (drop 1 hostport), port)
         else if CHR '':'' \<in> set (take (nat i) hostport) then None
         else if CHR ''['' \<in> set hostport \<or> CHR '']'' \<in> set hostport then None
         else Some (take (nat i) hostport, port))"

end
