(* ===== verification/Replication.thy ===== *)
theory Replication
  imports GoUrl ExporterState
begin

section \<open>The replication peer poller (pkg/replication)\<close>

text \<open>
  peers.go and poller.go: discovery of the peers from the configuration and from cn=config, the
  set of live peers, and a round of polling. \<open>None\<close> is a panic, which ends the process. The nodes
  are reached through \<open>Network\<close>, the local node under the empty URI. The readers of one round run
  concurrently, each with a client of its own; here they run one after the other in an order the
  scheduler chooses. Log messages are not modelled.
\<close>

subsection \<open>Peer addresses\<close>

definition normalizePeerURI :: "string \<Rightarrow> string" where
  "normalizePeerURI raw =
     (let s = TrimSpace raw
      in if s = '''' then ''''
         else case url_Parse s of
                None \<Rightarrow> ToLower s
              | Some (u_Scheme, u_Host) \<Rightarrow>
                  if u_Host = '''' then ToLower s
                  else let scheme = ToLower u_Scheme;
                           (hostname, port) = url_splitHostPort u_Host;
                           host = ToLower hostname;
                           port = (if port = '''' then if scheme = ''ldaps'' then ''636'' else ''389'' else port)
                       in scheme @ ''://'' @ JoinHostPort host port)"

fun provider_token :: "string list \<Rightarrow> string" where
  "provider_token [] = ''''"
| "provider_token (tok # toks) =
     (let (rest, ok) = CutPrefix tok ''provider='' in if ok then Trim rest [CHR 0x22] else provider_token toks)"

definition parseProviderURI :: "string \<Rightarrow> string" where
  "parseProviderURI syncreplValue = provider_token (Fields syncreplValue)"

definition isLDAPS :: "string \<Rightarrow> bool" where
  "isLDAPS uri = HasPrefix (ToLower (TrimSpace uri)) ''ldaps://''"

text \<open>The fields a composite literal leaves out are zero values; the client never reads the rotation.\<close>

definition zero_config :: Config where
  "zero_config =
     \<lparr>URL = '''', ServerName = '''', TLS = False, TLSSkipVerify = False, TLSCA = '''', TLSCert = '''',
      TLSKey = '''', TLSServerName = '''', LDAPTimeout = 0, UpdateEvery = 0, Username = '''', Password = None,
      MetricsInclude = [], MetricsExclude = [], DCInclude = [], DCExclude = [], AuthMethod = '''',
      CBMaxFailures = 0, CBTimeout = 0, CBResetTimeout = 0, CBSuccessThreshold = 0,
      RateLimitEnabled = False, TrustedProxies = [],
      EventsEnabled = False, EventsInterval = 0, EventsOutput = '''', EventsRotation = EventsRotationNone,
      EventsTypes = [],
      ReplicationPollEnabled = False, ReplicationPollInterval = 0, ReplicationPeers = [],
      PeerUsername = '''', PeerPassword = None, PeerServerName = ''''\<rparr>"

definition peerConfig :: "Config \<Rightarrow> string \<Rightarrow> Config" where
  "peerConfig cfg uri =
     zero_config
       \<lparr>URL := uri, ServerName := uri, TLS := isLDAPS uri \<or> TLS cfg, TLSSkipVerify := TLSSkipVerify cfg,
        TLSCA := TLSCA cfg, TLSServerName := PeerServerName cfg, LDAPTimeout := LDAPTimeout cfg,
        Username := (if PeerUsername cfg = '''' then Username cfg else PeerUsername cfg),
        Password := (case PeerPassword cfg of None \<Rightarrow> Password cfg | Some p \<Rightarrow> Some p),
        AuthMethod := ''simple'', CBMaxFailures := CBMaxFailures cfg, CBTimeout := CBTimeout cfg,
        CBResetTimeout := CBResetTimeout cfg, CBSuccessThreshold := CBSuccessThreshold cfg\<rparr>"

definition buildPeerClient :: "Config \<Rightarrow> string \<Rightarrow> (PooledLDAPClient \<times> ConnectionPool) option" where
  "buildPeerClient cfg uri = NewPooledLDAPClient (peerConfig cfg uri)"

subsection \<open>State\<close>

type_synonym csnKey = "string \<times> string" \<comment> \<open>base DN and server ID\<close>

record sourceResult =
  peer :: string
  csns :: "(csnKey \<times> float64) list"
  up :: bool

record 's Network =
  node :: "string \<Rightarrow> 's Client"
  closeNode :: "string \<Rightarrow> 's \<Rightarrow> 's"

record 's Poller =
  p_cfg :: Config
  has_local :: bool
  peers :: "(string \<times> (PooledLDAPClient \<times> ConnectionPool)) list"
  p_calls :: "metric vec_call list"
  stopped :: bool
  p_ext :: 's

definition pollInterval :: "Config \<Rightarrow> duration" where
  "pollInterval cfg =
     (if ReplicationPollInterval cfg \<le> 0 then DefaultReplPollInterval else ReplicationPollInterval cfg)"

definition NewPoller :: "Config \<Rightarrow> bool \<Rightarrow> 's \<Rightarrow> 's Poller" where
  "NewPoller cfg loc s =
     \<lparr>p_cfg = cfg, has_local = loc, peers = [], p_calls = [], stopped = False, p_ext = s\<rparr>"

subsection \<open>Discovery\<close>

text \<open>A set of addresses is a list without duplicates.\<close>

definition add_uri :: "string \<Rightarrow> string list \<Rightarrow> string list" where
  "add_uri u us = (if u \<noteq> '''' then List.insert u us else us)"

definition entry_values :: "string \<Rightarrow> Entry \<Rightarrow> string list" where
  "entry_values name entry = concat (map snd (filter (\<lambda>a. fst a = name) (EntryAttributes entry)))"

definition discoverPeers :: "'s Network \<Rightarrow> Config \<Rightarrow> bool \<Rightarrow> 's \<Rightarrow> (string list \<times> bool) \<times> 's" where
  "discoverPeers net cfg loc s =
     (let uris = fold (\<lambda>p. add_uri (normalizePeerURI p)) (ReplicationPeers cfg) [];
          (found, reliable, s) =
            (if loc
             then (case cl_SearchConfig (node net '''') ''(olcSyncrepl=*)'' [''olcSyncrepl''] s of
                     (Inl err, s) \<Rightarrow> (uris, False, s)
                   | (Inr entries, s) \<Rightarrow>
                       (fold (\<lambda>v. add_uri (normalizePeerURI (parseProviderURI v)))
                          (concat (map (entry_values ''olcSyncrepl'') entries)) uris, True, s))
             else (uris, True, s))
      in ((foldr insert_name found [], reliable), s))"

definition prunePeerMetrics :: "string \<Rightarrow> metric vec_call list" where
  "prunePeerMetrics p =
     (let labels = [(''peer'', p)]
      in [DeletePartialMatch ReplicationPeerUp labels,
          DeletePartialMatch ReplicationPeerCSN labels,
          DeletePartialMatch ReplicationPeerLag labels])"

fun add_peers ::
  "Config \<Rightarrow> string list \<Rightarrow> (string \<times> (PooledLDAPClient \<times> ConnectionPool)) list
     \<Rightarrow> (string \<times> (PooledLDAPClient \<times> ConnectionPool)) list option" where
  "add_peers cfg [] ps = Some ps"
| "add_peers cfg (uri # uris) ps =
     (if map_of ps uri \<noteq> None then add_peers cfg uris ps
      else case buildPeerClient cfg uri of
             None \<Rightarrow> None
           | Some client \<Rightarrow> add_peers cfg uris (ps @ [(uri, client)]))"

definition remove_peer :: "'s Network \<Rightarrow> string \<Rightarrow> 's Poller \<Rightarrow> 's Poller" where
  "remove_peer net uri p =
     p\<lparr>p_ext := closeNode net uri (p_ext p), peers := filter (\<lambda>x. fst x \<noteq> uri) (peers p),
       p_calls := p_calls p @ prunePeerMetrics uri\<rparr>"

definition reconcilePeers :: "'s Network \<Rightarrow> 's Poller \<Rightarrow> 's Poller option" where
  "reconcilePeers net p =
     (let ((discovered, reliable), s) = discoverPeers net (p_cfg p) (has_local p) (p_ext p)
      in case add_peers (p_cfg p) discovered (peers p) of
           None \<Rightarrow> None
         | Some ps \<Rightarrow>
             let p = p\<lparr>p_ext := s, peers := ps\<rparr>
             in Some (if \<not> reliable then p
                      else fold (remove_peer net) (filter (\<lambda>uri. uri \<notin> set discovered) (map fst ps)) p))"

subsection \<open>A round of polling\<close>

text \<open>A missing key of a map reads as zero.\<close>

definition csn_at :: "(csnKey \<times> float64) list \<Rightarrow> csnKey \<Rightarrow> float64" where
  "csn_at m k = (case map_of m k of Some v \<Rightarrow> v | None \<Rightarrow> f_of_int 0)"

definition raise_csn :: "csnKey \<times> float64 \<Rightarrow> (csnKey \<times> float64) list \<Rightarrow> (csnKey \<times> float64) list" where
  "raise_csn x m = (if f_lt (csn_at m (fst x)) (snd x) then AList.update (fst x) (snd x) m else m)"

fun read_values :: "string \<Rightarrow> string list \<Rightarrow> (csnKey \<times> float64) list \<Rightarrow> (csnKey \<times> float64) list option" where
  "read_values sfx [] m = Some m"
| "read_values sfx (v # vs) m =
     (case csn_Parse v of
        None \<Rightarrow> None
      | Some (Inl _) \<Rightarrow> read_values sfx vs m
      | Some (Inr (ts, sid)) \<Rightarrow> read_values sfx vs (raise_csn ((sfx, sid), f_of_int (Unix ts)) m))"

fun read_suffixes ::
  "'s Client \<Rightarrow> string list \<Rightarrow> (csnKey \<times> float64) list \<Rightarrow> 's \<Rightarrow> ((csnKey \<times> float64) list \<times> 's) option" where
  "read_suffixes cl [] m s = Some (m, s)"
| "read_suffixes cl (sfx # rest) m s =
     (if HasPrefix (ToLower sfx) ''cn='' then read_suffixes cl rest m s
      else case cl_SearchContextCSN cl sfx s of
             (Inr (e # _), s) \<Rightarrow>
               (case read_values sfx (entry_values ''contextCSN'' e) m of
                  None \<Rightarrow> None
                | Some m \<Rightarrow> read_suffixes cl rest m s)
           | (_, s) \<Rightarrow> read_suffixes cl rest m s)"

definition readCSN :: "'s Client \<Rightarrow> 's \<Rightarrow> (((csnKey \<times> float64) list \<times> bool) \<times> 's) option" where
  "readCSN cl s =
     (case cl_SearchRootDSE cl [''namingContexts''] s of
        (Inr (e # _), s) \<Rightarrow>
          (case read_suffixes cl (entry_values ''namingContexts'' e) [] s of
             None \<Rightarrow> None
           | Some (m, s) \<Rightarrow> Some ((m, True), s))
      | (_, s) \<Rightarrow> Some (([], False), s))"

fun gather :: "'s Network \<Rightarrow> string list \<Rightarrow> 's \<Rightarrow> (sourceResult list \<times> 's) option" where
  "gather net [] s = Some ([], s)"
| "gather net (uri # uris) s =
     (case readCSN (node net uri) s of
        None \<Rightarrow> None
      | Some ((m, ok), s) \<Rightarrow>
          (case gather net uris s of
             None \<Rightarrow> None
           | Some (rs, s) \<Rightarrow> Some (\<lparr>peer = uri, csns = m, up = ok\<rparr> # rs, s)))"

definition reference :: "sourceResult list \<Rightarrow> (csnKey \<times> float64) list" where
  "reference results = fold (\<lambda>r m. fold raise_csn (csns r) m) results []"

definition csn_lag :: "(csnKey \<times> float64) list \<Rightarrow> csnKey \<Rightarrow> float64 \<Rightarrow> float64" where
  "csn_lag ref k ts =
     (let lag = f_sub (csn_at ref k) ts in if f_lt lag (f_of_int 0) then f_of_int 0 else lag)"

definition peer_calls :: "(csnKey \<times> float64) list \<Rightarrow> sourceResult \<Rightarrow> metric vec_call list" where
  "peer_calls ref r =
     (if peer r = '''' then []
      else GaugeSet ReplicationPeerUp (WithLabelValues [peer r]) (if up r then f_of_int 1 else f_of_int 0) #
           concat (map (\<lambda>(k, ts).
             [GaugeSet ReplicationPeerCSN (WithLabelValues [peer r, fst k, snd k]) ts,
              GaugeSet ReplicationPeerLag (WithLabelValues [peer r, fst k, snd k]) (csn_lag ref k ts)]) (csns r)))"

text \<open>
  \<open>order\<close> is the order in which the readers finish. A poller without a local client panics: the
  reader of the local node calls the nil client.
\<close>

definition poll :: "'s Network \<Rightarrow> string list \<Rightarrow> 's Poller \<Rightarrow> 's Poller option" where
  "poll net order p =
     (if \<not> has_local p then None
      else case gather net order (p_ext p) of
             None \<Rightarrow> None
           | Some (results, s) \<Rightarrow>
               let ref = reference results
               in Some (p\<lparr>p_ext := s, p_calls := p_calls p @ concat (map (peer_calls ref) results)\<rparr>))"

subsection \<open>The loop\<close>

text \<open>A timer or ticker fires, or \<open>Stop\<close> is called; the scheduler chooses the order of the readers.\<close>

datatype poller_event = Fire "string list \<Rightarrow> string list" | StopSignal

definition Poller_Stop :: "'s Network \<Rightarrow> 's Poller \<Rightarrow> 's Poller" where
  "Poller_Stop net p = p\<lparr>stopped := True, p_ext := fold (closeNode net) (map fst (peers p)) (p_ext p)\<rparr>"

fun loop_event :: "'s Network \<Rightarrow> poller_event \<Rightarrow> 's Poller \<Rightarrow> 's Poller option" where
  "loop_event net (Fire sched) p =
     (if stopped p then Some p
      else case reconcilePeers net p of
             None \<Rightarrow> None
           | Some p \<Rightarrow> poll net (sched ('''' # map fst (peers p))) p)"
| "loop_event net StopSignal p = Some (Poller_Stop net p)"

fun poller_loop :: "'s Network \<Rightarrow> poller_event list \<Rightarrow> 's Poller \<Rightarrow> 's Poller option" where
  "poller_loop net [] p = Some p"
| "poller_loop net (ev # evs) p =
     (case loop_event net ev p of None \<Rightarrow> None | Some p \<Rightarrow> poller_loop net evs p)"

end
