(* ===== verification/PeerAddress.thy ===== *)
theory PeerAddress
  imports Replication
begin

section \<open>Spellings of a peer address\<close>

text \<open>
  The address under which a peer is polled: parsing an address without a user, a path or an IPv6
  literal in closed form, and the canonical form that \<open>normalizePeerURI\<close> gives all its spellings.
\<close>

definition plain_char :: "char \<Rightarrow> bool" where
  "plain_char c \<longleftrightarrow> is_letter c \<or> is_digit c \<or> c = CHR ''-'' \<or> c = CHR ''.''"

lemma plain_not: "plain_char c \<Longrightarrow> \<not> is_ctl c \<and> \<not> is_space c \<and> host_byte c \<and> c \<noteq> CHR ''#'' \<and> c \<noteq> CHR ''?'' \<and> c \<noteq> CHR ''%'' \<and>
    c \<noteq> CHR ''/'' \<and> c \<noteq> CHR '':'' \<and> c \<noteq> CHR ''@'' \<and> c \<noteq> CHR ''['' \<and> c \<noteq> CHR '']''"
  by (auto simp: plain_char_def is_ctl_def is_space_def host_byte_def is_letter_def is_digit_def Let_def)

lemma takeWhile_all: "\<forall>c\<in>set s. P c \<Longrightarrow> takeWhile P s = s"
  by (simp add: takeWhile_eq_all_conv)

lemma IndexByte_neg: "c \<notin> set s \<Longrightarrow> IndexByte s c = - 1"
  by (induction s) auto

lemma LastIndexByte_neg: "c \<notin> set s \<Longrightarrow> LastIndexByte s c = - 1"
  by (simp add: LastIndexByte_def IndexByte_neg)

lemma scheme_loop_letters:
  "list_all is_letter sch \<Longrightarrow> acc @ sch \<noteq> [] \<Longrightarrow>
   scheme_loop acc (sch @ CHR '':'' # r) = Some (Some (acc @ sch, r))"
proof (induction sch arbitrary: acc)
  case Nil
  then show ?case by (simp add: is_letter_def is_digit_def Let_def)
qed simp

lemma unescape_host_plain: "list_all plain_char h \<Longrightarrow> unescape_host z h = Some h"
  by (induction h) (auto dest: plain_not)

lemma LastIndexByte_last: "c \<notin> set t \<Longrightarrow> LastIndexByte (s @ c # t) c = int (length s)"
  by (simp add: LastIndexByte_def IndexByte_app Let_def)

definition port_part :: "string option \<Rightarrow> string" where
  "port_part port = (case port of None \<Rightarrow> '''' | Some ds \<Rightarrow> '':'' @ ds)"

definition plain_authority :: "string \<Rightarrow> string option \<Rightarrow> bool" where
  "plain_authority h port \<longleftrightarrow>
     h \<noteq> [] \<and> list_all plain_char h \<and> (case port of None \<Rightarrow> True | Some ds \<Rightarrow> list_all is_digit ds)"

lemma authority_chars:
  assumes "plain_authority h port" "c \<in> set (h @ port_part port)" shows "plain_char c \<or> c = CHR '':''"
  using assms by (auto simp: plain_authority_def port_part_def plain_char_def list_all_iff split: option.splits)

lemma authority_colon:
  assumes "plain_authority h port"
  shows "LastIndexByte (h @ port_part port) CHR '':'' = (case port of None \<Rightarrow> - 1 | Some ds \<Rightarrow> int (length h))"
proof (cases port)
  case None
  have "CHR '':'' \<notin> set h" using assms plain_not by (auto simp: plain_authority_def list_all_iff)
  then show ?thesis using None by (simp add: port_part_def LastIndexByte_neg)
next
  case (Some ds)
  have "CHR '':'' \<notin> set ds" using assms Some by (auto simp: plain_authority_def list_all_iff is_digit_def Let_def)
  then show ?thesis using Some by (simp add: port_part_def LastIndexByte_last)
qed

lemma unescape_host_colons: "\<forall>c\<in>set s. plain_char c \<or> c = CHR '':'' \<Longrightarrow> unescape_host z s = Some s"
proof (induction s)
  case (Cons c s)
  have "plain_char c \<or> c = CHR '':''" using Cons.prems by (meson list.set_intros(1))
  moreover have "host_byte CHR '':''" by (simp add: host_byte_def)
  ultimately have "host_byte c" "c \<noteq> CHR ''%''" using plain_not [of c] by auto
  moreover have "unescape_host z s = Some s" using Cons.IH Cons.prems by (meson list.set_intros(2))
  ultimately show ?case by simp
qed simp

lemma parseAuthority_plain:
  assumes a: "plain_authority h port" and "scheme \<noteq> ''http''" "scheme \<noteq> ''https''"
  shows "parseAuthority scheme (h @ port_part port) = Some (h @ port_part port)"
    and "url_splitHostPort (h @ port_part port) = (h, case port of None \<Rightarrow> '''' | Some ds \<Rightarrow> ds)"
proof -
  have mem: "CHR ''@'' \<notin> set (h @ port_part port)" "CHR ''['' \<notin> set (h @ port_part port)"
    using authority_chars [OF a] plain_not by fastforce+
  have ue: "unescape_host False (h @ port_part port) = Some (h @ port_part port)"
    using authority_chars [OF a] by (intro unescape_host_colons) blast
  have port: "valid_optional_port (port_part port)"
    using a by (auto simp: port_part_def valid_optional_port_def plain_authority_def split: option.splits)
  note idx = LastIndexByte_neg [OF mem(1)] LastIndexByte_neg [OF mem(2)] authority_colon [OF a]
  have "parseHost scheme (h @ port_part port) = Some (h @ port_part port)"
    unfolding parseHost_def idx ue Let_def using port assms(2,3) by (cases port) (simp_all add: port_part_def)
  then show "parseAuthority scheme (h @ port_part port) = Some (h @ port_part port)"
    unfolding parseAuthority_def idx Let_def by simp
  have "\<not> HasPrefix h ''[''" using a plain_not by (cases h) (auto simp: HasPrefix_def plain_authority_def)
  then show "url_splitHostPort (h @ port_part port) = (h, case port of None \<Rightarrow> '''' | Some ds \<Rightarrow> ds)"
    unfolding url_splitHostPort_def idx Let_def using port by (cases port) (simp_all add: port_part_def)
qed

lemma url_Parse_plain:
  assumes a: "plain_authority h port" and sch: "list_all is_letter sch" "sch \<noteq> []" "ToLower sch = scheme"
    and "scheme \<noteq> ''http''" "scheme \<noteq> ''https''"
  shows "url_Parse (sch @ ''://'' @ h @ port_part port) = Some (scheme, h @ port_part port)"
proof -
  let ?a = "h @ port_part port"
  have ca: "c \<noteq> CHR ''#'' \<and> c \<noteq> CHR ''?'' \<and> c \<noteq> CHR ''/'' \<and> \<not> is_ctl c" if "c \<in> set ?a" for c
    using authority_chars [OF a that] plain_not by (auto simp: is_ctl_def)
  have cs: "c \<noteq> CHR ''#'' \<and> \<not> is_ctl c" if "c \<in> set sch" for c
    using sch(1) that plain_not by (auto simp: list_all_iff plain_char_def)
  have hash: "before_first CHR ''#'' (sch @ ''://'' @ ?a) = sch @ ''://'' @ ?a"
    unfolding before_first_def using ca cs by (intro takeWhile_all) auto
  have q: "before_first CHR ''?'' (''//'' @ ?a) = ''//'' @ ?a"
    unfolding before_first_def using ca by (intro takeWhile_all) auto
  have sl: "before_first CHR ''/'' ?a = ?a" unfolding before_first_def using ca by (intro takeWhile_all) auto
  have ctl: "\<not> list_ex is_ctl (sch @ ''://'' @ ?a)"
    using ca cs by (auto simp: list_ex_iff is_ctl_def)
  have gs: "getScheme (sch @ ''://'' @ ?a) = Some (sch, ''//'' @ ?a)"
    using scheme_loop_letters [OF sch(1), of "[]" "''//'' @ ?a"] sch(2) by (simp add: getScheme_def)
  have ne: "scheme \<noteq> []" using sch(2,3) by (auto simp: ToLower_def)
  have star: "sch @ ''://'' @ ?a \<noteq> ''*''" using sch(2) by (cases sch) auto
  show ?thesis
    unfolding url_Parse_def Let_def hash gs option.case prod.case sch(3) q if_not_P [OF ctl] if_not_P [OF star]
    using parseAuthority_plain(1) [OF a assms(5,6)] ne by (simp add: sl HasPrefix_def)
qed

lemma TrimSpace_pad:
  assumes "list_all is_space ws" "list_all is_space ws'" "s \<noteq> []" "\<not> is_space (hd s)" "\<not> is_space (last s)"
  shows "TrimSpace (ws @ s @ ws') = s"
proof -
  have skip: "list_all P xs \<Longrightarrow> ys \<noteq> [] \<Longrightarrow> \<not> P (hd ys) \<Longrightarrow> dropWhile P (xs @ ys) = ys" for P and xs ys :: string
    by (induction xs) (auto simp: dropWhile_eq_self_iff)
  have "trim_right is_space (ws @ s @ ws') = ws @ s"
    using skip [of is_space "rev ws'" "rev s @ rev ws"] assms(2,3,5) by (simp add: trim_right_def hd_rev)
  then show ?thesis using skip [OF assms(1,3,4)] by (simp add: TrimSpace_def trim_left_def)
qed

definition peer_endpoint :: "string \<Rightarrow> string \<Rightarrow> string option \<Rightarrow> string" where
  "peer_endpoint scheme h port =
     scheme @ ''://'' @ h @ '':'' @
       (case port of Some (d # ds) \<Rightarrow> d # ds | _ \<Rightarrow> if scheme = ''ldaps'' then ''636'' else ''389'')"

lemma normalize_plain:
  assumes a: "plain_authority h port" and sch: "ToLower sch = scheme" "scheme = ''ldap'' \<or> scheme = ''ldaps''"
    and ws: "list_all is_space ws" "list_all is_space ws'"
  shows "normalizePeerURI (ws @ sch @ ''://'' @ h @ port_part port @ ws') = peer_endpoint scheme (ToLower h) port"
proof -
  let ?s = "sch @ ''://'' @ h @ port_part port"
  have letter: "is_letter c" if "is_letter (to_lower c)" for c
    using that by (auto simp: is_letter_def to_lower_def Let_def split: if_splits)
  have l: "list_all is_letter sch"
  proof -
    have "list_all is_letter scheme" using sch(2) by (auto simp: is_letter_def)
    then show ?thesis unfolding sch(1) [symmetric] ToLower_def using letter by (auto simp: list_all_iff)
  qed
  have ne: "sch \<noteq> []" using sch by (auto simp: ToLower_def)
  have "is_letter (hd sch)" using l ne by (cases sch) auto
  then have "\<not> is_space (hd ?s)" using ne plain_not by (cases sch) (auto simp: plain_char_def)
  moreover have "\<not> is_space (last ?s)"
  proof -
    have "last ?s \<in> set (h @ port_part port)" using a by (auto simp: plain_authority_def last_append)
    from authority_chars [OF a this] show ?thesis using plain_not by (auto simp: is_space_def)
  qed
  ultimately have trim: "TrimSpace (ws @ sch @ ''://'' @ h @ port_part port @ ws') = ?s"
    using TrimSpace_pad [OF ws, of ?s] by simp
  have "scheme \<noteq> ''http''" "scheme \<noteq> ''https''" using sch(2) by auto
  note parse = url_Parse_plain [OF a l ne sch(1) this] parseAuthority_plain(2) [OF a this]
  have "CHR '':'' \<notin> set (ToLower h)"
  proof -
    have "to_lower c \<noteq> CHR '':''" if "plain_char c" for c
    proof
      assume "to_lower c = CHR '':''"
      then have "(of_char (to_lower c) :: nat) = 58" by simp
      then show False
        using that by (auto simp: plain_char_def to_lower_def is_letter_def is_digit_def Let_def split: if_splits)
    qed
    then have "\<forall>c\<in>set h. to_lower c \<noteq> CHR '':''" using a by (simp add: plain_authority_def list_all_iff)
    then show ?thesis by (metis (no_types, lifting) ToLower_def imageE list.set_map)
  qed
  then have join: "JoinHostPort (ToLower h) x = ToLower h @ '':'' @ x" for x by (simp add: JoinHostPort_def)
  have ne: "?s \<noteq> ''''" "h @ port_part port \<noteq> ''''" using a by (simp_all add: plain_authority_def)
  have low: "ToLower scheme = scheme" using sch(1) by (metis ToLower_idem)
  show ?thesis
    unfolding normalizePeerURI_def trim Let_def if_not_P [OF ne(1)] parse(1) option.case prod.case
      if_not_P [OF ne(2)] parse(2) join low
    by (auto simp: peer_endpoint_def split: list.splits option.splits)
qed

lemma plain_authority_lower:
  assumes "plain_authority h port"
  obtains ds where "peer_endpoint scheme (ToLower h) port = scheme @ ''://'' @ ToLower h @ port_part (Some ds)"
    "plain_authority (ToLower h) (Some ds)" "ds \<noteq> []"
    "\<And>h'. peer_endpoint scheme h' (Some ds) = scheme @ ''://'' @ h' @ port_part (Some ds)"
proof -
  have low: "plain_char (to_lower c)" if "plain_char c" for c
    using that by (auto simp: plain_char_def to_lower_def is_letter_def is_digit_def Let_def of_char_of)
  have h: "ToLower h \<noteq> []" "list_all plain_char (ToLower h)"
    using assms low by (auto simp: plain_authority_def ToLower_def list_all_iff)
  define ds where "ds = (case port of Some (d # ds) \<Rightarrow> d # ds | _ \<Rightarrow> if scheme = ''ldaps'' then ''636'' else ''389'')"
  have "list_all is_digit ds \<and> ds \<noteq> []"
    using assms by (auto simp: ds_def plain_authority_def is_digit_def split: option.splits list.splits)
  then show ?thesis
    using that [of ds] h by (cases ds) (auto simp: peer_endpoint_def port_part_def plain_authority_def ds_def [symmetric])
qed

text \<open>C22. The spellings of a peer address that differ in the case of the scheme and the host, in a
  missing or empty port instead of the default one and in surrounding blanks collapse to one key,
  and the key itself is left as it is, so a peer is polled once.\<close>

theorem peer_spellings_collapse:
  assumes "plain_authority h port" and "ToLower sch = scheme" and "scheme = ''ldap'' \<or> scheme = ''ldaps''"
    and "list_all is_space ws" and "list_all is_space ws'"
  shows "normalizePeerURI (ws @ sch @ ''://'' @ h @ port_part port @ ws') = peer_endpoint scheme (ToLower h) port \<and>
    normalizePeerURI (peer_endpoint scheme (ToLower h) port) = peer_endpoint scheme (ToLower h) port"
proof
  show "normalizePeerURI (ws @ sch @ ''://'' @ h @ port_part port @ ws') = peer_endpoint scheme (ToLower h) port"
    by (rule normalize_plain [OF assms])
  obtain ds where ds: "peer_endpoint scheme (ToLower h) port = scheme @ ''://'' @ ToLower h @ port_part (Some ds)"
    "plain_authority (ToLower h) (Some ds)" "ds \<noteq> []"
    "\<And>h'. peer_endpoint scheme h' (Some ds) = scheme @ ''://'' @ h' @ port_part (Some ds)"
    using plain_authority_lower [OF assms(1), of scheme] by blast
  have "ToLower scheme = scheme" using assms(2) by (metis ToLower_idem)
  from normalize_plain [OF ds(2) this assms(3), of "[]" "[]"]
  show "normalizePeerURI (peer_endpoint scheme (ToLower h) port) = peer_endpoint scheme (ToLower h) port"
    unfolding ds(1) by (simp add: ds(4))
qed

lemma peer_spellings_collapse_witness:
  "normalizePeerURI '' LDAPS://Node2.org'' = ''ldaps://node2.org:636''"
  using peer_spellings_collapse [of "''Node2.org''" None "''LDAPS''" "''ldaps''" "'' ''" "[]"]
  by (simp add: plain_authority_def plain_char_def is_letter_def is_digit_def is_space_def ToLower_def to_lower_def
      port_part_def peer_endpoint_def char_of_def bit_simps Let_def)

end
