(* ===== verification/ReplicationProperties.thy ===== *)
theory ReplicationProperties
  imports PeerAddress CollectorProperties
begin

section \<open>Properties of the peer poller\<close>

text \<open>
  The live peers follow what discovery found, the published peer series belong to live peers, and a
  round publishes for every peer the distance to the most advanced node. A malformed contextCSN
  of one node ends the process.
\<close>

subsection \<open>Batches of gauge updates\<close>

lemma published_batch_other:
  assumes "\<And>c. c \<in> set cs \<Longrightarrow> \<exists>m' l v. c = GaugeSet m' l v \<and> (m', series_of T m' l) \<noteq> (m, S)"
  shows "published T (ds @ cs) m S = published T ds m S"
  using assms
proof (induction cs rule: rev_induct)
  case Nil
  then show ?case by simp
next
  case (snoc c cs)
  obtain m' l v where c: "c = GaugeSet m' l v" "(m', series_of T m' l) \<noteq> (m, S)" using snoc.prems [of c] by auto
  have "published T (ds @ cs) m S = published T ds m S" using snoc.IH snoc.prems by simp
  then show ?case using c by (auto simp: append_assoc [symmetric] apply_call_def simp del: append_assoc)
qed

lemma published_batch:
  assumes "\<And>c. c \<in> set cs \<Longrightarrow> \<exists>m l v. c = GaugeSet m l v"
    and "GaugeSet m l v \<in> set cs"
    and "\<And>l' v'. GaugeSet m l' v' \<in> set cs \<Longrightarrow> series_of T m l' = series_of T m l \<Longrightarrow> v' = v"
  shows "published T (ds @ cs) m (series_of T m l) = Some v"
  using assms
proof (induction cs rule: rev_induct)
  case Nil
  then show ?case by simp
next
  case (snoc c cs)
  obtain m' l' v' where c: "c = GaugeSet m' l' v'" using snoc.prems(1) [of c] by auto
  show ?case
  proof (cases "m' = m \<and> series_of T m l' = series_of T m l")
    case True
    then have "v' = v" using snoc.prems(3) [of l' v'] c by simp
    then show ?thesis using c True by (simp add: append_assoc [symmetric] apply_call_def del: append_assoc)
  next
    case False
    then have "GaugeSet m l v \<in> set cs" using snoc.prems(2) c by auto
    then have "published T (ds @ cs) m (series_of T m l) = Some v"
      by (rule snoc.IH [rotated]) (use snoc.prems(1,3) in auto)
    then show ?thesis using c False by (auto simp: append_assoc [symmetric] apply_call_def simp del: append_assoc)
  qed
qed

subsection \<open>The live peers\<close>

lemma buildPeerClient_ok: "\<exists>c. buildPeerClient cfg uri = Some c"
  by (simp add: buildPeerClient_def NewPooledLDAPClient_def NewConnectionPool_def
      NewConnectionPoolWithMonitoring_def NewConnectionPoolWithType_def DefaultPoolSize_def Let_def)

lemma add_peers_ok:
  assumes "distinct (map fst ps)"
  shows "\<exists>qs. add_peers cfg us ps = Some (ps @ qs) \<and> distinct (map fst (ps @ qs)) \<and>
    set (map fst (ps @ qs)) = set (map fst ps) \<union> set us \<and> (\<forall>x\<in>set qs. buildPeerClient cfg (fst x) = Some (snd x))"
  using assms
proof (induction us arbitrary: ps)
  case Nil
  then show ?case by (intro exI [of _ "[]"]) simp
next
  case (Cons u us)
  obtain c where c: "buildPeerClient cfg u = Some c" using buildPeerClient_ok by blast
  show ?case
  proof (cases "map_of ps u")
    case None
    then have u: "u \<notin> set (map fst ps)" by (simp add: map_of_eq_None_iff)
    have "distinct (map fst (ps @ [(u, c)]))" using Cons.prems u by auto
    from Cons.IH [OF this] obtain qs where
      "add_peers cfg us (ps @ [(u, c)]) = Some ((ps @ [(u, c)]) @ qs)" "distinct (map fst ((ps @ [(u, c)]) @ qs))"
      "set (map fst ((ps @ [(u, c)]) @ qs)) = set (map fst (ps @ [(u, c)])) \<union> set us"
      "\<forall>x\<in>set qs. buildPeerClient cfg (fst x) = Some (snd x)" by blast
    then show ?thesis using None c by (intro exI [of _ "(u, c) # qs"]) (simp add: Un_commute)
  next
    case (Some d)
    then have "u \<in> set (map fst ps)" by (metis map_of_eq_None_iff list.set_map option.discI)
    moreover obtain qs where "add_peers cfg us ps = Some (ps @ qs)" "distinct (map fst (ps @ qs))"
      "set (map fst (ps @ qs)) = set (map fst ps) \<union> set us" "\<forall>x\<in>set qs. buildPeerClient cfg (fst x) = Some (snd x)"
      using Cons.IH [OF Cons.prems] by blast
    ultimately show ?thesis using Some by (intro exI [of _ qs]) auto
  qed
qed

lemma remove_peers_eq:
  "fold (remove_peer net) us p =
     p\<lparr>p_ext := fold (closeNode net) us (p_ext p), peers := filter (\<lambda>x. fst x \<notin> set us) (peers p),
       p_calls := p_calls p @ concat (map prunePeerMetrics us)\<rparr>"
proof (induction us arbitrary: p)
  case Nil
  then show ?case by simp
next
  case (Cons u us)
  show ?case by (simp only: fold_simps Cons.IH) (simp add: remove_peer_def)
qed

lemma set_insert_name [simp]: "set (insert_name x xs) = insert x (set xs)"
  by (induction xs) auto

lemma set_foldr_insert_name [simp]: "set (foldr insert_name xs []) = set xs"
  by (induction xs) auto

lemma set_add_uri: "set (add_uri u us) = set us \<union> ({u} - {''''})"
  by (auto simp: add_uri_def)

lemma empty_not_added: "'''' \<notin> set us \<Longrightarrow> '''' \<notin> set (fold (\<lambda>x. add_uri (f x)) xs us)"
  by (induction xs arbitrary: us) (simp_all add: set_add_uri)

lemma discovered_nonempty: "discoverPeers net cfg loc s = ((uris, reliable), s') \<Longrightarrow> '''' \<notin> set uris"
  by (auto simp: discoverPeers_def Let_def empty_not_added split: if_splits prod.splits sum.splits)

text \<open>What a reconciliation does to the state.\<close>

lemma reconcile_cases:
  assumes d: "distinct (map fst (peers p))"
    and disc: "discoverPeers net (p_cfg p) (has_local p) (p_ext p) = ((uris, reliable), s)"
  obtains qs gone where
    "reconcilePeers net p = Some (p\<lparr>p_ext := fold (closeNode net) gone s,
        peers := filter (\<lambda>x. fst x \<notin> set gone) (peers p @ qs),
        p_calls := p_calls p @ concat (map prunePeerMetrics gone)\<rparr>)"
    "distinct (map fst (peers p @ qs))" "set (map fst (peers p @ qs)) = set (map fst (peers p)) \<union> set uris"
    "\<forall>x\<in>set qs. buildPeerClient (p_cfg p) (fst x) = Some (snd x)"
    "distinct gone" "set gone = (if reliable then set (map fst (peers p)) - set uris else {})"
proof -
  obtain qs where q: "add_peers (p_cfg p) uris (peers p) = Some (peers p @ qs)" "distinct (map fst (peers p @ qs))"
    "set (map fst (peers p @ qs)) = set (map fst (peers p)) \<union> set uris"
    "\<forall>x\<in>set qs. buildPeerClient (p_cfg p) (fst x) = Some (snd x)"
    using add_peers_ok [OF d] by blast
  define gone where "gone = (if reliable then filter (\<lambda>uri. uri \<notin> set uris) (map fst (peers p @ qs)) else [])"
  show ?thesis
  proof (rule that [of gone qs])
    show "reconcilePeers net p = Some (p\<lparr>p_ext := fold (closeNode net) gone s,
        peers := filter (\<lambda>x. fst x \<notin> set gone) (peers p @ qs),
        p_calls := p_calls p @ concat (map prunePeerMetrics gone)\<rparr>)"
      by (simp add: reconcilePeers_def disc q(1) Let_def remove_peers_eq gone_def)
    show "distinct gone" using distinct_filter [OF q(2)] by (simp only: gone_def distinct.simps split: if_split) simp
    show "set gone = (if reliable then set (map fst (peers p)) - set uris else {})"
      using q(3) by (auto simp: gone_def)
  qed (use q in simp_all)
qed


subsection \<open>Peer series belong to live peers\<close>

definition peer_vecs :: "metric set" where
  "peer_vecs = {ReplicationPeerUp, ReplicationPeerCSN, ReplicationPeerLag}"

definition peer_series_live :: "'s Poller \<Rightarrow> bool" where
  "peer_series_live p \<longleftrightarrow>
     (\<forall>m\<in>peer_vecs. \<forall>S. published NewOpenLDAPMetrics (p_calls p) m S \<noteq> None \<longrightarrow>
        (\<exists>u\<in>set (map fst (peers p)). (''peer'', u) \<in> S))"

definition poller_inv :: "'s Poller \<Rightarrow> bool" where
  "poller_inv p \<longleftrightarrow>
     distinct (map fst (peers p)) \<and> '''' \<notin> set (map fst (peers p)) \<and>
     (\<forall>x\<in>set (peers p). buildPeerClient (p_cfg p) (fst x) = Some (snd x)) \<and>
     list_all (call_ok NewOpenLDAPMetrics) (p_calls p) \<and> peer_series_live p"

lemma published_prune:
  "published T (cs @ concat (map prunePeerMetrics us)) m S =
     (if m \<in> peer_vecs \<and> (\<exists>u\<in>set us. (''peer'', u) \<in> S) then None else published T cs m S)"
proof (induction us rule: rev_induct)
  case Nil
  then show ?case by simp
next
  case (snoc u us)
  have "published T (cs @ concat (map prunePeerMetrics (us @ [u]))) m S =
    fold (apply_call T) (prunePeerMetrics u) (published T (cs @ concat (map prunePeerMetrics us))) m S"
    by (simp add: published_append)
  then have "published T (cs @ concat (map prunePeerMetrics (us @ [u]))) m S =
    (if m \<in> peer_vecs \<and> (''peer'', u) \<in> S then None else published T (cs @ concat (map prunePeerMetrics us)) m S)"
    by (auto simp: prunePeerMetrics_def apply_call_def peer_vecs_def Let_def)
  then show ?case by (auto simp: snoc)
qed

lemma reconcile_inv:
  assumes "poller_inv p" "reconcilePeers net p = Some p'" shows "poller_inv p'"
proof -
  obtain uris reliable s where disc: "discoverPeers net (p_cfg p) (has_local p) (p_ext p) = ((uris, reliable), s)"
    by (metis prod.exhaust)
  have d: "distinct (map fst (peers p))" using assms(1) by (simp add: poller_inv_def)
  obtain qs gone where r:
    "reconcilePeers net p = Some (p\<lparr>p_ext := fold (closeNode net) gone s,
        peers := filter (\<lambda>x. fst x \<notin> set gone) (peers p @ qs),
        p_calls := p_calls p @ concat (map prunePeerMetrics gone)\<rparr>)"
    "distinct (map fst (peers p @ qs))" "set (map fst (peers p @ qs)) = set (map fst (peers p)) \<union> set uris"
    "\<forall>x\<in>set qs. buildPeerClient (p_cfg p) (fst x) = Some (snd x)"
    by (rule reconcile_cases [OF d disc])
  have p': "peers p' = filter (\<lambda>x. fst x \<notin> set gone) (peers p @ qs)" "p_cfg p' = p_cfg p"
    "p_calls p' = p_calls p @ concat (map prunePeerMetrics gone)" using assms(2) r(1) by auto
  have "peer_series_live p'"
    unfolding peer_series_live_def
  proof (intro ballI allI impI)
    fix m S assume m: "m \<in> peer_vecs" and live: "published NewOpenLDAPMetrics (p_calls p') m S \<noteq> None"
    from live have n: "\<not> (\<exists>u\<in>set gone. (''peer'', u) \<in> S)" and
      "published NewOpenLDAPMetrics (p_calls p) m S \<noteq> None" using m by (auto simp: p' published_prune split: if_splits)
    then obtain u where "u \<in> set (map fst (peers p))" "(''peer'', u) \<in> S"
      using assms(1) m unfolding poller_inv_def peer_series_live_def by blast
    with n show "\<exists>u\<in>set (map fst (peers p')). (''peer'', u) \<in> S" by (auto simp: p' intro!: bexI [of _ u])
  qed
  moreover have "list_all (call_ok NewOpenLDAPMetrics) (p_calls p')"
    using assms(1) by (auto simp: p' poller_inv_def list_all_iff prunePeerMetrics_def Let_def)
  moreover have "distinct (map fst (peers p'))"
    unfolding p' by (rule distinct_map_filter [OF r(2)])
  moreover have "'''' \<notin> set (map fst (peers p'))"
    using assms(1) r(3) discovered_nonempty [OF disc] by (auto simp: p' poller_inv_def)
  ultimately show ?thesis using assms(1) r(4) by (auto simp: poller_inv_def p')
qed

lemma peer_calls_iff: "c \<in> set (peer_calls ref r) \<longleftrightarrow>
    peer r \<noteq> '''' \<and>
    (c = GaugeSet ReplicationPeerUp (WithLabelValues [peer r]) (if up r then f_of_int 1 else f_of_int 0) \<or>
     (\<exists>k ts. (k, ts) \<in> set (csns r) \<and>
        (c = GaugeSet ReplicationPeerCSN (WithLabelValues [peer r, fst k, snd k]) ts \<or>
         c = GaugeSet ReplicationPeerLag (WithLabelValues [peer r, fst k, snd k]) (csn_lag ref k ts))))"
  by (cases "peer r = ''''") (simp_all add: peer_calls_def split_def, metis fst_conv snd_conv prod.collapse)

lemma peer_series_of [simp]:
  "series_of NewOpenLDAPMetrics ReplicationPeerUp (WithLabelValues [u]) = {(''peer'', u)}"
  "series_of NewOpenLDAPMetrics ReplicationPeerCSN (WithLabelValues [u, b, i]) = {(''peer'', u), (''base_dn'', b), (''server_id'', i)}"
  "series_of NewOpenLDAPMetrics ReplicationPeerLag (WithLabelValues [u, b, i]) = {(''peer'', u), (''base_dn'', b), (''server_id'', i)}"
  by (simp_all add: series_of_def)

lemma peer_calls_gauge: "c \<in> set (peer_calls ref r) \<Longrightarrow>
    peer r \<noteq> '''' \<and> (\<exists>m l v. c = GaugeSet m l v \<and> m \<in> peer_vecs \<and> (''peer'', peer r) \<in> series_of NewOpenLDAPMetrics m l) \<and>
    call_ok NewOpenLDAPMetrics c"
  unfolding peer_calls_iff peer_vecs_def by (auto simp: labels_fit_def)

lemma published_gauges_live:
  assumes "\<And>c. c \<in> set cs \<Longrightarrow> \<exists>m' l v. c = GaugeSet m' l v"
    and "published T (ds @ cs) m S \<noteq> None"
  shows "published T ds m S \<noteq> None \<or> (\<exists>l v. GaugeSet m l v \<in> set cs \<and> S = series_of T m l)"
  using assms
proof (induction cs rule: rev_induct)
  case Nil
  then show ?case by simp
next
  case (snoc c cs)
  obtain m' l v where c: "c = GaugeSet m' l v" using snoc.prems(1) [of c] by auto
  then show ?case using snoc
    by (fastforce simp: append_assoc [symmetric] apply_call_def simp del: append_assoc split: if_splits)
qed

lemma gather_peers: "gather net us s = Some (rs, s') \<Longrightarrow> map peer rs = us"
  by (induction us arbitrary: s rs s') (auto split: option.splits prod.splits)

lemma poll_inv:
  assumes "poller_inv p" "poll net order p = Some p'" "set order \<subseteq> insert '''' (set (map fst (peers p)))"
  shows "poller_inv p'"
proof -
  obtain rs s where g: "gather net order (p_ext p) = Some (rs, s)" and
    p': "p' = p\<lparr>p_ext := s, p_calls := p_calls p @ concat (map (peer_calls (reference rs)) rs)\<rparr>"
    using assms(2) by (auto simp: poll_def Let_def split: if_splits option.splits)
  have peers: "peer r \<in> set (map fst (peers p))" if "r \<in> set rs" "peer r \<noteq> ''''" for r
    using gather_peers [OF g] assms(3) that by (metis imageI insertE list.set_map subsetD)
  have "peer_series_live p'"
    unfolding peer_series_live_def
  proof (intro ballI allI impI)
    fix m S assume m: "m \<in> peer_vecs" and "published NewOpenLDAPMetrics (p_calls p') m S \<noteq> None"
    then have "published NewOpenLDAPMetrics (p_calls p @ concat (map (peer_calls (reference rs)) rs)) m S \<noteq> None"
      by (simp add: p')
    from published_gauges_live [OF _ this] peer_calls_gauge consider
      (old) "published NewOpenLDAPMetrics (p_calls p) m S \<noteq> None"
      | (new) l v where "GaugeSet m l v \<in> set (concat (map (peer_calls (reference rs)) rs))" "S = series_of NewOpenLDAPMetrics m l"
      by fastforce
    then show "\<exists>u\<in>set (map fst (peers p')). (''peer'', u) \<in> S"
    proof cases
      case old
      then show ?thesis using assms(1) m unfolding poller_inv_def peer_series_live_def by (simp add: p')
    next
      case new
      then obtain r where r: "r \<in> set rs" "GaugeSet m l v \<in> set (peer_calls (reference rs) r)" by auto
      have "peer r \<in> set (map fst (peers p))" "(''peer'', peer r) \<in> S"
        using peer_calls_gauge [OF r(2)] peers [OF r(1)] new(2) by auto
      then show ?thesis by (intro bexI [of _ "peer r"]) (simp_all add: p')
    qed
  qed
  moreover have "list_all (call_ok NewOpenLDAPMetrics) (p_calls p')"
    using assms(1) peer_calls_gauge by (fastforce simp: p' poller_inv_def list_all_iff)
  ultimately show ?thesis using assms(1) by (auto simp: poller_inv_def p')
qed


definition fair_event :: "poller_event \<Rightarrow> bool" where
  "fair_event ev \<longleftrightarrow> (case ev of Fire sched \<Rightarrow> (\<forall>us. set (sched us) = set us) | StopSignal \<Rightarrow> True)"

lemma loop_event_inv:
  assumes "poller_inv p" "fair_event ev" "loop_event net ev p = Some p'" shows "poller_inv p'"
proof (cases ev)
  case (Fire sched)
  show ?thesis
  proof (cases "stopped p")
    case True
    then show ?thesis using assms Fire by simp
  next
    case False
    then obtain q where q: "reconcilePeers net p = Some q" "poll net (sched ('''' # map fst (peers q))) q = Some p'"
      using assms(3) Fire by (auto split: option.splits)
    have "set (sched ('''' # map fst (peers q))) \<subseteq> insert '''' (set (map fst (peers q)))"
      using assms(2) Fire by (simp add: fair_event_def)
    then show ?thesis by (rule poll_inv [OF reconcile_inv [OF assms(1) q(1)] q(2)])
  qed
next
  case StopSignal
  then have "p' = Poller_Stop net p" using assms(3) by simp
  then show ?thesis using assms(1) unfolding poller_inv_def peer_series_live_def by (simp add: Poller_Stop_def)
qed

lemma poller_loop_eq: "poller_loop net evs p = history (loop_event net) evs p"
  by (induction evs arbitrary: p) (simp_all only: poller_loop.simps history_Nil history_Cons cong: option.case_cong)

interpretation pl: fallible_machine "loop_event net" fair_event poller_inv for net
  by unfold_locales (rule loop_event_inv)

text \<open>C16. Whatever the servers answer, the peer gauges published at any moment all belong to peers that
  are polled now: no series of a removed peer lingers. The addresses of the peers are distinct and not empty (the
  empty one stands for the local node), each has the client built from the configuration for it, and the poller's
  calls of the metric library are well typed.\<close>

theorem peer_series_belong_to_peers:
  assumes "poller_loop net evs (NewPoller cfg loc s) = Some p"
    and "\<forall>ev\<in>set evs. case ev of Fire sched \<Rightarrow> \<forall>us. set (sched us) = set us | StopSignal \<Rightarrow> True"
  shows "distinct (map fst (peers p)) \<and> '''' \<notin> set (map fst (peers p)) \<and>
    (\<forall>x\<in>set (peers p). buildPeerClient (p_cfg p) (fst x) = Some (snd x)) \<and>
    list_all (call_ok NewOpenLDAPMetrics) (p_calls p) \<and>
    (\<forall>m\<in>{ReplicationPeerUp, ReplicationPeerCSN, ReplicationPeerLag}. \<forall>S.
       published NewOpenLDAPMetrics (p_calls p) m S \<noteq> None \<longrightarrow>
       (\<exists>u\<in>set (map fst (peers p)). (''peer'', u) \<in> S))"
proof -
  have "list_all fair_event evs" using assms(2) unfolding fair_event_def list_all_iff .
  moreover have "poller_inv (NewPoller cfg loc s)"
    by (simp add: poller_inv_def NewPoller_def peer_series_live_def)
  ultimately have "poller_inv p" by (rule pl.history_inv [OF assms(1) [unfolded poller_loop_eq]])
  then show ?thesis by (simp add: poller_inv_def peer_series_live_def peer_vecs_def)
qed

subsection \<open>Reconciliation follows discovery\<close>

text \<open>C12. A reconciliation always returns. When discovery could read cn=config, the live peers become
  exactly the discovered ones; when it could not, peers are only added, so a failed read never
  removes a peer. Peers that stay keep their client, and exactly the removed ones are closed.\<close>

theorem reconcile_follows_discovery:
  assumes "distinct (map fst (peers p))"
    and "discoverPeers net (p_cfg p) (has_local p) (p_ext p) = ((uris, reliable), s)"
  shows "\<exists>p' gone. reconcilePeers net p = Some p' \<and>
    set (map fst (peers p')) = (if reliable then set uris else set (map fst (peers p)) \<union> set uris) \<and>
    (\<forall>u\<in>set (map fst (peers p)) \<inter> set (map fst (peers p')). map_of (peers p') u = map_of (peers p) u) \<and>
    distinct gone \<and> set gone = set (map fst (peers p)) - set (map fst (peers p')) \<and>
    p_ext p' = fold (closeNode net) gone s"
proof -
  obtain qs gone where r:
    "reconcilePeers net p = Some (p\<lparr>p_ext := fold (closeNode net) gone s,
        peers := filter (\<lambda>x. fst x \<notin> set gone) (peers p @ qs),
        p_calls := p_calls p @ concat (map prunePeerMetrics gone)\<rparr>)" (is "_ = Some ?p")
    "distinct (map fst (peers p @ qs))" "set (map fst (peers p @ qs)) = set (map fst (peers p)) \<union> set uris"
    "distinct gone" "set gone = (if reliable then set (map fst (peers p)) - set uris else {})"
    by (rule reconcile_cases [OF assms])
  have live: "set (map fst (peers ?p)) = set (map fst (peers p @ qs)) - set gone" by auto
  have "map_of (peers ?p) u = map_of (peers p) u" if "u \<in> set (map fst (peers p)) \<inter> set (map fst (peers ?p))" for u
  proof -
    have "map_of (filter (\<lambda>x. fst x \<notin> set gone) xs) u = map_of xs u" if "u \<notin> set gone" for xs :: "(string \<times> (PooledLDAPClient \<times> ConnectionPool)) list"
      using that by (induction xs) auto
    moreover have "u \<notin> set gone" "u \<in> set (map fst (peers p))" using that live by auto
    ultimately show ?thesis
      by (simp add: map_add_def) (metis (no_types, lifting) filter_append map_add_dom_app_simps(2) map_add_def map_of_append
          map_of_eq_None_iff list.set_map option.case_eq_if option.exhaust_sel r(2) distinct_append map_append disjoint_iff)
  qed
  moreover have "set (map fst (peers ?p)) = (if reliable then set uris else set (map fst (peers p)) \<union> set uris)"
    unfolding live r(3) by (auto simp: r(5))
  moreover have "set gone = set (map fst (peers p)) - set (map fst (peers ?p))"
    unfolding live r(3) by (auto simp: r(5))
  moreover have "p_ext ?p = fold (closeNode net) gone s" by simp
  ultimately show ?thesis using r(1,4) by blast
qed


subsection \<open>What a round publishes\<close>

text \<open>Four-digit years keep the seconds of a time stamp exact as floating-point numbers.\<close>

lemma parse_time_exact:
  assumes "parse_time six zulu s = Some t" shows "exact_int (Unix t)"
proof -
  have "\<exists>c. (\<exists>s1. num 4 s = Some (c_year c, s1)) \<and> civil_ok c \<and> t = civil_time c"
    using assms unfolding parse_time_def Let_def
    by (auto split: option.splits prod.splits if_splits intro!: exI [of _ "civil_ext _ _ _ _ _ _ _ ()"])
  then obtain y s1 c where c: "num 4 s = Some (y, s1)" "c_year c = y" "civil_ok c" "t = civil_time c" by blast
  have y: "0 \<le> y" "y < 10000"
    using digits_val_bounds [of "take 4 s"] c(1) by (auto simp: num_def split: if_splits)
  have "- 366 \<le> days_before_year y" using y by (simp add: days_before_year_def)
  moreover have "days_before_year (y + 1) \<le> 366 * 10000"
    using days_before_year_upper [of "y + 1"] y by simp
  ultimately have d: "- 366 \<le> civil_days c" "civil_days c < 3660000"
    using civil_day_bounds(3,4) [OF c(3)] c(2) by auto
  have "(n * b + i) div b = n" if "0 \<le> i" "i < b" for n i b :: int using that by simp
  moreover have "0 \<le> c_nsec c" "c_nsec c < second" using c(3) by (simp_all add: civil_ok_def)
  ultimately have "t div second = ((civil_days c * 24 + c_hour c) * 60 + c_min c) * 60 + c_sec c"
    unfolding c(4) civil_time_def by blast
  then show ?thesis using d c(3) by (simp add: Unix_def exact_int_def civil_ok_def abs_le_iff)
qed

lemma csn_time_exact: "csn_time v = Some (Inr t) \<Longrightarrow> exact_int (Unix t)"
  by (auto simp: csn_time_def Let_def split: if_splits option.splits intro: parse_time_exact)

lemma csn_Parse_exact: "csn_Parse v = Some (Inr (t, sid)) \<Longrightarrow> exact_int (Unix t)"
  by (auto simp: csn_Parse_def Let_def split: if_splits option.splits sum.splits intro: csn_time_exact)

definition epoch :: "float64 \<Rightarrow> bool" where
  "epoch v \<longleftrightarrow> (\<exists>n. v = Fin (of_int n) \<and> exact_int n)"

definition good_csns :: "(csnKey \<times> float64) list \<Rightarrow> bool" where
  "good_csns m \<longleftrightarrow> distinct (map fst m) \<and> (\<forall>k v. map_of m k = Some v \<longrightarrow> epoch v)"

lemma epoch_zero: "epoch (f_of_int 0)"
  by (auto simp: epoch_def exact_int_def intro: exI [of _ 0])

lemma good_csnsD: "good_csns m \<Longrightarrow> map_of m k = Some v \<Longrightarrow> epoch v"
  unfolding good_csns_def by blast

lemma epoch_csn_at: "good_csns m \<Longrightarrow> epoch (csn_at m k)"
  using epoch_zero good_csnsD [of m k] by (cases "map_of m k") (simp_all add: csn_at_def)

lemma good_raise: "good_csns m \<Longrightarrow> epoch (snd x) \<Longrightarrow> good_csns (raise_csn x m)"
  by (auto simp: raise_csn_def good_csns_def distinct_update update_conv' simp del: map_of_eq_Some_iff split: if_splits)

lemma csn_at_raise: "csn_at (raise_csn x m) k =
    (if k = fst x \<and> f_lt (csn_at m k) (snd x) then snd x else csn_at m k)"
  by (auto simp: raise_csn_def csn_at_def update_conv')


lemma good_read_values: "good_csns m \<Longrightarrow> read_values sfx vs m = Some m' \<Longrightarrow> good_csns m'"
proof (induction sfx vs m rule: read_values.induct)
  case (2 sfx v vs m)
  show ?case
  proof (cases "csn_Parse v")
    case (Some res)
    then show ?thesis
    proof (cases res)
      case (Inr x)
      obtain ts sid where x: "x = (ts, sid)" by (cases x)
      have "epoch (f_of_int (Unix ts))"
        using csn_Parse_exact [of v ts sid] Some Inr x by (auto simp: epoch_def)
      then show ?thesis using 2 Some Inr x by (simp add: good_raise)
    qed (use 2 in simp)
  qed (use 2 in simp)
qed simp

lemma good_read_suffixes: "good_csns m \<Longrightarrow> read_suffixes cl sfxs m s = Some (m', s') \<Longrightarrow> good_csns m'"
  by (induction sfxs arbitrary: m s)
    (auto split: if_splits option.splits prod.splits sum.splits list.splits intro: good_read_values)

lemma good_gather: "gather net us s = Some (rs, s') \<Longrightarrow> r \<in> set rs \<Longrightarrow> good_csns (csns r)"
proof (induction us arbitrary: s rs)
  case (Cons u us)
  obtain m ok s1 rs1 where g: "readCSN (node net u) s = Some ((m, ok), s1)" "gather net us s1 = Some (rs1, s')"
    "rs = \<lparr>peer = u, csns = m, up = ok\<rparr> # rs1"
    using Cons.prems(1) by (auto split: option.splits prod.splits)
  have "good_csns []" by (simp add: good_csns_def)
  then have "good_csns m"
    using g(1) by (auto simp: readCSN_def split: prod.splits sum.splits list.splits option.splits intro: good_read_suffixes)
  then show ?case using Cons.IH [OF g(2)] Cons.prems(2) g(3) by auto
qed simp

text \<open>The reference is the maximum of the sources.\<close>

lemma csn_at_fold:
  assumes "epoch (csn_at m k)" "\<forall>x\<in>set xs. epoch (snd x)"
  shows "epoch (csn_at (fold raise_csn xs m) k) \<and> \<not> f_lt (csn_at (fold raise_csn xs m) k) (csn_at m k) \<and>
    (\<forall>v. (k, v) \<in> set xs \<longrightarrow> \<not> f_lt (csn_at (fold raise_csn xs m) k) v) \<and>
    (csn_at (fold raise_csn xs m) k = csn_at m k \<or> (k, csn_at (fold raise_csn xs m) k) \<in> set xs)"
  using assms
proof (induction xs arbitrary: m)
  case Nil
  then show ?case by (auto simp: epoch_def)
next
  case (Cons x xs)
  define m' where "m' = raise_csn x m"
  have e: "epoch (csn_at m' k)" "\<not> f_lt (csn_at m' k) (csn_at m k)" "k = fst x \<Longrightarrow> \<not> f_lt (csn_at m' k) (snd x)"
    "csn_at m' k = csn_at m k \<or> k = fst x \<and> csn_at m' k = snd x"
    using Cons.prems by (auto simp: m'_def csn_at_raise epoch_def)
  let ?z = "csn_at (fold raise_csn xs m') k"
  have ih: "epoch ?z" "\<not> f_lt ?z (csn_at m' k)" "\<forall>v. (k, v) \<in> set xs \<longrightarrow> \<not> f_lt ?z v"
    "?z = csn_at m' k \<or> (k, ?z) \<in> set xs"
    using Cons.IH [OF e(1)] Cons.prems(2) by auto
  have t: "\<not> f_lt a c" if "epoch a" "epoch b" "epoch c" "\<not> f_lt a b" "\<not> f_lt b c" for a b c
    using that by (auto simp: epoch_def)
  have "\<not> f_lt ?z (csn_at m k)" using t [OF ih(1) e(1) Cons.prems(1) ih(2) e(2)] .
  moreover have "\<not> f_lt ?z v" if "(k, v) \<in> set (x # xs)" for v
  proof (cases "(k, v) \<in> set xs")
    case False
    then have "x = (k, v)" using that by simp
    then show ?thesis using t [OF ih(1) e(1) _ ih(2)] e(3) Cons.prems(2) by simp
  qed (use ih(3) in blast)
  moreover have "?z = csn_at m k \<or> (k, ?z) \<in> set (x # xs)" using ih(4) e(4) by (cases x) auto
  ultimately show ?case using ih(1) by (simp add: m'_def)
qed

lemma reference_concat: "reference rs = fold raise_csn (concat (map csns rs)) []"
proof -
  have "fold (\<lambda>r m. fold raise_csn (csns r) m) rs m = fold raise_csn (concat (map csns rs)) m" for m
    by (induction rs arbitrary: m) simp_all
  then show ?thesis by (simp add: reference_def)
qed

lemma reference_max:
  assumes good: "\<forall>r\<in>set rs. good_csns (csns r)" and r: "r \<in> set rs" "map_of (csns r) k = Some (Fin (of_int n))" and n: "0 < n"
  obtains top where "csn_at (reference rs) k = Fin (of_int top)" "exact_int top" "n \<le> top"
    "\<exists>r'\<in>set rs. map_of (csns r') k = Some (Fin (of_int top))"
    "\<forall>r'\<in>set rs. \<forall>x. map_of (csns r') k = Some (Fin x) \<longrightarrow> x \<le> of_int top"
proof -
  have mem: "(k, v) \<in> set (csns r') \<longleftrightarrow> map_of (csns r') k = Some v" if "r' \<in> set rs" for r' v
    using good that by (simp add: good_csns_def)
  let ?xs = "concat (map csns rs)"
  have xs: "\<forall>x\<in>set ?xs. epoch (snd x)"
    using good mem unfolding good_csns_def by fastforce
  let ?z = "csn_at (reference rs) k"
  have "csn_at [] k = f_of_int 0" by (simp add: csn_at_def)
  then have z: "epoch ?z" "\<forall>v. (k, v) \<in> set ?xs \<longrightarrow> \<not> f_lt ?z v" "?z = f_of_int 0 \<or> (k, ?z) \<in> set ?xs"
    using csn_at_fold [of "[]" k ?xs] xs epoch_zero by (simp_all add: reference_concat)
  obtain top where top: "?z = Fin (of_int top)" "exact_int top" using z(1) by (auto simp: epoch_def)
  have above: "\<forall>r'\<in>set rs. \<forall>x. map_of (csns r') k = Some (Fin x) \<longrightarrow> x \<le> of_int top"
  proof (intro ballI allI impI)
    fix r' x assume "r' \<in> set rs" "map_of (csns r') k = Some (Fin x)"
    then have "(k, Fin x) \<in> set ?xs" using mem by auto
    then show "x \<le> of_int top" using z(2) top(1) by fastforce
  qed
  then have "n \<le> top" using r by fastforce
  moreover have "\<exists>r'\<in>set rs. map_of (csns r') k = Some (Fin (of_int top))"
  proof -
    have "?z \<noteq> f_of_int 0" using top(1) n \<open>n \<le> top\<close> by (simp add: exact_int_def)
    then show ?thesis using z(3) top(1) mem by auto
  qed
  ultimately show ?thesis using that top above by blast
qed


text \<open>Every epoch a node contributes is positive: a missing key reads as zero.\<close>

definition positive :: "(csnKey \<times> float64) list \<Rightarrow> bool" where
  "positive m \<longleftrightarrow> (\<forall>k v. map_of m k = Some v \<longrightarrow> f_lt (f_of_int 0) v)"

lemma positive_Nil: "positive []"
  by (simp add: positive_def)

lemma positive_raise:
  assumes "good_csns m" "epoch (snd x)" "positive m" shows "positive (raise_csn x m)"
  unfolding positive_def
proof (intro allI impI)
  fix k v assume v: "map_of (raise_csn x m) k = Some v"
  show "f_lt (f_of_int 0) v"
  proof (cases "f_lt (csn_at m (fst x)) (snd x) \<and> k = fst x")
    case True
    have "\<not> f_lt (csn_at m (fst x)) (f_of_int 0)"
      using assms(3) good_csnsD [OF assms(1)] unfolding positive_def csn_at_def
      by (cases "map_of m (fst x)") (fastforce simp: epoch_def exact_int_def)+
    moreover have "epoch (csn_at m (fst x))" by (rule epoch_csn_at [OF assms(1)])
    moreover have "v = snd x" using v True by (simp add: raise_csn_def update_conv')
    ultimately show ?thesis using True assms(2) by (auto simp: epoch_def exact_int_def)
  next
    case False
    then have "map_of m k = Some v" using v by (auto simp: raise_csn_def update_conv' split: if_splits)
    then show ?thesis using assms(3) unfolding positive_def by blast
  qed
qed

lemma positive_read_values: "good_csns m \<Longrightarrow> positive m \<Longrightarrow> read_values sfx vs m = Some m' \<Longrightarrow> positive m'"
proof (induction sfx vs m rule: read_values.induct)
  case (2 sfx v vs m)
  consider (bad) "csn_Parse v = None" | (skip) e where "csn_Parse v = Some (Inl e)"
    | (good) ts sid where "csn_Parse v = Some (Inr (ts, sid))"
    by (metis option.exhaust_sel sum.exhaust_sel prod.exhaust)
  then show ?case
  proof cases
    case good
    have "epoch (snd ((sfx, sid), f_of_int (Unix ts)))"
      using csn_Parse_exact [OF good] by (auto simp: epoch_def)
    then show ?thesis using 2 good good_raise positive_raise by (metis (no_types, lifting) old.prod.case option.simps(5) read_values.simps(2) sum.simps(6))
  qed (use 2 in simp_all)
qed simp

lemma positive_read_suffixes:
  "good_csns m \<Longrightarrow> positive m \<Longrightarrow> read_suffixes cl sfxs m s = Some (m', s') \<Longrightarrow> positive m'"
  by (induction sfxs arbitrary: m s)
    (auto split: if_splits option.splits prod.splits sum.splits list.splits
      intro: good_read_values positive_read_values)

lemma positive_gather: "gather net us s = Some (rs, s') \<Longrightarrow> r \<in> set rs \<Longrightarrow> positive (csns r)"
proof (induction us arbitrary: s rs)
  case (Cons u us)
  obtain m ok s1 rs1 where g: "readCSN (node net u) s = Some ((m, ok), s1)" "gather net us s1 = Some (rs1, s')"
    "rs = \<lparr>peer = u, csns = m, up = ok\<rparr> # rs1"
    using Cons.prems(1) by (auto split: option.splits prod.splits)
  have "good_csns []" by (simp add: good_csns_def)
  then have "positive m"
    using g(1) positive_Nil
    by (auto simp: readCSN_def split: prod.splits sum.splits list.splits option.splits intro: positive_read_suffixes)
  then show ?case using Cons.IH [OF g(2)] Cons.prems(2) g(3) by auto
qed simp

lemma gather_epochs:
  assumes "gather net us s = Some (rs, s')" "r \<in> set rs" "map_of (csns r) k = Some v"
  obtains n where "v = Fin (of_int n)" "exact_int n" "0 < n"
proof -
  have "epoch v" "f_lt (f_of_int 0) v"
    using good_csnsD [OF good_gather [OF assms(1,2)] assms(3)] positive_gather [OF assms(1,2)] assms(3)
    unfolding positive_def by blast+
  then show ?thesis using that by (auto simp: epoch_def exact_int_def)
qed

lemma csn_lag_exact:
  assumes "csn_at ref k = Fin (of_int newest)" "exact_int newest" "n \<le> newest" "0 < n"
  shows "csn_lag ref k (Fin (of_int n)) = Fin (of_int (newest - n))"
proof -
  have "exact_int (newest - n)" using assms by (simp add: exact_int_def)
  then have "round64 (of_int newest - of_int n) = Fin (of_int (newest - n))"
    using round64_int [of "newest - n"] by (simp only: of_int_diff)
  then have "f_sub (csn_at ref k) (Fin (of_int n)) = Fin (of_int (newest - n))"
    by (simp add: assms(1) f_sub_def)
  moreover have "\<not> f_lt (Fin (of_int (newest - n))) (f_of_int 0)" using assms(3) by (simp add: exact_int_def)
  ultimately show ?thesis by (simp add: csn_lag_def Let_def)
qed


text \<open>The calls of a round never write a series twice with different values.\<close>

lemma three_labels_eq:
  assumes "{(''peer'', u), (''base_dn'', b), (''server_id'', i)} = {(''peer'', u'), (''base_dn'', b'), (''server_id'', i')}"
  shows "u = u' \<and> b = b' \<and> i = i'"
proof -
  have "(''peer'', u) \<in> {(''peer'', u'), (''base_dn'', b'), (''server_id'', i')}"
    "(''base_dn'', b) \<in> {(''peer'', u'), (''base_dn'', b'), (''server_id'', i')}"
    "(''server_id'', i) \<in> {(''peer'', u'), (''base_dn'', b'), (''server_id'', i')}"
    unfolding assms [symmetric] by simp_all
  then show ?thesis by simp
qed

lemma peer_call_same_key:
  assumes "GaugeSet vec l v \<in> set (peer_calls ref r)" "GaugeSet vec l' v' \<in> set (peer_calls ref r')"
    and "series_of NewOpenLDAPMetrics vec l' = series_of NewOpenLDAPMetrics vec l"
  shows "peer r = peer r' \<and> (vec = ReplicationPeerUp \<and> v = (if up r then f_of_int 1 else f_of_int 0) \<and> v' = (if up r' then f_of_int 1 else f_of_int 0) \<or>
    (\<exists>k ts ts'. (k, ts) \<in> set (csns r) \<and> (k, ts') \<in> set (csns r') \<and>
       (v = ts \<and> v' = ts' \<or> v = csn_lag ref k ts \<and> v' = csn_lag ref k ts')))"
proof -
  consider (up) "vec = ReplicationPeerUp" | (csn) "vec = ReplicationPeerCSN" | (lag) "vec = ReplicationPeerLag"
    using assms(1) by (auto simp: peer_calls_iff)
  then show ?thesis
  proof cases
    case up
    then show ?thesis using assms by (simp add: peer_calls_iff)
  next
    case csn
    then obtain k k' where kv: "(k, v) \<in> set (csns r)" "l = WithLabelValues [peer r, fst k, snd k]"
      "(k', v') \<in> set (csns r')" "l' = WithLabelValues [peer r', fst k', snd k']"
      using assms(1,2) by (auto simp: peer_calls_iff)
    with assms(3) csn three_labels_eq [of "peer r'" "fst k'" "snd k'" "peer r" "fst k" "snd k"]
    have "peer r' = peer r" "k' = k" by (simp_all add: prod_eq_iff)
    then show ?thesis using kv by (intro conjI disjI2 exI [of _ k]) auto
  next
    case lag
    then obtain k k' ts ts' where kv: "(k, ts) \<in> set (csns r)" "l = WithLabelValues [peer r, fst k, snd k]" "v = csn_lag ref k ts"
      "(k', ts') \<in> set (csns r')" "l' = WithLabelValues [peer r', fst k', snd k']" "v' = csn_lag ref k' ts'"
      using assms(1,2) by (auto simp: peer_calls_iff)
    with assms(3) lag three_labels_eq [of "peer r'" "fst k'" "snd k'" "peer r" "fst k" "snd k"]
    have "peer r' = peer r" "k' = k" by (simp_all add: prod_eq_iff)
    then show ?thesis using kv by (intro conjI disjI2 exI [of _ k]) auto
  qed
qed

lemma round_publishes:
  assumes g: "gather net order s0 = Some (rs, s)" and d: "distinct order" and r: "r \<in> set rs"
    and c: "GaugeSet vec l v \<in> set (peer_calls ref r)"
  shows "published NewOpenLDAPMetrics (cs @ concat (map (peer_calls ref) rs)) vec (series_of NewOpenLDAPMetrics vec l) = Some v"
proof (rule published_batch)
  show "GaugeSet vec l v \<in> set (concat (map (peer_calls ref) rs))" using r c by auto
  show "\<exists>m l v. c = GaugeSet m l v" if "c \<in> set (concat (map (peer_calls ref) rs))" for c
    using that peer_calls_gauge by fastforce
  fix l' v' assume "GaugeSet vec l' v' \<in> set (concat (map (peer_calls ref) rs))"
    and s: "series_of NewOpenLDAPMetrics vec l' = series_of NewOpenLDAPMetrics vec l"
  then obtain r' where r': "r' \<in> set rs" and c': "GaugeSet vec l' v' \<in> set (peer_calls ref r')" by auto
  have same: "r' = r" if "peer r = peer r'"
    using gather_peers [OF g] d r r' that by (metis distinct_map inj_onD)
  have k: "distinct (map fst (csns r))" using good_gather [OF g r] by (simp add: good_csns_def)
  show "v' = v"
    using peer_call_same_key [OF c c' s] same eq_key_imp_eq_value [OF k] by metis
qed

text \<open>C11. After a round every polled peer has its reachability, and for each CSN it reported its own
  time stamp and its lag: the difference, exact to the second and never negative, between the
  newest time stamp that any node of the round (the local one included) reported for the same base
  DN and server ID, and its own.\<close>

theorem poll_publishes_lag:
  assumes "poll net order p = Some p'" "distinct order"
  shows "\<exists>rs s. gather net order (p_ext p) = Some (rs, s) \<and> map peer rs = order \<and>
    (\<forall>r\<in>set rs. peer r \<noteq> '''' \<longrightarrow>
      published NewOpenLDAPMetrics (p_calls p') ReplicationPeerUp {(''peer'', peer r)} =
        Some (if up r then f_of_int 1 else f_of_int 0) \<and>
      (\<forall>b i own. map_of (csns r) (b, i) = Some own \<longrightarrow>
        (\<exists>n newest. own = Fin (of_int n) \<and> n \<le> newest \<and>
          (\<exists>r'\<in>set rs. map_of (csns r') (b, i) = Some (Fin (of_int newest))) \<and>
          (\<forall>r'\<in>set rs. \<forall>x. map_of (csns r') (b, i) = Some (Fin x) \<longrightarrow> x \<le> of_int newest) \<and>
          published NewOpenLDAPMetrics (p_calls p') ReplicationPeerCSN
            {(''peer'', peer r), (''base_dn'', b), (''server_id'', i)} = Some own \<and>
          published NewOpenLDAPMetrics (p_calls p') ReplicationPeerLag
            {(''peer'', peer r), (''base_dn'', b), (''server_id'', i)} = Some (Fin (of_int (newest - n))))))"
proof -
  obtain rs s where g: "gather net order (p_ext p) = Some (rs, s)" and
    p': "p_calls p' = p_calls p @ concat (map (peer_calls (reference rs)) rs)"
    using assms(1) by (auto simp: poll_def Let_def split: if_splits option.splits)
  note pub = round_publishes [OF g assms(2), where ref = "reference rs" and cs = "p_calls p", folded p']
  have up: "published NewOpenLDAPMetrics (p_calls p') ReplicationPeerUp {(''peer'', peer r)} =
        Some (if up r then f_of_int 1 else f_of_int 0)" if "r \<in> set rs" "peer r \<noteq> ''''" for r
    using pub [OF that(1), of ReplicationPeerUp "WithLabelValues [peer r]" "if up r then f_of_int 1 else f_of_int 0"] that(2)
    by (simp add: peer_calls_iff)
  have "\<exists>n newest. own = Fin (of_int n) \<and> n \<le> newest \<and>
          (\<exists>r'\<in>set rs. map_of (csns r') (b, i) = Some (Fin (of_int newest))) \<and>
          (\<forall>r'\<in>set rs. \<forall>x. map_of (csns r') (b, i) = Some (Fin x) \<longrightarrow> x \<le> of_int newest) \<and>
          published NewOpenLDAPMetrics (p_calls p') ReplicationPeerCSN
            {(''peer'', peer r), (''base_dn'', b), (''server_id'', i)} = Some own \<and>
          published NewOpenLDAPMetrics (p_calls p') ReplicationPeerLag
            {(''peer'', peer r), (''base_dn'', b), (''server_id'', i)} = Some (Fin (of_int (newest - n)))"
    if r: "r \<in> set rs" and remote: "peer r \<noteq> ''''" and own: "map_of (csns r) (b, i) = Some own" for r b i own
  proof -
    obtain n where n: "own = Fin (of_int n)" "exact_int n" "0 < n" by (rule gather_epochs [OF g r own])
    obtain newest where t: "csn_at (reference rs) (b, i) = Fin (of_int newest)" "exact_int newest" "n \<le> newest"
      "\<exists>r'\<in>set rs. map_of (csns r') (b, i) = Some (Fin (of_int newest))"
      "\<forall>r'\<in>set rs. \<forall>x. map_of (csns r') (b, i) = Some (Fin x) \<longrightarrow> x \<le> of_int newest"
      by (rule reference_max [OF _ r own [unfolded n(1)] n(3)]) (use good_gather [OF g] in blast)
    have lag: "csn_lag (reference rs) (b, i) own = Fin (of_int (newest - n))"
      unfolding n(1) by (rule csn_lag_exact [OF t(1-3) n(3)])
    have "((b, i), own) \<in> set (csns r)" using own by (rule map_of_SomeD)
    then have "GaugeSet ReplicationPeerCSN (WithLabelValues [peer r, b, i]) own \<in> set (peer_calls (reference rs) r)"
      "GaugeSet ReplicationPeerLag (WithLabelValues [peer r, b, i]) (csn_lag (reference rs) (b, i) own) \<in> set (peer_calls (reference rs) r)"
      using remote by (fastforce simp: peer_calls_iff)+
    from pub [OF r this(1)] pub [OF r this(2)] show ?thesis unfolding lag peer_series_of using n(1) t(3-5) by blast
  qed
  with up g gather_peers [OF g] show ?thesis by blast
qed


subsection \<open>A malformed CSN\<close>

text \<open>
  A contextCSN whose time stamp has a Z before its first dot, in a value with the two separators
  the parser asks for.
\<close>

definition z_before_dot :: "string \<Rightarrow> bool" where
  "z_before_dot v \<longleftrightarrow>
     (let stamp = takeWhile (\<lambda>c. c \<noteq> CHR ''#'') v
      in CHR ''.'' \<in> set stamp \<and> CHR ''Z'' \<in> set (takeWhile (\<lambda>c. c \<noteq> CHR ''.'') stamp) \<and>
         2 \<le> length (filter (\<lambda>c. c = CHR ''#'') v))"

lemma IndexByte_negative: "IndexByte s c < 0 \<longleftrightarrow> c \<notin> set s"
  by (induction s) (auto simp: Let_def)

lemma IndexByte_nonneg: "c \<in> set s \<Longrightarrow> IndexByte s c = int (length (takeWhile (\<lambda>x. x \<noteq> c) s))"
  by (induction s) (auto simp: Let_def)

lemma takeWhile_shorter:
  "d \<in> set s \<Longrightarrow> z \<in> set s \<Longrightarrow> z \<noteq> d \<Longrightarrow>
     length (takeWhile (\<lambda>x. x \<noteq> z) s) < length (takeWhile (\<lambda>x. x \<noteq> d) s) + 1 \<longleftrightarrow> z \<in> set (takeWhile (\<lambda>x. x \<noteq> d) s)"
  by (induction s) auto

lemma csn_time_panics_iff:
  "csn_time s = None \<longleftrightarrow> CHR ''.'' \<in> set s \<and> CHR ''Z'' \<in> set (takeWhile (\<lambda>c. c \<noteq> CHR ''.'') s)"
proof -
  have z: "CHR ''Z'' \<in> set (takeWhile (\<lambda>c. c \<noteq> CHR ''.'') s) \<Longrightarrow> CHR ''Z'' \<in> set s" by (rule set_takeWhileD [THEN conjunct1])
  consider "CHR ''.'' \<notin> set s" | "CHR ''.'' \<in> set s" "CHR ''Z'' \<notin> set s" | "CHR ''.'' \<in> set s" "CHR ''Z'' \<in> set s" by blast
  then show ?thesis
  proof cases
    case 1
    then have "\<not> 0 \<le> IndexByte s CHR ''.''" using IndexByte_negative [of s "CHR ''.''"] by linarith
    then show ?thesis using 1 by (auto simp: csn_time_def Let_def split: option.splits)
  next
    case 2
    then have "IndexByte s CHR ''Z'' < 0" by (simp add: IndexByte_negative)
    then show ?thesis using 2 z by (auto simp: csn_time_def Let_def split: option.splits)
  next
    case 3
    note l = IndexByte_nonneg [OF 3(1)] IndexByte_nonneg [OF 3(2)]
    have "int (length (takeWhile (\<lambda>x. x \<noteq> CHR ''Z'') s)) < int (length (takeWhile (\<lambda>x. x \<noteq> CHR ''.'') s)) + 1 \<longleftrightarrow>
        CHR ''Z'' \<in> set (takeWhile (\<lambda>x. x \<noteq> CHR ''.'') s)"
      using takeWhile_shorter [OF 3] by auto
    then show ?thesis using 3 by (auto simp: csn_time_def Let_def l split: option.splits)
  qed
qed

lemma SplitN_components:
  "3 \<le> length (SplitN v c 4) \<longleftrightarrow> 2 \<le> length (filter (\<lambda>x. x = c) v)"
  "SplitN v c 4 ! 0 = takeWhile (\<lambda>x. x \<noteq> c) v"
proof -
  have four: "(4 :: nat) = Suc (Suc (Suc (Suc 0)))" by simp
  have f: "filter (\<lambda>x. x = c) s = filter (\<lambda>x. x = c) (dropWhile (\<lambda>x. x \<noteq> c) s)" for s by (induction s) auto
  have d: "hd (dropWhile (\<lambda>x. x \<noteq> c) s) = c" if "dropWhile (\<lambda>x. x \<noteq> c) s \<noteq> []" for s
    using hd_dropWhile [OF that] by simp
  have step: "length (filter (\<lambda>x. x = c) s) =
      (if dropWhile (\<lambda>x. x \<noteq> c) s = [] then 0 else Suc (length (filter (\<lambda>x. x = c) (tl (dropWhile (\<lambda>x. x \<noteq> c) s)))))" for s
    using d [of s] f [of s] by (cases "dropWhile (\<lambda>x. x \<noteq> c) s") (simp_all del: dropWhile_eq_Nil_conv)
  have split: "SplitN v c 4 = takeWhile (\<lambda>x. x \<noteq> c) v #
      (if dropWhile (\<lambda>x. x \<noteq> c) v = [] then [] else SplitN (tl (dropWhile (\<lambda>x. x \<noteq> c) v)) c (Suc (Suc (Suc 0))))"
    unfolding four by (subst SplitN.simps(3)) (simp only: Let_def if_distrib [of "(#) _"])
  have more: "2 \<le> length (SplitN s c (Suc (Suc (Suc 0)))) \<longleftrightarrow> dropWhile (\<lambda>x. x \<noteq> c) s \<noteq> []" for s
    by (subst SplitN.simps(3)) (simp add: Let_def del: dropWhile_eq_Nil_conv)
  define r1 where "r1 = dropWhile (\<lambda>x. x \<noteq> c) v"
  define r2 where "r2 = dropWhile (\<lambda>x. x \<noteq> c) (tl r1)"
  have "2 \<le> length (filter (\<lambda>x. x = c) v) \<longleftrightarrow> r1 \<noteq> [] \<and> r2 \<noteq> []"
    unfolding step [of v, folded r1_def] step [of "tl r1", folded r2_def] by simp
  moreover have "3 \<le> length (SplitN v c 4) \<longleftrightarrow> r1 \<noteq> [] \<and> r2 \<noteq> []"
    using more [of "tl r1", folded r2_def] unfolding split [folded r1_def] by simp
  ultimately show "3 \<le> length (SplitN v c 4) \<longleftrightarrow> 2 \<le> length (filter (\<lambda>x. x = c) v)" by simp
  show "SplitN v c 4 ! 0 = takeWhile (\<lambda>x. x \<noteq> c) v" by (simp only: split nth_Cons_0)
qed

text \<open>The parser panics on exactly these values.\<close>

lemma csn_panics_iff: "csn_Parse v = None \<longleftrightarrow> z_before_dot v"
  using SplitN_components [of v "CHR ''#''"] csn_time_panics_iff [of "takeWhile (\<lambda>c. c \<noteq> CHR ''#'') v"]
  by (auto simp: csn_Parse_def z_before_dot_def Let_def split: option.splits sum.splits)

lemma read_values_panics: "\<exists>v\<in>set vs. z_before_dot v \<Longrightarrow> read_values sfx vs m = None"
  by (induction vs arbitrary: m) (auto simp: csn_panics_iff [symmetric] split: option.splits sum.splits)

lemma read_suffixes_panics:
  assumes "sfx \<in> set sfxs" and "\<not> HasPrefix (ToLower sfx) ''cn=''"
    and "\<And>s. \<exists>e es s'. cl_SearchContextCSN cl sfx s = (Inr (e # es), s') \<and> (\<exists>v\<in>set (entry_values ''contextCSN'' e). z_before_dot v)"
  shows "read_suffixes cl sfxs m s = None"
  using assms(1)
proof (induction sfxs arbitrary: m s)
  case (Cons x xs)
  show ?case
  proof (cases "x = sfx")
    case True
    obtain e es s' where "cl_SearchContextCSN cl sfx s = (Inr (e # es), s')"
      "\<exists>v\<in>set (entry_values ''contextCSN'' e). z_before_dot v" using assms(3) by blast
    then show ?thesis using True assms(2) read_values_panics by simp
  next
    case False
    then show ?thesis using Cons by (auto split: prod.splits sum.splits list.splits option.splits)
  qed
qed simp

lemma gather_panics: "u \<in> set us \<Longrightarrow> (\<And>s. readCSN (node net u) s = None) \<Longrightarrow> gather net us s = None"
  by (induction us arbitrary: s) (auto split: option.splits prod.splits)

text \<open>C34. A node of the round, local or a peer, that names a data suffix and answers the search of that
  suffix, whenever it is asked, with a contextCSN value whose Z stands before its dot, among any
  other values: the slice expression of the CSN parser panics on that value in the reader of the node, which takes
  the whole process down. The round does not return, whatever the other suffixes and the other nodes answer.\<close>

theorem malformed_csn_stops_poller:
  assumes "u \<in> set order" and "\<not> HasPrefix (ToLower sfx) ''cn=''"
    and "\<forall>s. \<exists>e es s'. cl_SearchRootDSE (node net u) [''namingContexts''] s = (Inr (e # es), s') \<and>
           sfx \<in> set (entry_values ''namingContexts'' e)"
    and "\<forall>s. \<exists>e es s'. cl_SearchContextCSN (node net u) sfx s = (Inr (e # es), s') \<and>
           (\<exists>v\<in>set (entry_values ''contextCSN'' e). z_before_dot v)"
  shows "poll net order p = None"
proof -
  have "readCSN (node net u) s = None" for s
  proof -
    obtain e es s1 where 1: "cl_SearchRootDSE (node net u) [''namingContexts''] s = (Inr (e # es), s1)"
      "sfx \<in> set (entry_values ''namingContexts'' e)" using assms(3) by blast
    have "read_suffixes (node net u) (entry_values ''namingContexts'' e) [] s1 = None"
      by (rule read_suffixes_panics [OF 1(2) assms(2)]) (use assms(4) in blast)
    then show ?thesis using 1(1) by (simp add: readCSN_def)
  qed
  then have "gather net order (p_ext p) = None" by (rule gather_panics [OF assms(1)])
  then show ?thesis by (simp add: poll_def)
qed

subsection \<open>A concrete network\<close>

definition demo_node :: "string list \<Rightarrow> string \<Rightarrow> nat Client" where
  "demo_node providers v =
     quiet_client
       \<lparr>cl_SearchContextCSN := (\<lambda>_ s. (Inr [plain_entry ''dc=x'' [(''contextCSN'', [v])]], s)),
        cl_SearchConfig := (\<lambda>_ _ s. (Inr [plain_entry ''olcDatabase=mdb,cn=config'' [(''olcSyncrepl'', providers)]], s)),
        cl_SearchRootDSE := (\<lambda>_ s. (Inr [plain_entry '''' [(''namingContexts'', [''dc=x''])]], s))\<rparr>"

definition demo_net :: "string list \<Rightarrow> string \<Rightarrow> nat Network" where
  "demo_net providers v =
     \<lparr>node = (\<lambda>u. if u = '''' then demo_node providers ''20260101000010Z#000000#001#000000'' else demo_node [] v),
      closeNode = (\<lambda>_ s. s)\<rparr>"

lemma malformed_csn_stops_poller_witness:
  "poll (demo_net [] ''20260101000000Z.5#000000#001#000000'') ['''', ''ldap://b:389''] (NewPoller zero_config True 0) = None"
proof (rule malformed_csn_stops_poller [where u = "''ldap://b:389''" and sfx = "''dc=x''"])
  have "z_before_dot ''20260101000000Z.5#000000#001#000000''" by code_simp
  then show "\<forall>s. \<exists>e es s'. cl_SearchContextCSN (node (demo_net [] ''20260101000000Z.5#000000#001#000000'') ''ldap://b:389'') ''dc=x'' s =
      (Inr (e # es), s') \<and> (\<exists>v\<in>set (entry_values ''contextCSN'' e). z_before_dot v)"
    by (simp add: demo_net_def demo_node_def plain_entry_def entry_values_def)
qed (simp_all add: demo_net_def demo_node_def plain_entry_def entry_values_def HasPrefix_def ToLower_def to_lower_def)

lemma demo_uri: "normalizePeerURI (parseProviderURI ''rid=1 provider=ldap://B'') = ''ldap://b:389''" by code_simp

lemma demo_csn:
  "csn_Parse ''20260101000003Z#000000#001#000000'' = Some (Inr (63902822403000000000, ''001''))"
  "csn_Parse ''20260101000010Z#000000#001#000000'' = Some (Inr (63902822410000000000, ''001''))"
  by code_simp+

lemma demo_discover:
  "discoverPeers (demo_net [''rid=1 provider=ldap://B''] v) zero_config True s = (([''ldap://b:389''], True), s)"
  by (simp add: discoverPeers_def demo_net_def demo_node_def plain_entry_def entry_values_def demo_uri add_uri_def zero_config_def)

lemma demo_gather:
  "gather (demo_net ps ''20260101000003Z#000000#001#000000'') ['''', ''ldap://b:389''] s =
     Some ([\<lparr>peer = '''', csns = [((''dc=x'', ''001''), Fin 1767225610)], up = True\<rparr>,
            \<lparr>peer = ''ldap://b:389'', csns = [((''dc=x'', ''001''), Fin 1767225603)], up = True\<rparr>], s)"
  by (simp add: readCSN_def demo_net_def demo_node_def plain_entry_def entry_values_def demo_csn raise_csn_def csn_at_def
      Unix_def second_def exact_int_def HasPrefix_def ToLower_def to_lower_def)

definition stale_poller :: "nat Poller" where
  "stale_poller = (NewPoller zero_config True 0)
     \<lparr>peers := [(''ldap://c:389'', the (buildPeerClient zero_config ''ldap://c:389''))]\<rparr>"

lemma reconcile_follows_discovery_witness:
  "\<exists>p'. reconcilePeers (demo_net [''rid=1 provider=ldap://B''] '''') stale_poller = Some p' \<and>
     set (map fst (peers p')) = {''ldap://b:389''}"
  using reconcile_follows_discovery
    [of stale_poller "demo_net [''rid=1 provider=ldap://B''] ''''" "[''ldap://b:389'']" True 0]
  by (auto simp: stale_poller_def NewPoller_def demo_discover)

lemma poll_publishes_lag_witness:
  "\<exists>p'. poll (demo_net [] ''20260101000003Z#000000#001#000000'') ['''', ''ldap://b:389''] (NewPoller zero_config True 0) = Some p' \<and>
     published NewOpenLDAPMetrics (p_calls p') ReplicationPeerLag
       {(''peer'', ''ldap://b:389''), (''base_dn'', ''dc=x''), (''server_id'', ''001'')} = Some (Fin 7)"
proof -
  let ?net = "demo_net [] ''20260101000003Z#000000#001#000000''"
  obtain p' where p': "poll ?net ['''', ''ldap://b:389''] (NewPoller zero_config True 0) = Some p'"
    by (simp add: poll_def demo_gather NewPoller_def Let_def del: gather.simps)
  have "published NewOpenLDAPMetrics (p_calls p') ReplicationPeerLag
       {(''peer'', ''ldap://b:389''), (''base_dn'', ''dc=x''), (''server_id'', ''001'')} = Some (Fin 7)"
    using poll_publishes_lag [OF p'] by (simp add: demo_gather del: gather.simps)
      (drule conjunct2, drule spec [of _ "''dc=x''"], drule spec [of _ "''001''"], drule spec [of _ "Fin 1767225603"], auto)
  then show ?thesis using p' by blast
qed

lemma peer_series_belong_to_peers_witness:
  "\<exists>p. poller_loop (demo_net [''rid=1 provider=ldap://B''] ''20260101000003Z#000000#001#000000'')
     [Fire id] (NewPoller zero_config True 0) = Some p \<and>
     {S. published NewOpenLDAPMetrics (p_calls p) ReplicationPeerLag S \<noteq> None} \<subseteq>
     (\<Union>u\<in>set (map fst (peers p)). {S. (''peer'', u) \<in> S})"
proof -
  obtain c where c: "buildPeerClient zero_config ''ldap://b:389'' = Some c" using buildPeerClient_ok by blast
  obtain p where p: "poller_loop (demo_net [''rid=1 provider=ldap://B''] ''20260101000003Z#000000#001#000000'')
     [Fire id] (NewPoller zero_config True 0) = Some p"
    by (simp add: NewPoller_def reconcilePeers_def demo_discover c poll_def demo_gather Let_def del: gather.simps)
  from peer_series_belong_to_peers [OF this] have "\<forall>m\<in>{ReplicationPeerUp, ReplicationPeerCSN, ReplicationPeerLag}. \<forall>S.
       published NewOpenLDAPMetrics (p_calls p) m S \<noteq> None \<longrightarrow>
       (\<exists>u\<in>set (map fst (peers p)). (''peer'', u) \<in> S)" by simp
  then have "{S. published NewOpenLDAPMetrics (p_calls p) ReplicationPeerLag S \<noteq> None} \<subseteq>
     (\<Union>u\<in>set (map fst (peers p)). {S. (''peer'', u) \<in> S})" by blast
  then show ?thesis using p by blast
qed

end
