(* ===== verification/Logger.thy ===== *)
theory Logger
  imports GoStrings "HOL-Library.AList"
begin

section \<open>Logging without secrets (pkg/logger)\<close>

text \<open>
  logger.go: the fields and errors of a log call are sanitized before zerolog writes them. A log
  call is the value handed to zerolog; the pool of maps is a list of maps. The regular expressions
  of the file are sequences of items over sets of bytes; matching is leftmost-first as in Go. Case
  folding is that of ASCII (Go also folds U+017F and U+212A).
\<close>

subsection \<open>Regular expressions\<close>

datatype item =
    One "char \<Rightarrow> bool"
  | Opt "char \<Rightarrow> bool"
  | Many "char \<Rightarrow> bool"
  | Plus "char \<Rightarrow> bool"

text \<open>\<open>longest k n f\<close> tries the lengths \<open>n, n - 1, \<dots>, k\<close> of a repetition.\<close>

fun longest :: "nat \<Rightarrow> nat \<Rightarrow> (nat \<Rightarrow> 'a option) \<Rightarrow> 'a option" where
  "longest k n f =
     (if n < k then None
      else case f n of Some x \<Rightarrow> Some x | None \<Rightarrow> if n = 0 then None else longest k (n - 1) f)"

declare longest.simps [simp del]

text \<open>The result is what each item matched, and the text after the match.\<close>

definition run_length :: "(char \<Rightarrow> bool) \<Rightarrow> string \<Rightarrow> nat" where
  "run_length P s = length (takeWhile P s)"

definition cut_at :: "(string list \<times> string) option \<Rightarrow> string \<Rightarrow> (string list \<times> string) option" where
  "cut_at r seg = (case r of None \<Rightarrow> None | Some (segs, rest) \<Rightarrow> Some (seg # segs, rest))"

fun match :: "item list \<Rightarrow> string \<Rightarrow> (string list \<times> string) option" where
  "match [] s = Some ([], s)"
| "match (One P # rs) s =
     (case s of [] \<Rightarrow> None | c # t \<Rightarrow> if P c then cut_at (match rs t) [c] else None)"
| "match (Opt P # rs) s =
     longest 0 (min 1 (run_length P s)) (\<lambda>n. cut_at (match rs (drop n s)) (take n s))"
| "match (Many P # rs) s = longest 0 (run_length P s) (\<lambda>n. cut_at (match rs (drop n s)) (take n s))"
| "match (Plus P # rs) s = longest 1 (run_length P s) (\<lambda>n. cut_at (match rs (drop n s)) (take n s))"

definition MatchString :: "item list \<Rightarrow> string \<Rightarrow> bool" where
  "MatchString p s \<longleftrightarrow> list_ex (\<lambda>n. match p (drop n s) \<noteq> None) [0..<Suc (length s)]"

text \<open>\<open>ReplaceAllString\<close> for patterns that never match the empty string.\<close>

function ReplaceAllString :: "item list \<Rightarrow> (string list \<Rightarrow> string) \<Rightarrow> string \<Rightarrow> string" where
  "ReplaceAllString p f [] = []"
| "ReplaceAllString p f (c # s) =
     (case match p (c # s) of
        None \<Rightarrow> c # ReplaceAllString p f s
      | Some (segs, rest) \<Rightarrow>
          if length rest \<le> length s then f segs @ ReplaceAllString p f rest else c # ReplaceAllString p f s)"
  by pat_completeness auto
termination by (relation "measure (\<lambda>(p, f, s). length s)") auto

definition literal :: "string \<Rightarrow> item list" where
  "literal s = map (\<lambda>c. One (\<lambda>x. x = c)) s"

definition fold_literal :: "string \<Rightarrow> item list" where
  "fold_literal s = map (\<lambda>c. One (\<lambda>x. to_lower x = to_lower c)) s"

definition re_space :: "char \<Rightarrow> bool" where
  "re_space c \<longleftrightarrow> (let n = of_char c :: nat in n = 32 \<or> n = 9 \<or> n = 10 \<or> n = 12 \<or> n = 13)"

definition re_dot :: "char \<Rightarrow> bool" where
  "re_dot c \<longleftrightarrow> (of_char c :: nat) \<noteq> 10"

subsection \<open>Sanitizing\<close>

definition sensitiveFields :: "string list" where
  "sensitiveFields =
     [''password'', ''passwd'', ''pwd'', ''secret'', ''token'', ''key'', ''auth'',
      ''credential'', ''pass'', ''userPassword'', ''userpassword'']"

definition credentialURLPattern :: "item list" where
  "credentialURLPattern =
     literal ''ldap'' @ [Opt (\<lambda>c. c = CHR ''s'')] @ literal ''://'' @
     [Plus (\<lambda>c. c \<noteq> CHR '':'')] @ literal '':'' @ [Plus (\<lambda>c. c \<noteq> CHR ''@'')] @ literal ''@'' @ [Plus re_dot]"

definition value_pattern :: "string \<Rightarrow> item list" where
  "value_pattern word =
     fold_literal word @ [One (\<lambda>c. c = CHR ''='' \<or> c = CHR '':''), Many re_space, Plus (\<lambda>c. \<not> re_space c)]"

definition passwordPatterns :: "item list list" where
  "passwordPatterns = map value_pattern [''password'', ''passwd'', ''pwd'', ''token'', ''secret'', ''key'']"

definition bindPattern :: "item list" where
  "bindPattern =
     fold_literal ''bind'' @ [Plus re_space] @ fold_literal ''failed'' @ [Many re_dot] @
     fold_literal ''password:'' @ [Many re_space, Plus (\<lambda>c. \<not> re_space c)]"

definition REDACTED :: string where "REDACTED = ''***REDACTED***''"

text \<open>The groups 1, 2 and 4 of the URL pattern are the items 0 to 7, 8 and 12.\<close>

definition sanitizeURL :: "string \<Rightarrow> string" where
  "sanitizeURL url =
     (if MatchString credentialURLPattern url
      then ReplaceAllString credentialURLPattern
             (\<lambda>segs. concat (take 8 segs) @ segs ! 8 @ '':***@'' @ segs ! 12) url
      else url)"

definition dn_pattern :: "string \<Rightarrow> item list" where
  "dn_pattern attr = fold_literal attr @ literal ''='' @ [Many (\<lambda>c. c \<noteq> CHR '',''), Opt (\<lambda>c. c = CHR '','')]"

definition sanitizeDN :: "string \<Rightarrow> string" where
  "sanitizeDN dn =
     TrimSuffix (fold (\<lambda>attr. ReplaceAllString (dn_pattern attr) (\<lambda>_. ''''))
       [''userPassword'', ''userpassword'', ''password''] dn) '',''"

text \<open>A field is a string or a value of another type, which only passes through.\<close>

datatype 'v field = Str string | Other 'v

definition sanitizeValue :: "string \<Rightarrow> 'v field \<Rightarrow> 'v field" where
  "sanitizeValue key v =
     (let keyLower = ToLower key
      in if list_ex (Contains keyLower) sensitiveFields then Str REDACTED
         else case v of
                Other x \<Rightarrow> v
              | Str strValue \<Rightarrow>
                  if Contains keyLower ''url'' \<or> Contains keyLower ''uri'' then Str (sanitizeURL strValue)
                  else if Contains keyLower ''dn'' \<and> Contains strValue ''userPassword'' then Str (sanitizeDN strValue)
                  else v)"

definition sanitizeError :: "string option \<Rightarrow> string option" where
  "sanitizeError err =
     (case err of
        None \<Rightarrow> None
      | Some msg \<Rightarrow>
          let msg = sanitizeURL msg;
              msg = fold (\<lambda>p. ReplaceAllString p (\<lambda>_. REDACTED)) passwordPatterns msg
          in Some (ReplaceAllString bindPattern (\<lambda>segs. concat (butlast segs) @ REDACTED) msg))"

subsection \<open>Log calls and the pool of maps\<close>

type_synonym 'v fields = "(string \<times> 'v field) list"

definition getMapFromPool :: "'v fields list \<Rightarrow> 'v fields \<times> 'v fields list" where
  "getMapFromPool pool =
     (case pool of
        [] \<Rightarrow> ([], [])
      | m # ms \<Rightarrow> (filter (\<lambda>_. False) m, ms))" \<comment> \<open>\<open>clear\<close> removes every entry\<close>

text \<open>A nil map is \<open>None\<close>.\<close>

definition putMapToPool :: "'v fields option \<Rightarrow> 'v fields list \<Rightarrow> 'v fields list" where
  "putMapToPool m pool = (case m of None \<Rightarrow> pool | Some m \<Rightarrow> m # pool)"

definition sanitizeFields :: "'v fields option \<Rightarrow> 'v fields list \<Rightarrow> 'v fields option \<times> 'v fields list" where
  "sanitizeFields fs pool =
     (case fs of
        None \<Rightarrow> (None, pool)
      | Some fs \<Rightarrow>
          let (sanitized, pool) = getMapFromPool pool
          in (Some (fold (\<lambda>x. AList.update (fst x) (sanitizeValue (fst x) (snd x))) fs sanitized), pool))"

datatype level = DebugLevel | InfoLevel | WarnLevel | ErrorLevel | FatalLevel

text \<open>Levels are ordered as zerolog numbers them; an entry is written from the global level upwards.\<close>

fun level_code :: "level \<Rightarrow> int" where
  "level_code DebugLevel = 0"
| "level_code InfoLevel = 1"
| "level_code WarnLevel = 2"
| "level_code ErrorLevel = 3"
| "level_code FatalLevel = 4"

lemma level_code_inj: "level_code a = level_code b \<Longrightarrow> a = b"
  by (cases a; cases b) simp_all

instantiation level :: linorder
begin

definition less_eq_level :: "level \<Rightarrow> level \<Rightarrow> bool" where
  "less_eq_level a b \<longleftrightarrow> level_code a \<le> level_code b"

definition less_level :: "level \<Rightarrow> level \<Rightarrow> bool" where
  "less_level a b \<longleftrightarrow> level_code a < level_code b"

instance
  by standard (auto simp: less_eq_level_def less_level_def intro: level_code_inj)

end

record 'v log_call =
  lc_level :: level
  lc_package :: string
  lc_error :: "string option"
  lc_fields :: "'v fields"
  lc_message :: string

definition InitLogger_level :: "string \<Rightarrow> level" where
  "InitLogger_level logLevel =
     (let l = ToUpper logLevel
      in if l = ''DEBUG'' then DebugLevel else if l = ''INFO'' then InfoLevel
         else if l = ''WARN'' then WarnLevel else if l = ''ERROR'' then ErrorLevel
         else if l = ''FATAL'' then FatalLevel else InfoLevel)"

text \<open>What reaches the output of a process started with a log level.\<close>

definition written :: "string \<Rightarrow> 'v log_call list \<Rightarrow> 'v log_call list" where
  "written logLevel calls = filter (\<lambda>c. InitLogger_level logLevel \<le> lc_level c) calls"

text \<open>The plain calls pass their fields on; only the first map of fields counts. \<open>Fatal\<close> ends the
  process after the entry is written.\<close>

definition map_fields :: "'v fields option \<Rightarrow> 'v fields" where
  "map_fields m = (case m of None \<Rightarrow> [] | Some fs \<Rightarrow> fs)"

definition plain_call :: "level \<Rightarrow> string \<Rightarrow> string \<Rightarrow> string option \<Rightarrow> 'v fields option list \<Rightarrow> 'v log_call" where
  "plain_call lvl pkg message err fss =
     \<lparr>lc_level = lvl, lc_package = pkg, lc_error = err,
      lc_fields = (case fss of [] \<Rightarrow> [] | m # _ \<Rightarrow> map_fields m), lc_message = message\<rparr>"

definition Debug where "Debug pkg message fss = plain_call DebugLevel pkg message None fss"
definition Info where "Info pkg message fss = plain_call InfoLevel pkg message None fss"
definition Warn where "Warn pkg message fss = plain_call WarnLevel pkg message None fss"
definition Error where "Error pkg message err fss = plain_call ErrorLevel pkg message err fss"
definition Fatal where "Fatal pkg message err fss = plain_call FatalLevel pkg message err fss"

definition safe_call ::
  "level \<Rightarrow> string \<Rightarrow> string \<Rightarrow> string option \<Rightarrow> 'v fields option list \<Rightarrow> 'v fields list \<Rightarrow> 'v log_call \<times> 'v fields list" where
  "safe_call lvl pkg message err fss pool =
     (case fss of
        [] \<Rightarrow> (plain_call lvl pkg message err [], pool)
      | fs # _ \<Rightarrow>
          let (sanitized, pool) = sanitizeFields fs pool
          in (plain_call lvl pkg message err [sanitized], putMapToPool sanitized pool))"

definition SafeDebug where "SafeDebug pkg message fss pool = safe_call DebugLevel pkg message None fss pool"
definition SafeInfo where "SafeInfo pkg message fss pool = safe_call InfoLevel pkg message None fss pool"
definition SafeWarn where "SafeWarn pkg message fss pool = safe_call WarnLevel pkg message None fss pool"

definition SafeError where
  "SafeError pkg message err fss pool = safe_call ErrorLevel pkg message (sanitizeError err) fss pool"

end
