(* ===== verification/Events.thy ===== *)
theory Events
  imports Accesslog Config
begin

section \<open>The JSON events stream\<close>

text \<open>
  pkg/events: the events the accesslog entries are mapped to (types.go, collector.go), their
  serialisation and the file they are written to (emitter.go), and the runner's tick (runner.go).
  The LDAP client is the search function a scan is given; the state \<open>'s\<close> is whatever the search
  and the emit function work on. The files of the operating system are a record of functions.
\<close>

subsection \<open>Events\<close>

definition TypeBindSuccess :: string where "TypeBindSuccess = ''bind.success''"
definition TypeBindFailure :: string where "TypeBindFailure = ''bind.failure''"
definition TypeAccountLock :: string where "TypeAccountLock = ''account.lock''"
definition TypeAccountUnlock :: string where "TypeAccountUnlock = ''account.unlock''"
definition TypePasswordChange :: string where "TypePasswordChange = ''password.change''"
definition TypePasswordResetRequire :: string where "TypePasswordResetRequire = ''password.reset_required''"
definition TypeWriteAdd :: string where "TypeWriteAdd = ''write.add''"
definition TypeWriteModify :: string where "TypeWriteModify = ''write.modify''"
definition TypeWriteDelete :: string where "TypeWriteDelete = ''write.delete''"
definition TypeWriteModRDN :: string where "TypeWriteModRDN = ''write.modrdn''"

lemmas type_defs = TypeBindSuccess_def TypeBindFailure_def TypeAccountLock_def TypeAccountUnlock_def
  TypePasswordChange_def TypePasswordResetRequire_def TypeWriteAdd_def TypeWriteModify_def
  TypeWriteDelete_def TypeWriteModRDN_def

definition AllTypes :: "string list" where
  "AllTypes =
     [TypeBindSuccess, TypeBindFailure, TypeAccountLock, TypeAccountUnlock, TypePasswordChange,
      TypePasswordResetRequire, TypeWriteAdd, TypeWriteModify, TypeWriteDelete, TypeWriteModRDN]"

record Event =
  Timestamp :: time
  EventType :: string
  Server :: string
  Source :: string
  ReqStart :: string
  ReqSession :: string
  Actor :: string
  UserDN :: string
  TargetDN :: string
  Result :: string
  ResultCode :: string
  Operation :: string
  EventAttributes :: "string list"

text \<open>The fields every event of the collector sets; the others keep their zero value.\<close>

definition audit_event :: "time \<Rightarrow> string \<Rightarrow> string \<Rightarrow> string \<Rightarrow> Entry \<Rightarrow> string \<Rightarrow> Event" where
  "audit_event ts eventType server reqStart entry actor =
     \<lparr>Timestamp = ts, EventType = eventType, Server = server, Source = ''accesslog'',
      ReqStart = reqStart, ReqSession = Attr entry ''reqSession'', Actor = actor,
      UserDN = '''', TargetDN = '''', Result = '''', ResultCode = '''', Operation = '''',
      EventAttributes = []\<rparr>"

definition parseEventTimestamp :: "string \<Rightarrow> ('s \<Rightarrow> time \<times> 's) \<Rightarrow> 's \<Rightarrow> time \<times> 's" where
  "parseEventTimestamp reqStart now s =
     (let (t, s) = ParseReqStart reqStart now s in (t - t mod second, s))"

definition mapWriteOp :: "string \<Rightarrow> string" where
  "mapWriteOp opType =
     (let t = ToLower opType
      in if t = ''add'' then TypeWriteAdd
         else if t = ''modify'' then TypeWriteModify
         else if t = ''delete'' then TypeWriteDelete
         else if t = ''modrdn'' then TypeWriteModRDN
         else '''')"

definition containsAttr :: "string list \<Rightarrow> string \<Rightarrow> bool" where
  "containsAttr xs name = list_ex (\<lambda>v. EqualFold v name) xs"

subsection \<open>The three scans\<close>

text \<open>The bodies of the loops: what an entry that passed \<open>ShouldEmit\<close> emits, in order.\<close>

definition bind_body ::
  "string \<Rightarrow> ('s \<Rightarrow> time \<times> 's) \<Rightarrow> (Event \<Rightarrow> 's \<Rightarrow> 's) \<Rightarrow> Entry \<Rightarrow> 's \<Rightarrow> nat \<times> 's" where
  "bind_body server now emit entry s =
     (let reqStart = Attr entry ''reqStart'';
          resultCode = Attr entry ''reqResult'';
          eventType = (if resultCode \<noteq> ''0'' then TypeBindFailure else TypeBindSuccess);
          (ts, s) = parseEventTimestamp reqStart now s
      in (1, emit ((audit_event ts eventType server reqStart entry (TrimDNPrefix (Attr entry ''reqAuthzID'')))
                     \<lparr>UserDN := Attr entry ''reqDN'', Result := ClassifyBindResult resultCode,
                      ResultCode := resultCode\<rparr>) s))"

definition rejected :: "Entry \<Rightarrow> bool" where
  "rejected entry = (let rc = Attr entry ''reqResult'' in rc \<noteq> '''' \<and> rc \<noteq> ''0'')"

definition write_body ::
  "string \<Rightarrow> ('s \<Rightarrow> time \<times> 's) \<Rightarrow> (Event \<Rightarrow> 's \<Rightarrow> 's) \<Rightarrow> Entry \<Rightarrow> 's \<Rightarrow> nat \<times> 's" where
  "write_body server now emit entry s =
     (if rejected entry then (0, s)
      else let reqStart = Attr entry ''reqStart'';
               opType = Attr entry ''reqType'';
               targetDN = Attr entry ''reqDN'';
               actor = TrimDNPrefix (Attr entry ''reqAuthzID'');
               attrs = TouchedAttributes entry;
               eventType = mapWriteOp opType
           in if eventType = '''' then (0, s)
              else let (ts, s) = parseEventTimestamp reqStart now s;
                       s = emit ((audit_event ts eventType server reqStart entry actor)
                             \<lparr>TargetDN := targetDN, Operation := ToLower opType, EventAttributes := attrs\<rparr>) s
                   in if eventType = TypeWriteModify
                      then let (n1, s) =
                                 (if containsAttr attrs ''userPassword'' \<or> containsAttr attrs ''pwdChangedTime''
                                  then (1, emit ((audit_event ts TypePasswordChange server reqStart entry actor)
                                         \<lparr>UserDN := targetDN\<rparr>) s)
                                  else (0, s));
                               (n2, s) =
                                 (if HasReqModAddition entry ''pwdReset''
                                  then (1, emit ((audit_event ts TypePasswordResetRequire server reqStart entry actor)
                                         \<lparr>UserDN := targetDN\<rparr>) s)
                                  else (0, s))
                           in (1 + n1 + n2, s)
                      else (1, s))"

definition lock_body ::
  "string \<Rightarrow> ('s \<Rightarrow> time \<times> 's) \<Rightarrow> (Event \<Rightarrow> 's \<Rightarrow> 's) \<Rightarrow> Entry \<Rightarrow> 's \<Rightarrow> nat \<times> 's" where
  "lock_body server now emit entry s =
     (if rejected entry then (0, s)
      else let reqStart = Attr entry ''reqStart'';
               targetDN = Attr entry ''reqDN'';
               actor = TrimDNPrefix (Attr entry ''reqAuthzID'');
               (ts, s) = parseEventTimestamp reqStart now s;
               eventType = (if HasReqModAddition entry ''pwdAccountLockedTime''
                            then TypeAccountLock else TypeAccountUnlock)
           in (1, emit ((audit_event ts eventType server reqStart entry actor)\<lparr>UserDN := targetDN\<rparr>) s))"

definition scanBinds where
  "scanBinds server now emit search cursor s =
     scan_stream search StreamBind BindBaseFilter
       [''reqStart'', ''reqDN'', ''reqResult'', ''reqSession'', ''reqAuthzID'']
       (bind_body server now emit) cursor s"

definition scanWrites where
  "scanWrites server now emit search cursor s =
     scan_stream search StreamWrite WriteBaseFilter
       [''reqStart'', ''reqType'', ''reqDN'', ''reqAuthzID'', ''reqSession'', ''reqMod'', ''reqResult'']
       (write_body server now emit) cursor s"

definition scanLocks where
  "scanLocks server now emit search cursor s =
     scan_stream search StreamLock LockBaseFilter
       [''reqStart'', ''reqDN'', ''reqAuthzID'', ''reqSession'', ''reqMod'', ''reqResult'']
       (lock_body server now emit) cursor s"

datatype 'e scan_error = BindStream 'e | WriteStream 'e | LockStream 'e

text \<open>A tick scans the streams in turn and stops at the first that fails.\<close>

definition scan ::
  "string \<Rightarrow> ('s \<Rightarrow> time \<times> 's) \<Rightarrow> (Event \<Rightarrow> 's \<Rightarrow> 's)
     \<Rightarrow> (string \<Rightarrow> string list \<Rightarrow> 's \<Rightarrow> ('e + Entry list) \<times> 's) \<Rightarrow> CursorState \<Rightarrow> 's
     \<Rightarrow> (nat \<times> 'e scan_error option) \<times> CursorState \<times> 's" where
  "scan server now emit search cursor s =
     (case scanBinds server now emit search cursor s of
        (Inl e, cursor, s) \<Rightarrow> ((0, Some (BindStream e)), cursor, s)
      | (Inr n1, cursor, s) \<Rightarrow>
     (case scanWrites server now emit search cursor s of
        (Inl e, cursor, s) \<Rightarrow> ((n1, Some (WriteStream e)), cursor, s)
      | (Inr n2, cursor, s) \<Rightarrow>
     (case scanLocks server now emit search cursor s of
        (Inl e, cursor, s) \<Rightarrow> ((n1 + n2, Some (LockStream e)), cursor, s)
      | (Inr n3, cursor, s) \<Rightarrow> ((n1 + n2 + n3, None), cursor, s))))"

subsection \<open>Events as JSON\<close>

text \<open>
  \<open>json.Marshal\<close> of an event. A string is escaped rune by rune: the quote, the backslash and
  the control characters, the characters special to HTML, the two line separators of Unicode, and
  the replacement of invalid bytes. The time is RFC 3339 with whole seconds; a year beyond 9999 is
  the only error.
\<close>

definition hex_char :: "nat \<Rightarrow> char" where
  "hex_char n = (if n < 10 then char_of (48 + n) else char_of (87 + n))"

definition json_byte :: "char \<Rightarrow> string" where
  "json_byte b =
     (let n = of_char b :: nat; bs = CHR 0x5C
      in if b = CHR 0x5C \<or> b = CHR 0x22 then [bs, b]
         else if n = 8 then [bs, CHR ''b'']
         else if n = 12 then [bs, CHR ''f'']
         else if n = 10 then [bs, CHR ''n'']
         else if n = 13 then [bs, CHR ''r'']
         else if n = 9 then [bs, CHR ''t'']
         else if n < 32 \<or> b = CHR ''<'' \<or> b = CHR ''>'' \<or> b = CHR ''&''
              then [bs, CHR ''u'', CHR ''0'', CHR ''0'', hex_char (n div 16), hex_char (n mod 16)]
         else [b])"

definition json_rune :: "string \<Rightarrow> string" where
  "json_rune r =
     (case r of
        [b] \<Rightarrow> json_byte b
      | _ \<Rightarrow>
          (if r = [CHR 0xE2, CHR 0x80, CHR 0xA8] then CHR 0x5C # ''u2028''
           else if r = [CHR 0xE2, CHR 0x80, CHR 0xA9] then CHR 0x5C # ''u2029''
           else r))"

function json_runes :: "string \<Rightarrow> string" where
  "json_runes s =
     (if s = [] then []
      else let (r, t) = next_rune s
           in (if r = rune_error \<and> take 3 s \<noteq> rune_error then CHR 0x5C # ''ufffd'' else json_rune r) @
              json_runes t)"
  by auto
termination
proof (relation "measure length")
  fix s r t :: string and x
  assume "s \<noteq> []" "x = next_rune s" "(r, t) = x"
  then show "(t, s) \<in> measure length" using next_rune_shorter [of s] by (metis in_measure snd_conv)
qed simp

declare json_runes.simps [simp del]

definition json_string :: "string \<Rightarrow> string" where
  "json_string s = [CHR 0x22] @ json_runes s @ [CHR 0x22]"

definition json_array :: "string list \<Rightarrow> string" where
  "json_array xs = ''['' @ Join (map json_string xs) '','' @ '']''"

definition format_rfc3339 :: "time \<Rightarrow> string" where
  "format_rfc3339 t =
     (let c = civil_of t
      in format_date t @ ''T'' @ digits 2 (c_hour c) @ '':'' @ digits 2 (c_min c) @ '':'' @ digits 2 (c_sec c) @ ''Z'')"

definition json_field :: "string \<Rightarrow> string \<Rightarrow> string" where
  "json_field name v = json_string name @ '':'' @ v"

definition omitempty :: "string \<Rightarrow> string \<Rightarrow> string list" where
  "omitempty name v = (if v = '''' then [] else [json_field name (json_string v)])"

definition event_fields :: "Event \<Rightarrow> string list" where
  "event_fields ev =
     [json_field ''ts'' (json_string (format_rfc3339 (Timestamp ev))),
      json_field ''event'' (json_string (EventType ev)),
      json_field ''server'' (json_string (Server ev)),
      json_field ''source'' (json_string (Source ev))] @
     omitempty ''req_start'' (ReqStart ev) @
     omitempty ''req_session'' (ReqSession ev) @
     omitempty ''actor'' (Actor ev) @
     omitempty ''user_dn'' (UserDN ev) @
     omitempty ''target_dn'' (TargetDN ev) @
     omitempty ''result'' (Result ev) @
     omitempty ''result_code'' (ResultCode ev) @
     omitempty ''operation'' (Operation ev) @
     (if EventAttributes ev = [] then [] else [json_field ''attributes'' (json_array (EventAttributes ev))])"

definition Marshal :: "Event \<Rightarrow> string option" where
  "Marshal ev =
     (if c_year (civil_of (Timestamp ev)) > 9999 then None
      else Some (''{'' @ Join (event_fields ev) '','' @ ''}''))"

subsection \<open>Files\<close>

text \<open>
  The operating system: an error is the text of the failure with the mark whether it is a
  permission error; an open file is a handle.
\<close>

record os_error =
  os_permission :: bool
  os_text :: string

record 'w OS =
  os_now :: "'w \<Rightarrow> time \<times> 'w"
  MkdirAll :: "string \<Rightarrow> 'w \<Rightarrow> os_error option \<times> 'w"
  OpenFile :: "string \<Rightarrow> 'w \<Rightarrow> (os_error + nat) \<times> 'w"
  FileWrite :: "nat \<Rightarrow> string \<Rightarrow> 'w \<Rightarrow> os_error option \<times> 'w"
  FileClose :: "nat \<Rightarrow> 'w \<Rightarrow> os_error option \<times> 'w"
  StdoutWrite :: "string \<Rightarrow> 'w \<Rightarrow> os_error option \<times> 'w"
  filepath_Dir :: "string \<Rightarrow> string"
  Getuid :: int
  Getgid :: int

datatype events_error =
    PathError string string os_error
  | PermissionError string string os_error int int
  | WriteError os_error

definition wrapPermError :: "'w OS \<Rightarrow> string \<Rightarrow> string \<Rightarrow> os_error \<Rightarrow> events_error" where
  "wrapPermError os action path err =
     (if \<not> os_permission err then PathError action path err
      else PermissionError action path err (Getuid os) (Getgid os))"

record fileRotator =
  template :: string
  daily :: bool
  currentPath :: string
  currentDay :: string
  open_file :: "nat option"

definition date_token :: string where
  "date_token = ''{date}''"

text \<open>\<open>strings.ReplaceAll\<close> for a non-empty old text; the fuel is the length of the string.\<close>

fun replace_all :: "string \<Rightarrow> string \<Rightarrow> nat \<Rightarrow> string \<Rightarrow> string" where
  "replace_all old new 0 s = s"
| "replace_all old new (Suc n) s =
     (if s = [] then []
      else if HasPrefix s old then new @ replace_all old new n (drop (length old) s)
      else hd s # replace_all old new n (tl s))"

definition ReplaceAll :: "string \<Rightarrow> string \<Rightarrow> string \<Rightarrow> string" where
  "ReplaceAll s old new = replace_all old new (length s) s"

definition resolvePathFor :: "fileRotator \<Rightarrow> time \<Rightarrow> string" where
  "resolvePathFor r now =
     (let day = format_date now
      in if Contains (template r) date_token then ReplaceAll (template r) date_token day
         else if daily r then template r @ ''.'' @ day
         else template r)"

definition ensureDir :: "'w OS \<Rightarrow> fileRotator \<Rightarrow> 'w \<Rightarrow> events_error option \<times> 'w" where
  "ensureDir os r w =
     (let (now, w) = os_now os w; dir = filepath_Dir os (resolvePathFor r now)
      in if dir = '''' \<or> dir = ''.'' then (None, w)
         else case MkdirAll os dir w of
                (Some err, w) \<Rightarrow> (Some (wrapPermError os ''create output directory'' dir err), w)
              | (None, w) \<Rightarrow> (None, w))"

definition rollIfNeeded :: "'w OS \<Rightarrow> fileRotator \<Rightarrow> 'w \<Rightarrow> events_error option \<times> fileRotator \<times> 'w" where
  "rollIfNeeded os r w =
     (let (now, w) = os_now os w; day = format_date now; path = resolvePathFor r now
      in if open_file r \<noteq> None \<and> path = currentPath r \<and> (\<not> daily r \<or> day = currentDay r) then (None, r, w)
         else let w = (case open_file r of Some h \<Rightarrow> snd (FileClose os h w) | None \<Rightarrow> w);
                  r = r\<lparr>open_file := None\<rparr>
              in case OpenFile os path w of
                   (Inl err, w) \<Rightarrow> (Some (wrapPermError os ''open'' path err), r, w)
                 | (Inr h, w) \<Rightarrow> (None, r\<lparr>open_file := Some h, currentPath := path, currentDay := day\<rparr>, w))"

definition newFileRotator :: "'w OS \<Rightarrow> string \<Rightarrow> bool \<Rightarrow> 'w \<Rightarrow> (events_error + fileRotator) \<times> 'w" where
  "newFileRotator os output dly w =
     (let r = \<lparr>template = output, daily = dly, currentPath = '''', currentDay = '''', open_file = None\<rparr>
      in case ensureDir os r w of
           (Some err, w) \<Rightarrow> (Inl err, w)
         | (None, w) \<Rightarrow>
            (case rollIfNeeded os r w of
               (Some err, _, w) \<Rightarrow> (Inl err, w)
             | (None, r, w) \<Rightarrow> (Inr r, w)))"

definition Rotator_Write ::
  "'w OS \<Rightarrow> string \<Rightarrow> fileRotator \<Rightarrow> 'w \<Rightarrow> events_error option \<times> fileRotator \<times> 'w" where
  "Rotator_Write os p r w =
     (case rollIfNeeded os r w of
        (Some err, r, w) \<Rightarrow> (Some err, r, w)
      | (None, r, w) \<Rightarrow>
         (case FileWrite os (the (open_file r)) p w of
            (Some err, w) \<Rightarrow> (Some (WriteError err), r, w)
          | (None, w) \<Rightarrow> (None, r, w)))"

definition Rotator_Close :: "'w OS \<Rightarrow> fileRotator \<Rightarrow> 'w \<Rightarrow> os_error option \<times> fileRotator \<times> 'w" where
  "Rotator_Close os r w =
     (case open_file r of
        None \<Rightarrow> (None, r, w)
      | Some h \<Rightarrow> let (err, w) = FileClose os h w in (err, r\<lparr>open_file := None\<rparr>, w))"

subsection \<open>The emitter\<close>

datatype writer = Stdout | File fileRotator

record Emitter =
  emitter_writer :: writer
  type_filter :: "string list"
  filterOn :: bool

definition valid_types :: "string list \<Rightarrow> string list" where
  "valid_types types =
     filter (\<lambda>t. t \<in> set AllTypes) (map (\<lambda>t. ToLower (TrimSpace t)) types)"

definition NewEmitter :: "'w OS \<Rightarrow> Config \<Rightarrow> 'w \<Rightarrow> (events_error + Emitter) \<times> 'w" where
  "NewEmitter os cfg w =
     (let flt = (if EventsTypes cfg \<noteq> [] then valid_types (EventsTypes cfg) else []);
          on = (flt \<noteq> []);
          output = TrimSpace (EventsOutput cfg)
      in if output = '''' \<or> EqualFold output ''stdout''
         then (Inr \<lparr>emitter_writer = Stdout, type_filter = flt, filterOn = on\<rparr>, w)
         else case newFileRotator os output (EventsRotation cfg = EventsRotationDaily) w of
                (Inl err, w) \<Rightarrow> (Inl err, w)
              | (Inr rot, w) \<Rightarrow> (Inr \<lparr>emitter_writer = File rot, type_filter = flt, filterOn = on\<rparr>, w))"

text \<open>A failed marshal or write is logged and the event is lost.\<close>

definition Emit :: "'w OS \<Rightarrow> Event \<Rightarrow> Emitter \<times> 'w \<Rightarrow> Emitter \<times> 'w" where
  "Emit os ev s =
     (let (e, w) = s
      in if filterOn e \<and> EventType ev \<notin> set (type_filter e) then (e, w)
         else case Marshal ev of
                None \<Rightarrow> (e, w)
              | Some payload \<Rightarrow>
                  (case emitter_writer e of
                     Stdout \<Rightarrow> (e, snd (StdoutWrite os (payload @ [CHR 0x0A]) w))
                   | File r \<Rightarrow>
                       let (err, r, w) = Rotator_Write os (payload @ [CHR 0x0A]) r w
                       in (e\<lparr>emitter_writer := File r\<rparr>, w)))"

definition Emitter_Close :: "'w OS \<Rightarrow> Emitter \<times> 'w \<Rightarrow> os_error option \<times> Emitter \<times> 'w" where
  "Emitter_Close os s =
     (let (e, w) = s
      in case emitter_writer e of
           Stdout \<Rightarrow> (None, e, w)
         | File r \<Rightarrow> let (err, r, w) = Rotator_Close os r w in (err, e\<lparr>emitter_writer := File r\<rparr>, w))"

subsection \<open>The runner\<close>

record Runner =
  runner_server :: string
  runner_interval :: duration
  runner_emitter :: Emitter
  runner_cursor :: CursorState

definition NewRunner :: "'w OS \<Rightarrow> Config \<Rightarrow> 'w \<Rightarrow> (events_error + Runner) \<times> 'w" where
  "NewRunner os cfg w =
     (case NewEmitter os cfg w of
        (Inl err, w) \<Rightarrow> (Inl err, w)
      | (Inr emitter, w) \<Rightarrow>
          let (now, w) = os_now os w
          in (Inr \<lparr>runner_server = ServerName cfg, runner_interval = EventsInterval cfg,
                  runner_emitter = emitter, runner_cursor = NewCursorState now\<rparr>, w))"

definition loop_interval :: "Runner \<Rightarrow> duration" where
  "loop_interval r =
     (if runner_interval r \<le> 0 then DefaultEventsInterval else runner_interval r)"

text \<open>One tick: the scan over the emitter and the world, whose search the client provides.\<close>

definition Runner_tick ::
  "'w OS \<Rightarrow> (string \<Rightarrow> string list \<Rightarrow> 'w \<Rightarrow> ('e + Entry list) \<times> 'w) \<Rightarrow> Runner \<times> 'w \<Rightarrow> Runner \<times> 'w" where
  "Runner_tick os search s =
     (let (r, w) = s;
          (result, cursor, e, w) =
            scan (runner_server r)
              (\<lambda>(e, w). let (t, w) = os_now os w in (t, e, w))
              (Emit os)
              (\<lambda>flt attrs (e, w). let (res, w) = search flt attrs w in (res, e, w))
              (runner_cursor r) (runner_emitter r, w)
      in (r\<lparr>runner_cursor := cursor, runner_emitter := e\<rparr>, w))"

definition Runner_Stop :: "'w OS \<Rightarrow> Runner \<times> 'w \<Rightarrow> Runner \<times> 'w" where
  "Runner_Stop os s =
     (let (r, w) = s; (err, e, w) = Emitter_Close os (runner_emitter r, w)
      in (r\<lparr>runner_emitter := e\<rparr>, w))"

end
