(* ===== verification/Web.thy ===== *)
theory Web
  imports GoUrl Events RateLimit CircuitBreaker "HOL-Library.AList"
begin

section \<open>The HTTP server and the program's life (cmd/main.go)\<close>

text \<open>
  The environment, the routes with their middleware and handlers, the health probe, and the order
  in which main starts and stops its parts. The page promhttp writes is a parameter (the Prometheus
  library), as are the HTML template of the root page and the time zone of the process. A request
  whose path is not clean is redirected by the multiplexer before any middleware runs; paths are
  the decoded ones.
\<close>

subsection \<open>Environment and formatting\<close>

definition getEnvString :: "(string \<Rightarrow> string) \<Rightarrow> string \<Rightarrow> string \<Rightarrow> string" where
  "getEnvString env key defaultValue = (if env key \<noteq> '''' then env key else defaultValue)"

definition getEnvInt :: "(string \<Rightarrow> string) \<Rightarrow> string \<Rightarrow> int \<Rightarrow> int" where
  "getEnvInt env key defaultValue =
     (if env key \<noteq> '''' then (case Atoi (env key) of Some n \<Rightarrow> n | None \<Rightarrow> defaultValue) else defaultValue)"

definition getEnvDuration :: "(string \<Rightarrow> string) \<Rightarrow> string \<Rightarrow> duration \<Rightarrow> duration" where
  "getEnvDuration env key defaultValue =
     (if env key \<noteq> '''' then (case ParseDuration (env key) of Some d \<Rightarrow> d | None \<Rightarrow> defaultValue) else defaultValue)"

text \<open>\<open>Duration.String\<close>: the fraction without trailing zeros, then the units.\<close>

definition fmt_frac :: "nat \<Rightarrow> int \<Rightarrow> string" where
  "fmt_frac prec v = (if v = 0 then '''' else CHR ''.'' # TrimRight (digits prec v) ''0'')"

definition Duration_String :: "duration \<Rightarrow> string" where
  "Duration_String d =
     (let u = \<bar>d\<bar>; sgn = (if d < 0 then ''-'' else '''');
          small = (\<lambda>prec un. int_string (u div 10 ^ prec) @ fmt_frac prec (u mod 10 ^ prec) @ un)
      in if u = 0 then ''0s''
         else if u < 1000 then sgn @ small 0 ''ns''
         else if u < 1000000 then sgn @ small 3 [CHR 0xC2, CHR 0xB5, CHR ''s'']
         else if u < second then sgn @ small 6 ''ms''
         else let s = u div second; secs = int_string (s mod 60) @ fmt_frac 9 (u mod second) @ ''s''
              in if s < 60 then sgn @ secs
                 else let m = s div 60
                      in if m < 60 then sgn @ int_string m @ ''m'' @ secs
                         else sgn @ int_string (m div 60) @ ''h'' @ int_string (m mod 60) @ ''m'' @ secs)"

definition formatDuration :: "duration \<Rightarrow> string" where
  "formatDuration d = (let m = 10 * millisecond in Duration_String (d - (d - trunc_div d m * m)))"

subsection \<open>Requests and responses\<close>

record HttpRequest = Request +
  Method :: string
  isTLS :: bool

type_synonym headers = "(string \<times> string) list"

record HttpResponse =
  status :: int
  headers :: headers
  body :: string

definition set_header :: "string \<Rightarrow> string \<Rightarrow> headers \<Rightarrow> headers" where
  "set_header k v hs = AList.update k v hs"

definition csp :: string where
  "csp = ''default-src 'self'; script-src 'self' 'unsafe-inline'; style-src 'self' 'unsafe-inline'; img-src 'self' data:; connect-src 'self'; font-src 'self'; object-src 'none'; media-src 'none'; frame-src 'none';''"

definition securityHeaders :: "bool \<Rightarrow> headers" where
  "securityHeaders tls =
     (let hs = fold (\<lambda>(k, v). set_header k v)
        [(''X-Content-Type-Options'', ''nosniff''), (''X-Frame-Options'', ''DENY''),
         (''X-XSS-Protection'', ''1; mode=block''), (''Referrer-Policy'', ''strict-origin-when-cross-origin''),
         (''Content-Security-Policy'', csp)] [];
          hs = (if tls then set_header ''Strict-Transport-Security'' ''max-age=31536000; includeSubDomains'' hs else hs)
      in fold (\<lambda>(k, v). set_header k v)
           [(''Server'', ''''), (''X-Download-Options'', ''noopen''), (''X-Permitted-Cross-Domain-Policies'', ''none'')] hs)"

definition securityHeadersMiddleware ::
  "(HttpRequest \<Rightarrow> headers \<Rightarrow> 's \<Rightarrow> HttpResponse \<times> 's) \<Rightarrow> HttpRequest \<Rightarrow> 's \<Rightarrow> HttpResponse \<times> 's" where
  "securityHeadersMiddleware next r s = next r (securityHeaders (isTLS r)) s"

text \<open>The middleware of the rate limiter around a handler; without rate limiting the handler alone.\<close>

definition limited ::
  "bool \<Rightarrow> Net \<Rightarrow> nat list \<Rightarrow> time \<times> time \<Rightarrow> (HttpRequest \<Rightarrow> headers \<Rightarrow> HttpResponse)
     \<Rightarrow> HttpRequest \<Rightarrow> headers \<Rightarrow> RateLimiter \<Rightarrow> HttpResponse \<times> RateLimiter" where
  "limited enabled N trusted clk next r hs rl =
     (if \<not> enabled then (next r hs, rl)
      else case RateLimitMiddlewareWithMonitoring N trusted True (fst clk) (snd clk) (Request.truncate r) rl of
             (TooManyRequests, evs, rl) \<Rightarrow>
               (\<lparr>status = 429,
                 headers = set_header ''Retry-After'' ''60'' (set_header ''Content-Type'' ''application/json'' hs),
                 body = ''{'' @ json_field ''error'' (json_string ''Rate limit exceeded'') @ '','' @
                        json_field ''retry_after'' (json_string ''60s'') @ ''}''\<rparr>, rl)
           | (Served, evs, rl) \<Rightarrow> (next r hs, rl))"

subsection \<open>Handlers\<close>

definition http_Error :: "int \<Rightarrow> string \<Rightarrow> headers \<Rightarrow> HttpResponse" where
  "http_Error code text hs =
     \<lparr>status = code, headers = set_header ''X-Content-Type-Options'' ''nosniff'' (set_header ''Content-Type'' ''text/plain; charset=utf-8'' hs),
      body = text @ [CHR 0x0A]\<rparr>"

definition handleRoot ::
  "(string \<Rightarrow> string \<Rightarrow> string \<Rightarrow> string) \<Rightarrow> string \<Rightarrow> Config \<Rightarrow> HttpRequest \<Rightarrow> headers \<Rightarrow> HttpResponse" where
  "handleRoot page version cfg r hs =
     (if Path r \<noteq> ''/'' then http_Error 404 ''404 page not found'' hs
      else if Method r \<noteq> ''GET'' \<and> Method r \<noteq> ''HEAD'' then http_Error 405 ''Method Not Allowed'' hs
      else let includeFilter = (if MetricsInclude cfg \<noteq> [] then ''['' @ Join (MetricsInclude cfg) '', '' @ '']''
                                else ''None (collect all metric groups)'');
               excludeFilter = (if MetricsExclude cfg \<noteq> [] then ''['' @ Join (MetricsExclude cfg) '', '' @ '']'' else ''None'')
           in \<lparr>status = 200, headers = set_header ''Content-Type'' ''text/html; charset=utf-8'' hs,
               body = page version includeFilter excludeFilter\<rparr>)"

text \<open>\<open>json.MarshalIndent\<close> of the response map: the keys in order, two blanks of indentation.\<close>

definition json_object :: "(string \<times> string) list \<Rightarrow> string" where
  "json_object fs =
     ''{'' @ [CHR 0x0A] @
     Join (map (\<lambda>(k, v). ''  '' @ json_string k @ '': '' @ v) fs) ('','' @ [CHR 0x0A]) @ [CHR 0x0A] @ ''}''"

definition handleHealth ::
  "(time \<Rightarrow> string) \<Rightarrow> string \<Rightarrow> time \<Rightarrow> time \<Rightarrow> CircuitBreaker \<Rightarrow> headers \<Rightarrow> HttpResponse" where
  "handleHealth localTime version now startTime cb hs =
     (let ldapReachable = IsHealthy cb
      in \<lparr>status = (if ldapReachable then 200 else 503),
          headers = set_header ''Content-Type'' ''application/json'' hs,
          body = json_object
            [(''ldap_reachable'', if ldapReachable then ''true'' else ''false''),
             (''status'', json_string (if ldapReachable then ''ok'' else ''unhealthy'')),
             (''timestamp'', json_string (localTime now)),
             (''uptime'', json_string (formatDuration (time_Sub now startTime))),
             (''version'', json_string version)]\<rparr>)"

subsection \<open>Routes\<close>

record Server =
  srv_cfg :: Config
  rateLimiter :: RateLimiter
  healthLimiter :: RateLimiter
  internalLimiter :: RateLimiter

definition setupHTTPRoutes :: "(string \<Rightarrow> string) \<Rightarrow> Config \<Rightarrow> Server" where
  "setupHTTPRoutes env cfg =
     (let rateLimitRequests = getEnvInt env ''RATE_LIMIT_REQUESTS'' 30;
          rateLimitBurst = getEnvInt env ''RATE_LIMIT_BURST'' 10;
          healthRequests = getEnvInt env ''HEALTH_RATE_LIMIT_REQUESTS'' 60;
          healthBurst = getEnvInt env ''HEALTH_RATE_LIMIT_BURST'' 20
      in \<lparr>srv_cfg = cfg, rateLimiter = NewRateLimiter rateLimitRequests rateLimitBurst,
          healthLimiter = NewRateLimiter healthRequests healthBurst,
          internalLimiter = NewRateLimiter rateLimitRequests rateLimitBurst\<rparr>)"

fun clean_segments :: "string list \<Rightarrow> string list \<Rightarrow> string list" where
  "clean_segments out [] = out"
| "clean_segments out (p # ps) =
     (if p = '''' \<or> p = ''.'' then clean_segments out ps
      else if p = ''..'' then clean_segments (butlast out) ps
      else clean_segments (out @ [p]) ps)"

definition cleanPath :: "string \<Rightarrow> string" where
  "cleanPath p =
     (if p = '''' then ''/''
      else let np = CHR ''/'' # Join (clean_segments [] (Split p CHR ''/'')) ''/''
           in if last p = CHR ''/'' \<and> np \<noteq> ''/'' then np @ ''/'' else np)"

record World =
  w_now :: time
  w_clock :: "time \<times> time"
  w_startTime :: time
  w_breaker :: CircuitBreaker

record Pages =
  promhttp :: "string \<Rightarrow> HttpRequest \<Rightarrow> headers \<Rightarrow> HttpResponse"
  rootPage :: "string \<Rightarrow> string \<Rightarrow> string \<Rightarrow> string"
  localTime :: "time \<Rightarrow> string"
  Version :: string

definition serve :: "Pages \<Rightarrow> Net \<Rightarrow> nat list \<Rightarrow> World \<Rightarrow> HttpRequest \<Rightarrow> Server \<Rightarrow> HttpResponse option \<times> Server" where
  "serve P N trusted w r srv =
     (let cfg = srv_cfg srv; on = RateLimitEnabled cfg;
          run = (\<lambda>handler rl. case securityHeadersMiddleware (limited on N trusted (w_clock w) handler) r rl of
                   (resp, rl) \<Rightarrow> (Some resp, rl))
      in if cleanPath (Path r) \<noteq> Path r \<and> Method r \<noteq> ''CONNECT'' then (None, srv) \<comment> \<open>redirected\<close>
         else if Path r = ''/metrics'' then
           (let (resp, rl) = run (promhttp P ''metrics'') (rateLimiter srv) in (resp, srv\<lparr>rateLimiter := rl\<rparr>))
         else if Path r = ''/health'' then
           (let (resp, rl) = run (\<lambda>r. handleHealth (localTime P) (Version P) (w_now w) (w_startTime w) (w_breaker w))
                  (healthLimiter srv) in (resp, srv\<lparr>healthLimiter := rl\<rparr>))
         else if Path r = ''/internal/metrics'' then
           (let (resp, rl) = run (promhttp P ''internal'') (internalLimiter srv) in (resp, srv\<lparr>internalLimiter := rl\<rparr>))
         else
           (let (resp, rl) = run (handleRoot (rootPage P) (Version P) cfg) (rateLimiter srv)
            in (resp, srv\<lparr>rateLimiter := rl\<rparr>)))"

text \<open>The probe: the port of the listen address, the answer of the request, the exit code.\<close>

definition runHealthCheck :: "(string \<Rightarrow> HttpResponse option) \<Rightarrow> string \<Rightarrow> int" where
  "runHealthCheck get listenAddr =
     (let port = (case net_SplitHostPort (TrimSpace listenAddr) of
                    None \<Rightarrow> ''9330'' | Some (_, p) \<Rightarrow> if p = '''' then ''9330'' else p)
      in case get (''http://127.0.0.1:'' @ port @ ''/health'') of
           None \<Rightarrow> 1
         | Some resp \<Rightarrow> if status resp = 200 then 0 else 1)"

subsection \<open>The life of the program\<close>

text \<open>
  The parts main starts and stops, in order; deferred actions run last in first out when main
  returns. \<open>cfgOk\<close>: the configuration loads (otherwise \<open>Fatal\<close> exits with 1); \<open>eventsOk\<close>: the
  events runner initialises. main returns on a signal and on a failure of the HTTP server alike.
\<close>

record HttpServer =
  hs_Addr :: string
  hs_ReadTimeout :: duration
  hs_WriteTimeout :: duration
  hs_IdleTimeout :: duration

definition http_server :: "(string \<Rightarrow> string) \<Rightarrow> string \<Rightarrow> HttpServer" where
  "http_server env listenAddr =
     \<lparr>hs_Addr = listenAddr,
      hs_ReadTimeout = getEnvDuration env ''HTTP_READ_TIMEOUT'' (10 * second),
      hs_WriteTimeout = getEnvDuration env ''HTTP_WRITE_TIMEOUT'' (10 * second),
      hs_IdleTimeout = getEnvDuration env ''HTTP_IDLE_TIMEOUT'' (60 * second)\<rparr>"

definition shutdownTimeout :: "(string \<Rightarrow> string) \<Rightarrow> duration" where
  "shutdownTimeout env = getEnvDuration env ''HTTP_SHUTDOWN_TIMEOUT'' (30 * second)"

text \<open>
  main waits for a signal or for the server to fail. \<open>ServeHTTP\<close> and \<open>ShutdownHTTP\<close> carry the settings they
  use; whether the shutdown succeeds in that time only decides what is logged.
\<close>

datatype stop_cause = Signalled | ListenFailed string

datatype action =
    Probe | PrintVersion | InstallProxies | NewExporter | RegisterExporter | NewEventsClient | StartEvents
  | StartPoller | ServeHTTP HttpServer | LogStop stop_cause | ShutdownHTTP duration | LogShutdown bool
  | StopPoller | StopEvents | CloseEventsClient | CloseExporter | ClearConfig

definition act :: "action \<Rightarrow> action list \<times> action list \<Rightarrow> action list \<times> action list" where
  "act a st = (fst st @ [a], snd st)"

definition defers :: "action list \<Rightarrow> action list \<times> action list \<Rightarrow> action list \<times> action list" where
  "defers as st = (fst st, as @ snd st)"

definition start_events :: "Config \<Rightarrow> bool \<Rightarrow> action list \<times> action list \<Rightarrow> action list \<times> action list" where
  "start_events cfg eventsOk st =
     (if \<not> EventsEnabled cfg then st
      else let st = act NewEventsClient st
           in if \<not> eventsOk then act CloseEventsClient st
              else defers [StopEvents, CloseEventsClient] (act StartEvents st))"

definition start_poller :: "Config \<Rightarrow> action list \<times> action list \<Rightarrow> action list \<times> action list" where
  "start_poller cfg st =
     (if ReplicationPollEnabled cfg then defers [StopPoller] (act StartPoller st) else st)"

definition serve_until_stopped ::
  "(string \<Rightarrow> string) \<Rightarrow> string \<Rightarrow> stop_cause \<Rightarrow> bool \<Rightarrow> action list \<times> action list \<Rightarrow> action list \<times> action list" where
  "serve_until_stopped env listenAddr cause drained st =
     act (LogShutdown drained) (act (ShutdownHTTP (shutdownTimeout env)) (act (LogStop cause)
       (act (ServeHTTP (http_server env listenAddr)) st)))"

definition main ::
  "(string \<Rightarrow> string) \<Rightarrow> string \<Rightarrow> bool \<Rightarrow> bool \<Rightarrow> int \<Rightarrow> Config option \<Rightarrow> bool \<Rightarrow> stop_cause \<Rightarrow> bool
     \<Rightarrow> action list \<times> int" where
  "main env listenAddr version healthCheck probeCode loaded eventsOk cause drained =
     (if version then ([PrintVersion], 0)
      else if healthCheck then ([Probe], probeCode)
      else case loaded of
             None \<Rightarrow> ([], 1)
           | Some cfg \<Rightarrow>
               let st = defers [ClearConfig] ([], []);
                   st = act RegisterExporter (defers [CloseExporter] (act NewExporter (act InstallProxies st)));
                   st = start_poller cfg (start_events cfg eventsOk st);
                   st = serve_until_stopped env listenAddr cause drained st
               in (fst st @ snd st, 0))"

end
