(* ===== verification/WebProperties.thy ===== *)
theory WebProperties
  imports Web
begin

section \<open>Properties of the HTTP server and of main\<close>

text \<open>
  Every page carries the security headers, the health page answers the breaker's state whatever the
  load on the other pages, and main stops every part it started, users before what they use.
\<close>

lemma map_of_set_header [simp]: "map_of (set_header k v hs) = (map_of hs)(k \<mapsto> v)"
  by (simp add: set_header_def update_conv')

lemma map_of_securityHeaders:
  "map_of (securityHeaders tls) k =
     (if k = ''Strict-Transport-Security'' then if tls then Some ''max-age=31536000; includeSubDomains'' else None
      else map_of [(''X-Content-Type-Options'', ''nosniff''), (''X-Frame-Options'', ''DENY''),
         (''X-XSS-Protection'', ''1; mode=block''), (''Referrer-Policy'', ''strict-origin-when-cross-origin''),
         (''Content-Security-Policy'', csp), (''Server'', ''''), (''X-Download-Options'', ''noopen''),
         (''X-Permitted-Cross-Domain-Policies'', ''none'')] k)"
  by (auto simp: securityHeaders_def Let_def)

definition keeps_security :: "(HttpRequest \<Rightarrow> headers \<Rightarrow> HttpResponse) \<Rightarrow> bool" where
  "keeps_security h \<longleftrightarrow> (\<forall>r hs k. k \<in> {''X-Frame-Options'', ''X-XSS-Protection'', ''Referrer-Policy'',
      ''Content-Security-Policy'', ''Strict-Transport-Security'', ''X-Permitted-Cross-Domain-Policies''} \<longrightarrow>
      map_of (headers (h r hs)) k = map_of hs k) \<and>
    (\<forall>r hs. map_of hs ''X-Content-Type-Options'' = Some ''nosniff'' \<longrightarrow>
      map_of (headers (h r hs)) ''X-Content-Type-Options'' = Some ''nosniff'')"

lemma keeps_handlers:
  "keeps_security (handleRoot page v cfg)" "keeps_security (\<lambda>r. handleHealth lt v now st cb)"
  by (auto simp: keeps_security_def handleRoot_def handleHealth_def http_Error_def Let_def)

lemma keeps_limited:
  assumes "keeps_security h" shows "keeps_security (\<lambda>r hs. fst (limited on N trusted clk h r hs rl))"
  using assms unfolding keeps_security_def limited_def
  by (auto split: prod.splits response.splits)

lemma run_keeps:
  assumes "securityHeadersMiddleware (limited on N trusted clk g) r rl = (resp, rl')" and "keeps_security g"
  shows "\<exists>h. keeps_security h \<and> resp = h r (securityHeaders (isTLS r))"
  using keeps_limited [OF assms(2), of on N trusted clk rl] assms(1)
  by (intro exI [of _ "\<lambda>r hs. fst (limited on N trusted clk g r hs rl)"])
    (simp add: securityHeadersMiddleware_def)

lemma serve_keeps:
  assumes "fst (serve P N trusted w r srv) = Some resp" and "\<forall>page. keeps_security (promhttp P page)"
  shows "\<exists>h. keeps_security h \<and> resp = h r (securityHeaders (isTLS r))"
  using assms keeps_handlers by (auto simp: serve_def Let_def split: if_splits prod.splits dest!: run_keeps)

text \<open>C33. Every answer that is not a redirect of an unclean path, the refusals of the rate limiter and the
  error pages included, carries the protections against sniffing, framing and script injection,
  and the strict transport header exactly when the connection is encrypted, provided the Prometheus
  handler only adds headers that describe its content.\<close>

theorem pages_carry_security_headers:
  assumes "fst (serve P N trusted w r srv) = Some resp"
    and "\<forall>page r hs k. k \<noteq> ''Content-Type'' \<and> k \<noteq> ''Content-Encoding'' \<and> k \<noteq> ''Vary'' \<longrightarrow>
           map_of (headers (promhttp P page r hs)) k = map_of hs k"
  shows "map_of (headers resp) ''X-Content-Type-Options'' = Some ''nosniff'' \<and>
    map_of (headers resp) ''X-Frame-Options'' = Some ''DENY'' \<and>
    map_of (headers resp) ''Content-Security-Policy'' = Some csp \<and>
    map_of (headers resp) ''Referrer-Policy'' = Some ''strict-origin-when-cross-origin'' \<and>
    map_of (headers resp) ''Strict-Transport-Security'' =
      (if isTLS r then Some ''max-age=31536000; includeSubDomains'' else None)"
proof -
  have "\<forall>page. keeps_security (promhttp P page)" using assms(2) by (auto simp: keeps_security_def)
  then obtain h where h: "keeps_security h" "resp = h r (securityHeaders (isTLS r))"
    using serve_keeps [OF assms(1)] by blast
  have "map_of (securityHeaders (isTLS r)) ''X-Content-Type-Options'' = Some ''nosniff''"
    by (simp add: map_of_securityHeaders)
  then have "map_of (headers resp) ''X-Content-Type-Options'' = Some ''nosniff''"
    using h unfolding keeps_security_def by blast
  moreover have "map_of (headers resp) k = map_of (securityHeaders (isTLS r)) k"
    if "k \<in> {''X-Frame-Options'', ''X-XSS-Protection'', ''Referrer-Policy'', ''Content-Security-Policy'',
      ''Strict-Transport-Security'', ''X-Permitted-Cross-Domain-Policies''}" for k
    using h that unfolding keeps_security_def by blast
  ultimately show ?thesis by (simp add: map_of_securityHeaders)
qed

text \<open>A concrete server: rate limiting on, a burst of one request, a plain Prometheus page.\<close>

definition plain_pages :: Pages where
  "plain_pages = \<lparr>promhttp = (\<lambda>page r hs. \<lparr>status = 200, headers = set_header ''Content-Type'' ''text/plain'' hs, body = page\<rparr>),
     rootPage = (\<lambda>v i e. v), localTime = format_rfc3339, Version = ''dev''\<rparr>"

definition no_net :: Net where
  "no_net = \<lparr>ParseIP = (\<lambda>_. None), IPString = (\<lambda>_. ''''), To4 = (\<lambda>_. True), ParseCIDR = (\<lambda>_. None),
     ContainsIP = (\<lambda>_ _. False), SplitHostPort = (\<lambda>s. Some (takeWhile (\<lambda>c. c \<noteq> CHR '':'') s))\<rparr>"

definition web_world :: "CircuitBreaker \<Rightarrow> World" where
  "web_world cb = \<lparr>w_now = 90 * second, w_clock = (0, 0), w_startTime = 0, w_breaker = cb\<rparr>"

definition web_request :: "string \<Rightarrow> HttpRequest" where
  "web_request p = \<lparr>RemoteAddr = ''10.0.0.7:4711'', Header = (\<lambda>_. ''''), Path = p, Method = ''GET'', isTLS = False\<rparr>"


lemma serve_frame:
  "Path r \<noteq> ''/health'' \<Longrightarrow> healthLimiter (snd (serve P N trusted w r srv)) = healthLimiter srv"
  "srv_cfg (snd (serve P N trusted w r srv)) = srv_cfg srv"
  by (auto simp: serve_def Let_def split: prod.splits)

lemma serve_frames:
  assumes "\<forall>x\<in>set reqs. Path (snd x) \<noteq> ''/health''"
  shows "healthLimiter (fold (\<lambda>x s. snd (serve P N trusted (fst x) (snd x) s)) reqs srv) = healthLimiter srv \<and>
    srv_cfg (fold (\<lambda>x s. snd (serve P N trusted (fst x) (snd x) s)) reqs srv) = srv_cfg srv"
  using assms by (induction reqs arbitrary: srv) (simp_all add: serve_frame)

lemma health_path: "cleanPath ''/health'' = ''/health''" "cleanPath ''/metrics'' = ''/metrics''"
  by code_simp+

lemma serve_health:
  assumes "Path r = ''/health''"
  shows "fst (serve P N trusted w r srv) =
    Some (fst (limited (RateLimitEnabled (srv_cfg srv)) N trusted (w_clock w)
      (\<lambda>r. handleHealth (localTime P) (Version P) (w_now w) (w_startTime w) (w_breaker w)) r
      (securityHeaders (isTLS r)) (healthLimiter srv)))"
  using assms by (simp add: serve_def health_path securityHeadersMiddleware_def Let_def split: prod.split)

lemma fresh_bucket_admits:
  assumes "1 \<le> b" "exact_int b" "clk = (t, t)"
  shows "fst (RateLimitMiddlewareWithMonitoring N trusted m (fst clk) (snd clk) r (NewRateLimiter n b)) = Served"
proof -
  have "fst (Allow t t ip (NewRateLimiter n b))" for ip
    using assms by (simp add: Allow_def NewRateLimiter_def allowBucket_def Minutes_0 time_Sub_self f_le_def f_eq_def split: prod.split)
      (simp add: case_prod_unfold Let_def)
  then obtain rl where "Allow t t (GetClientIP N trusted r) (NewRateLimiter n b) = (True, rl)" by (metis prod.collapse)
  then show ?thesis using assms(3) by (simp add: RateLimitMiddlewareWithMonitoring_def Let_def)
qed

text \<open>C24. Traffic on the other pages never uses up the health probe's allowance: after any requests to
  them, a probe gets the answer it would get from a fresh server, which with a burst of at least one
  is 200 exactly while the breaker to the LDAP server is not open and 503 otherwise, and that answer
  is the exit code of the health check.\<close>

theorem health_page_answers_breaker:
  assumes "Path r = ''/health''" and "\<forall>x\<in>set reqs. Path (snd x) \<noteq> ''/health''"
    and "srv = setupHTTPRoutes env cfg" and "srv' = fold (\<lambda>x s. snd (serve P N trusted (fst x) (snd x) s)) reqs srv"
    and "1 \<le> getEnvInt env ''HEALTH_RATE_LIMIT_BURST'' 20" "getEnvInt env ''HEALTH_RATE_LIMIT_BURST'' 20 \<le> 2 ^ 53"
    and "w_clock w = (t, t)"
  shows "\<exists>resp. fst (serve P N trusted w r srv') = Some resp \<and> fst (serve P N trusted w r srv) = Some resp \<and>
    status resp = (if IsHealthy (w_breaker w) then 200 else 503) \<and>
    runHealthCheck (\<lambda>_. Some resp) addr = (if IsHealthy (w_breaker w) then 0 else 1)"
proof -
  let ?b = "getEnvInt env ''HEALTH_RATE_LIMIT_BURST'' 20" let ?h = "handleHealth (localTime P) (Version P) (w_now w) (w_startTime w) (w_breaker w)"
  have same: "healthLimiter srv' = healthLimiter srv" "srv_cfg srv' = srv_cfg srv"
    using serve_frames [OF assms(2), of P N trusted srv] assms(4) by simp_all
  have lim: "healthLimiter srv = NewRateLimiter (getEnvInt env ''HEALTH_RATE_LIMIT_REQUESTS'' 60) ?b"
    using assms(3) by (simp add: setupHTTPRoutes_def Let_def)
  have "exact_int ?b" using assms(5,6) by (simp add: exact_int_def)
  note fresh = fresh_bucket_admits [OF assms(5) this assms(7)]
  have ok: "fst (limited on N trusted (w_clock w) (\<lambda>r. ?h) r hs (healthLimiter srv)) = ?h hs" for on hs
    using fresh [of N trusted True "Request.truncate r" "getEnvInt env ''HEALTH_RATE_LIMIT_REQUESTS'' 60"]
    by (auto simp: limited_def lim split: prod.split response.split)
  have "fst (serve P N trusted w r srv) = Some (?h (securityHeaders (isTLS r)))"
    "fst (serve P N trusted w r srv') = Some (?h (securityHeaders (isTLS r)))"
    unfolding serve_health [OF assms(1)] same ok by simp_all
  moreover have "status (?h hs) = (if IsHealthy (w_breaker w) then 200 else 503)" for hs
    by (simp add: handleHealth_def Let_def)
  ultimately show ?thesis by (auto simp: runHealthCheck_def Let_def)
qed


definition sample_config :: Config where
  "sample_config = (envConfig (\<lambda>_. '''') None)\<lparr>RateLimitEnabled := True\<rparr>"

definition sample_server :: Server where
  "sample_server = setupHTTPRoutes (\<lambda>_. '''') sample_config"

definition sample_breaker :: CircuitBreaker where
  "sample_breaker = ForceOpen (NewCircuitBreaker \<lparr>MaxFailures = 3, Timeout = 60 * second, ResetTimeout = 15 * second, SuccessThreshold = 2\<rparr>)"

lemma pages_carry_security_headers_witness:
  "\<exists>resp. fst (serve plain_pages no_net [] (web_world sample_breaker) (web_request ''/metrics'') sample_server) = Some resp \<and>
     map_of (headers resp) ''X-Frame-Options'' = Some ''DENY''"
proof -
  obtain resp where r: "fst (serve plain_pages no_net [] (web_world sample_breaker) (web_request ''/metrics'') sample_server) = Some resp"
    by (simp add: serve_def web_request_def health_path securityHeadersMiddleware_def case_prod_unfold Let_def)
  from pages_carry_security_headers [OF this] have "map_of (headers resp) ''X-Frame-Options'' = Some ''DENY''"
    by (simp add: plain_pages_def)
  then show ?thesis using r by blast
qed

lemma health_page_answers_breaker_witness:
  "runHealthCheck (\<lambda>_. fst (serve plain_pages no_net [] (web_world sample_breaker) (web_request ''/health'')
     (snd (serve plain_pages no_net [] (web_world sample_breaker) (web_request ''/metrics'') sample_server)))) '':9330'' = 1"
proof -
  have "getEnvInt (\<lambda>_. '''') ''HEALTH_RATE_LIMIT_BURST'' 20 = 20" by (simp add: getEnvInt_def)
  moreover have "\<not> IsHealthy sample_breaker" by code_simp
  ultimately show ?thesis
    using health_page_answers_breaker [of "web_request ''/health''" "[(web_world sample_breaker, web_request ''/metrics'')]"
        sample_server "\<lambda>_. ''''" sample_config _ plain_pages no_net "[]" "web_world sample_breaker" 0 "'':9330''"]
    by (auto simp: sample_server_def web_request_def web_world_def)
qed

subsection \<open>Start and stop\<close>

text \<open>Once the server is down the poller stops first, because it uses the exporter's client; the events
  runner stops before its client closes; the exporter closes; the credentials are cleared last. A
  part that was not started is not stopped, and the events client is closed exactly once.\<close>

lemma main_stops_in_order:
  "\<exists>started. fst (main env addr False False code (Some cfg) eventsOk cause drained) =
     started @ ShutdownHTTP (shutdownTimeout env) # LogShutdown drained #
       (if ReplicationPollEnabled cfg then [StopPoller] else []) @
       (if EventsEnabled cfg \<and> eventsOk then [StopEvents, CloseEventsClient] else []) @ [CloseExporter, ClearConfig] \<and>
     (StartPoller \<in> set started \<longleftrightarrow> ReplicationPollEnabled cfg) \<and>
     (StartEvents \<in> set started \<longleftrightarrow> EventsEnabled cfg \<and> eventsOk) \<and>
     count_list (fst (main env addr False False code (Some cfg) eventsOk cause drained)) CloseEventsClient =
       (if EventsEnabled cfg then 1 else 0)"
  by (simp add: main_def start_events_def start_poller_def serve_until_stopped_def act_def defers_def Let_def)

text \<open>A server that cannot listen ends the process with exit code 0.\<close>

lemma failed_listen_exits_zero:
  "snd (main env addr False False code (Some cfg) eventsOk (ListenFailed e) drained) = 0"
  by (simp add: main_def Let_def)

end
