(* ===== verification/InternalPage.thy ===== *)
theory InternalPage
  imports WebProperties Monitoring
begin

section \<open>The internal metrics page\<close>

text \<open>
  \<open>handleInternalMetrics\<close> of cmd/main.go: the gauges about the process are set, all monitoring vectors are
  registered with a registry made for this request, and the Prometheus library renders what the
  registry gathers. The runtime's figures are a record; the rendering is a parameter.
\<close>

record runtime_stats =
  NumGoroutine :: int
  HeapInuse :: int
  StackInuse :: int
  Sys :: int

text \<open>
  What a fresh registry answers to a vector, given those it holds: a full name is accepted once
  (documented behaviour of \<open>Registry.Register\<close> for vectors of one program).
\<close>

definition fresh_register :: "im_metric list \<Rightarrow> im_metric \<Rightarrow> string option" where
  "fresh_register held m =
     (if map_option vec_name (map_of im_vecs m) \<in> (\<lambda>m. map_option vec_name (map_of im_vecs m)) ` set held
      then Some ''duplicate metrics collector registration attempted'' else None)"

text \<open>The vectors a registry holds after the registrations in the order of the code.\<close>

fun registry_holds :: "im_metric list \<Rightarrow> im_metric list \<Rightarrow> im_metric list" where
  "registry_holds held [] = held"
| "registry_holds held (m # ms) =
     registry_holds (if fresh_register held m = None then held @ [m] else held) ms"

definition handleInternalMetrics ::
  "runtime_stats \<Rightarrow> time \<Rightarrow> (im_metric list \<Rightarrow> (im_metric \<Rightarrow> (string \<times> string) set \<Rightarrow> float64 option)
       \<Rightarrow> HttpRequest \<Rightarrow> headers \<Rightarrow> HttpResponse)
     \<Rightarrow> HttpRequest \<Rightarrow> headers \<Rightarrow> InternalMonitoring \<Rightarrow> HttpResponse \<times> InternalMonitoring" where
  "handleInternalMetrics m now render r hs im =
     (let im = UpdateSystemMetrics ''openldap-exporter'' (NumGoroutine m) (HeapInuse m) (StackInuse m) (Sys m) now im
      in (render (registry_holds [] registered) (published im_vecs (im_calls im)) r hs, im))"

lemma registered_names: "distinct (map (\<lambda>m. map_option vec_name (map_of im_vecs m)) registered)"
  by code_simp

lemma registry_holds_all:
  "distinct (map (\<lambda>m. map_option vec_name (map_of im_vecs m)) (held @ ms)) \<Longrightarrow> registry_holds held ms = held @ ms"
proof (induction ms arbitrary: held)
  case (Cons m ms)
  then have "fresh_register held m = None" by (auto simp: fresh_register_def)
  with Cons show ?case by simp
qed simp

text \<open>
  The page is rendered from all monitoring vectors - none is refused, however often the page was asked for -
  and shows the process as it is now.
\<close>

lemma internal_page_is_current:
  assumes "handleInternalMetrics m now render r hs im = (resp, im')"
  shows "resp = render registered (published im_vecs (im_calls im')) r hs \<and>
    published im_vecs (im_calls im') GoroutineCount {(''server'', ''openldap-exporter'')} = Some (f_of_int (NumGoroutine m)) \<and>
    published im_vecs (im_calls im') MemoryUsage {(''server'', ''openldap-exporter''), (''type'', ''heap'')} =
      Some (f_of_int (HeapInuse m)) \<and>
    published im_vecs (im_calls im') Uptime {(''server'', ''openldap-exporter'')} =
      Some (duration_Seconds (time_Sub now (im_startTime im)))"
  using assms registry_holds_all [of "[]" registered] registered_names
  by (auto simp: handleInternalMetrics_def UpdateSystemMetrics_def im_call_def published_append apply_call_def
      series_of_def Let_def doubleton_eq_iff)

end
