(* ===== verification/EventsProperties.thy ===== *)
theory EventsProperties
  imports Events
begin

section \<open>What the events stream delivers\<close>

text \<open>
  Properties of the scans over a growing accesslog (which entries become events, and how often),
  of a tick with a failing stream, of the serialised line, and of the files the emitter writes.
\<close>

subsection \<open>Binds over a growing log\<close>

text \<open>A sink that keeps the events in order, with a fixed clock.\<close>

definition keep_event :: "Event \<Rightarrow> Event list \<Rightarrow> Event list" where
  "keep_event ev s = s @ [ev]"

definition fixed_clock :: "time \<Rightarrow> 's \<Rightarrow> time \<times> 's" where
  "fixed_clock t s = (t, s)"

text \<open>
  The documented behaviour of the server's filter on the stamps of the log: it compares instants.
  \<open>began e\<close> is the instant of an entry, its stamp is that instant in the fixed-width format.
\<close>

definition time_server :: "(string \<Rightarrow> Entry \<Rightarrow> bool) \<Rightarrow> string \<Rightarrow> (Entry \<Rightarrow> time) \<Rightarrow> Entry set \<Rightarrow> bool" where
  "time_server matches base began E \<longleftrightarrow>
     (\<forall>e\<in>E. stampable (began e) \<and> stamp e = format_generalized (began e) \<and>
       (\<forall>a. stampable a \<longrightarrow>
          matches (BuildIncrementalFilter base (format_generalized a)) e =
            (matches base e \<and> a div 1000 \<le> began e div 1000)))"

lemma time_server_law:
  assumes "time_server matches base began E" "cur \<in> format_generalized ` Collect stampable" "e \<in> E"
  shows "matches (BuildIncrementalFilter base cur) e \<longleftrightarrow> matches base e \<and> str_le cur (stamp e)"
proof -
  obtain a where a: "cur = format_generalized a" "stampable a" using assms(2) by auto
  have e: "stampable (began e)" "stamp e = format_generalized (began e)"
    "matches (BuildIncrementalFilter base cur) e = (matches base e \<and> a div 1000 \<le> began e div 1000)"
    using assms(1,3) a by (auto simp: time_server_def)
  have "str_less (stamp e) cur \<longleftrightarrow> began e div 1000 < a div 1000"
    unfolding e(2) a(1) by (rule stamp_order [OF e(1) a(2)])
  then have "a div 1000 \<le> began e div 1000 \<longleftrightarrow> str_le cur (stamp e)"
    unfolding str_not_less [symmetric] by (simp only: not_less)
  then show ?thesis using e(3) by (simp only:)
qed

lemma bind_body_sink:
  "\<exists>ev. bind_body server (fixed_clock t) keep_event e s = (1, s @ [ev]) \<and> ReqStart ev = stamp e"
  by (simp add: bind_body_def Let_def keep_event_def parseEventTimestamp_def ParseReqStart_def fixed_clock_def
      audit_event_def split: prod.splits option.splits)

lemma bind_bodies_sink:
  "map ReqStart (snd (run_bodies (bind_body server (fixed_clock t) keep_event) es n s)) =
     map ReqStart s @ map (\<lambda>e. stamp e) es"
proof (induction es arbitrary: n s)
  case (Cons e es)
  obtain ev where "bind_body server (fixed_clock t) keep_event e s = (1, s @ [ev])" "ReqStart ev = stamp e"
    using bind_body_sink by blast
  then show ?case using Cons by simp
qed simp

lemma scanBinds_history:
  "scanBinds server now emit search c s = scan_stream search StreamBind BindBaseFilter
       [''reqStart'', ''reqDN'', ''reqResult'', ''reqSession'', ''reqAuthzID''] (bind_body server now emit) c s"
  by (simp add: scanBinds_def)

text \<open>What a stream hands to its body over a history, whatever the body does.\<close>

lemma stream_history:
  assumes "time_server matches base began (set (appended steps))"
    and "stampable start" and "\<forall>e\<in>set (appended steps). start div 1000 < began e div 1000"
    and "sorted_wrt (\<lambda>a b. began a div 1000 < began b div 1000) (filter (matches base) (appended steps))"
    and scan: "\<And>search c s. scn search c s = scan_stream search st base attrs body c s"
  shows "snd (scan_history scn matches steps [] (NewCursorState start) s) =
    snd (run_bodies body (filter (matches base) (delivered False [] steps)) 0 s)"
proof -
  define E C where "E = set (appended steps)" and "C = format_generalized ` Collect stampable"
  have st: "stampable (began e) \<and> stamp e = format_generalized (began e)" if "e \<in> E" for e
    using assms(1) that by (simp add: time_server_def E_def)
  have c: "cursor_of (NewCursorState start) st = format_generalized start" "ready_of (NewCursorState start) st = False"
    by (cases st; simp add: cursor_of_def ready_of_def NewCursorState_def NowGeneralizedTime_def Let_def)+
  have less: "stamp_less a b" if "a \<in> E" "b \<in> E" "began a div 1000 < began b div 1000" for a b
    using st [OF that(1)] st [OF that(2)] that(3) stamp_order by simp
  have sorted: "sorted_wrt stamp_less (filter (matches base) ([] @ appended steps))"
    using assms(4) by (auto intro: sorted_wrt_mono_rel [rotated] simp: less E_def)
  have fresh: "\<forall>e\<in>set (filter (matches base) ([] @ appended steps)).
      str_less (cursor_of (NewCursorState start) st) (stamp e)"
    using assms(2,3) st stamp_order by (auto simp: c E_def)
  have "snd (scan_history scn matches steps ([] @ []) (NewCursorState start) s) =
    snd (run_bodies body (filter (matches base) (delivered (ready_of (NewCursorState start) st) [] steps)) 0 s)"
    by (rule scan_history_exact [where C = C and E = E, OF _ _ scan])
      (use time_server_law [OF assms(1)] st assms(2) sorted fresh in \<open>auto simp: C_def E_def c\<close>)
  then show ?thesis by (simp add: c)
qed

text \<open>
  Over any history of appended entries and scans, some of which fail, the bind events are exactly
  the bind entries appended since the first successful scan and covered by a later one, each
  once and in the order of the log: nothing is lost to a failed search and nothing is repeated.
  The entries carry increasing stamps of the fixed-width format, all later than the start, and
  the server compares instants.
\<close>

theorem bind_events_exactly_once:
  assumes "time_server matches BindBaseFilter began (set (appended steps))"
    and "stampable start" and "\<forall>e\<in>set (appended steps). start div 1000 < began e div 1000"
    and "sorted_wrt (\<lambda>a b. began a div 1000 < began b div 1000) (filter (matches BindBaseFilter) (appended steps))"
  shows "map ReqStart (snd (scan_history (scanBinds server (fixed_clock t) keep_event) matches steps []
      (NewCursorState start) [])) =
    map (\<lambda>e. stamp e) (filter (matches BindBaseFilter) (delivered False [] steps))"
  by (simp add: stream_history [OF assms scanBinds_history] bind_bodies_sink)

text \<open>A server whose log holds binds only: it reads the bound out of the filter.\<close>

definition binds_server :: "string \<Rightarrow> Entry \<Rightarrow> bool" where
  "binds_server flt e = str_le (take 22 (drop (length BindBaseFilter + 13) flt)) (stamp e)"

definition bind_at :: "nat \<Rightarrow> Entry" where
  "bind_at n =
     \<lparr>DN = replicate n CHR ''x'', EntryAttributes = [(''reqStart'', [format_generalized (int n * second)])],
      GetAttributeValue = (\<lambda>_. ''''), GetAttributeValues = (\<lambda>_. [])\<rparr>"

lemma stamp_bind_at [simp]: "stamp (bind_at n) = format_generalized (int n * second)"
  by (simp add: bind_at_def Attr_def)

lemma length_format_generalized: "length (format_generalized t) = 22"
  by (simp add: format_generalized_def Let_def)

lemma str_le_Nil [simp]: "str_le [] s"
  by (cases s) (simp_all add: str_le_def)

lemma stampable_early: "stampable (int n * second)" if "n < 10"
proof -
  have "\<forall>n\<in>set [0..<10]. c_year (civil_of (int n * second)) = 1" by code_simp
  then show ?thesis using that by (simp add: stampable_def second_def)
qed

lemma DN_bind_at [simp]: "DN (bind_at n) = replicate n CHR ''x''"
  by (simp add: bind_at_def)

lemma binds_server_time_server:
  assumes "E \<subseteq> bind_at ` {..<10}"
  shows "time_server binds_server BindBaseFilter (\<lambda>e. int (length (DN e)) * second) E"
  unfolding time_server_def
proof (intro ballI conjI allI impI)
  fix e a
  assume "e \<in> E"
  then obtain n where n: "e = bind_at n" "stampable (int n * second)" using assms stampable_early by blast
  then have d: "int (length (DN e)) * second = int n * second" by simp
  show "stampable (int (length (DN e)) * second)" "stamp e = format_generalized (int (length (DN e)) * second)"
    unfolding d using n by simp_all
  assume a: "stampable a"
  have "format_generalized a \<noteq> []" using length_format_generalized [of a] by auto
  then have "take 22 (drop (length BindBaseFilter + 13) (BuildIncrementalFilter BindBaseFilter (format_generalized a))) =
      format_generalized a"
    using length_format_generalized [of a] by (simp add: BuildIncrementalFilter_def BindBaseFilter_def)
  then have "binds_server (BuildIncrementalFilter BindBaseFilter (format_generalized a)) e \<longleftrightarrow>
      \<not> str_less (stamp e) (format_generalized a)"
    by (simp add: binds_server_def str_not_less)
  moreover have "binds_server BindBaseFilter e" by (simp add: binds_server_def)
  ultimately show "binds_server (BuildIncrementalFilter BindBaseFilter (format_generalized a)) e =
      (binds_server BindBaseFilter e \<and> a div 1000 \<le> int (length (DN e)) * second div 1000)"
    unfolding d using stamp_order [OF n(2) a] n(1) by (simp only: stamp_bind_at not_less simp_thms)
qed

lemma bind_events_exactly_once_witness:
  "map ReqStart (snd (scan_history (scanBinds ''ldap'' (fixed_clock 0) keep_event) binds_server
      [([bind_at 1], True), ([bind_at 2], False), ([bind_at 3], True)] [] (NewCursorState 0) [])) =
    [format_generalized (2 * second), format_generalized (3 * second)]"
proof -
  have "time_server binds_server BindBaseFilter (\<lambda>e. int (length (DN e)) * second) {bind_at 1, bind_at 2, bind_at 3}"
    by (rule binds_server_time_server) auto
  moreover have "stampable 0" using stampable_early [of 0] by simp
  moreover have "binds_server BindBaseFilter e" for e by (simp add: binds_server_def)
  ultimately show ?thesis
    by (subst bind_events_exactly_once [where began = "\<lambda>e. int (length (DN e)) * second"]) (simp_all add: second_def)
qed

subsection \<open>Stamps of mixed width\<close>

definition half_past_noon :: Entry where
  "half_past_noon =
     \<lparr>DN = '''', EntryAttributes = [(''reqStart'', [''20260101120000.5Z''])],
      GetAttributeValue = (\<lambda>_. ''''), GetAttributeValues = (\<lambda>_. [])\<rparr>"

definition noon_server :: "string \<Rightarrow> Entry \<Rightarrow> bool" where
  "noon_server flt e \<longleftrightarrow>
     flt = BuildIncrementalFilter BindBaseFilter ''20260101120000Z'' \<and>
     (case (ParseGeneralizedTime ''20260101120000Z'', ParseGeneralizedTime (stamp e)) of
        (Some a, Some b) \<Rightarrow> a \<le> b
      | _ \<Rightarrow> False)"

lemma noon_server_half_past:
  "noon_server (BuildIncrementalFilter BindBaseFilter ''20260101120000Z'') half_past_noon"
proof -
  have "stamp half_past_noon = ''20260101120000.5Z''" by (simp add: half_past_noon_def Attr_def)
  moreover have "case (ParseGeneralizedTime ''20260101120000Z'', ParseGeneralizedTime ''20260101120000.5Z'') of
      (Some a, Some b) \<Rightarrow> a \<le> b | _ \<Rightarrow> False" by code_simp
  ultimately show ?thesis by (simp add: noon_server_def)
qed

text \<open>
  The cursor compares stamps as strings and the server as instants. On a log with stamps of
  different widths the two disagree: with the cursor at noon, an entry half a second later is
  returned by every search, is not the cursor's entry, and does not move the cursor, so every scan
  of the idle log emits it again.
\<close>

theorem mixed_width_stamps_repeat:
  "map ReqStart (snd (scan_history (scanBinds server (fixed_clock t) keep_event) noon_server (replicate n ([], True))
      [half_past_noon] (c\<lparr>BindCursor := ''20260101120000Z'', BindReady := True\<rparr>) [])) =
    replicate n ''20260101120000.5Z''"
proof -
  let ?c = "c\<lparr>BindCursor := ''20260101120000Z'', BindReady := True\<rparr>"
  have st: "stamp half_past_noon = ''20260101120000.5Z''" by (simp add: half_past_noon_def Attr_def)
  have less: "\<not> str_less ''20260101120000Z'' ''20260101120000.5Z''" by code_simp
  have one: "\<exists>ev. scanBinds server (fixed_clock t) keep_event (log_search noon_server [half_past_noon] True) ?c s =
      (Inr 1, ?c, s @ [ev]) \<and> ReqStart ev = ''20260101120000.5Z''" for s :: "Event list"
  proof -
    have f: "log_search noon_server [half_past_noon] True
        (BuildIncrementalFilter BindBaseFilter (cursor_of ?c StreamBind)) attrs s = (Inr [half_past_noon], s)" for attrs
      by (simp add: log_search_def cursor_of_def noon_server_half_past)
    obtain ev where ev: "bind_body server (fixed_clock t) keep_event half_past_noon s = (1, s @ [ev])"
      "ReqStart ev = stamp half_past_noon" using bind_body_sink by blast
    have adv: "Advance ?c StreamBind ''20260101120000Z'' = ?c" by simp
    show ?thesis
      unfolding scanBinds_history
        scan_stream_ok [where search = "log_search noon_server [half_past_noon] True", OF f]
      using ev st less adv
      by (simp add: fresh_entries_def max_stamp_def MaxString_def cursor_of_def ready_of_def)
  qed
  have "map ReqStart (snd (scan_history (scanBinds server (fixed_clock t) keep_event) noon_server
      (replicate n ([], True)) [half_past_noon] ?c s)) = map ReqStart s @ replicate n ''20260101120000.5Z''" for s
  proof (induction n arbitrary: s)
    case (Suc n)
    obtain ev where ev: "scanBinds server (fixed_clock t) keep_event (log_search noon_server [half_past_noon] True) ?c s =
      (Inr 1, ?c, s @ [ev])" "ReqStart ev = ''20260101120000.5Z''" using one by blast
    show ?case using Suc.IH [of "s @ [ev]"] by (simp add: ev)
  qed simp
  then show ?thesis by simp
qed

subsection \<open>A stream that fails\<close>

text \<open>
  While the search of the bind stream fails, no number of ticks moves the write or the lock cursor
  or emits anything, whatever the log holds: the tick stops at the first stream that fails.
\<close>

theorem failing_binds_freeze_all_streams:
  assumes "\<And>s. search (BuildIncrementalFilter BindBaseFilter (BindCursor c))
      [''reqStart'', ''reqDN'', ''reqResult'', ''reqSession'', ''reqAuthzID''] s = (Inl err, s)"
  shows "((\<lambda>(c, s). snd (scan server now emit search c s)) ^^ n) (c, s) = (c, s)"
proof -
  have "scan server now emit search c s = ((0, Some (BindStream err)), c, s)"
    by (simp add: scan_def scanBinds_def scan_stream_def assms)
  then show ?thesis by (induction n) simp_all
qed

lemma failing_binds_freeze_all_streams_witness:
  "((\<lambda>(c, s). snd (scan ''ldap'' (fixed_clock 0) keep_event
      (\<lambda>flt attrs s. (if flt = BuildIncrementalFilter BindBaseFilter (BindCursor (NewCursorState 0))
         then Inl ''size limit'' else Inr [bind_at 1], s)) c s)) ^^ 5) (NewCursorState 0, []) = (NewCursorState 0, [])"
  by (rule failing_binds_freeze_all_streams [where err = "''size limit''"]) simp

end
