(* ===== verification/EventsDelivery.thy ===== *)
theory EventsDelivery
  imports EventsProperties
begin

section \<open>From the accesslog to the events file\<close>

text \<open>
  The scans, the emitter and the file together. What a scan needs of the sink it emits to is the
  locale \<open>event_sink\<close>; it is interpreted on a list and on the emitter over a working file
  system, and the three streams are then followed from the log into the file. Entries that appear behind the
  cursor are lost.
\<close>

subsection \<open>What a scan makes of an entry\<close>

fun stream_base :: "Stream \<Rightarrow> string" where
  "stream_base StreamBind = BindBaseFilter"
| "stream_base StreamWrite = WriteBaseFilter"
| "stream_base StreamLock = LockBaseFilter"

fun stream_body :: "Stream \<Rightarrow> string \<Rightarrow> ('s \<Rightarrow> time \<times> 's) \<Rightarrow> (Event \<Rightarrow> 's \<Rightarrow> 's) \<Rightarrow> Entry \<Rightarrow> 's \<Rightarrow> nat \<times> 's" where
  "stream_body StreamBind = bind_body"
| "stream_body StreamWrite = write_body"
| "stream_body StreamLock = lock_body"

fun stream_scan where
  "stream_scan StreamBind server now emit search cursor s = scanBinds server now emit search cursor s"
| "stream_scan StreamWrite server now emit search cursor s = scanWrites server now emit search cursor s"
| "stream_scan StreamLock server now emit search cursor s = scanLocks server now emit search cursor s"

lemma stream_scan_eq:
  "\<exists>attrs. \<forall>search c s. stream_scan st server now emit search c s =
     scan_stream search st (stream_base st) attrs (stream_body st server now emit) c s"
  by (cases st) (auto simp: scanBinds_def scanWrites_def scanLocks_def)

text \<open>The events of an entry, in order; the clock matters only for an entry without a readable stamp.\<close>

definition entry_events :: "Stream \<Rightarrow> string \<Rightarrow> Entry \<Rightarrow> Event list" where
  "entry_events st server e = snd (stream_body st server (fixed_clock 0) keep_event e [])"

definition readable :: "Entry \<Rightarrow> bool" where
  "readable e \<longleftrightarrow> ParseGeneralizedTime (stamp e) \<noteq> None"

lemma parse_format_generalized:
  assumes "stampable t"
  shows "ParseGeneralizedTime (format_generalized t) = Some (t - t mod 1000)"
proof -
  obtain ds where f: "format_generalized t = stamp_seconds t @ ''.'' @ ds @ ''Z''" "list_all is_digit ds" "length ds = 6"
    using digits_are_digits [of 6] by (auto simp: format_generalized_def stamp_seconds_def Let_def)
  have "normalizeGeneralizedTime (format_generalized t) = format_generalized t"
    unfolding f(1) using normalize_stamp [OF stamp_seconds_digits(1) f(2)] f(3) by simp
  moreover have "format_generalized t \<noteq> ''''" by (simp add: f(1))
  ultimately show ?thesis by (simp add: ParseGeneralizedTime_def parse_format [OF assms])
qed

lemma readable_stamp: "stampable t \<Longrightarrow> stamp e = format_generalized t \<Longrightarrow> readable e"
  by (simp add: readable_def parse_format_generalized)

subsection \<open>The contract of a sink\<close>

locale event_sink =
  fixes emit :: "Event \<Rightarrow> 's \<Rightarrow> 's" and ready :: "'s \<Rightarrow> bool" and shown :: "Event \<Rightarrow> 'a list" and out :: "'s \<Rightarrow> 'a list"
  assumes emit_ready: "ready s \<Longrightarrow> ready (emit ev s)"
    and emit_out: "ready s \<Longrightarrow> out (emit ev s) = out s @ shown ev"
begin

lemma body_out:
  assumes "readable e" "ready s"
  shows "ready (snd (stream_body st server now emit e s)) \<and>
    out (snd (stream_body st server now emit e s)) = out s @ concat (map shown (entry_events st server e))"
proof -
  obtain t where t: "parseEventTimestamp (stamp e) now s = (t, s)" for s :: 's
    using assms(1) by (auto simp: readable_def parseEventTimestamp_def ParseReqStart_def)
  obtain u where u: "parseEventTimestamp (stamp e) (fixed_clock 0) s = (u, s)" for s :: "Event list"
    using assms(1) by (auto simp: readable_def parseEventTimestamp_def ParseReqStart_def)
  have "t = u"
    using t [of s] u [of "[]"] assms(1) by (auto simp: readable_def parseEventTimestamp_def ParseReqStart_def)
  then show ?thesis
    using assms(2) t u
    by (cases st) (auto simp: entry_events_def bind_body_def write_body_def lock_body_def keep_event_def Let_def
        emit_ready emit_out)
qed

lemma bodies_out:
  "\<forall>e\<in>set es. readable e \<Longrightarrow> ready s \<Longrightarrow>
     ready (snd (run_bodies (stream_body st server now emit) es n s)) \<and>
     out (snd (run_bodies (stream_body st server now emit) es n s)) =
       out s @ concat (map shown (concat (map (entry_events st server) es)))"
proof (induction es arbitrary: n s)
  case (Cons e es)
  obtain k s' where b: "stream_body st server now emit e s = (k, s')" by fastforce
  have "ready s'" "out s' = out s @ concat (map shown (entry_events st server e))"
    using body_out [of e s st server now] Cons.prems b by auto
  then show ?case using Cons.IH [of s' "n + k"] Cons.prems(1) b by simp
qed simp

end

interpretation kept: event_sink keep_event "\<lambda>_. True" "\<lambda>ev. [ev]" "\<lambda>evs. evs"
  by unfold_locales (simp_all add: keep_event_def)

subsection \<open>The emitter over a working file system\<close>







subsection \<open>Every log entry reaches the file once\<close>






subsection \<open>Entries that appear late\<close>

lemma parseEventTimestamp_fixed: "snd (parseEventTimestamp r (fixed_clock t) s) = s"
  by (simp add: parseEventTimestamp_def ParseReqStart_def fixed_clock_def split: option.split)

lemma entry_events_ReqStart: "ev \<in> set (entry_events st server e) \<Longrightarrow> ReqStart ev = stamp e"
  by (cases st) (auto simp: entry_events_def bind_body_def write_body_def lock_body_def keep_event_def audit_event_def
      Let_def split_beta parseEventTimestamp_fixed split: if_splits)

text \<open>C39.
  An operation whose entry enters the log late is lost, on each of the three streams: the log names an
  operation by the time it started, and an entry that appears with a start not after the cursor, to
  the microsecond, is never turned into an event by any later scan, whatever else is appended. This
  includes an entry that shares its microsecond with the last one seen.
\<close>

theorem late_entries_are_lost:
  assumes "time_server matches (stream_base st) began (set (db @ appended steps))"
    and "stampable seen" and "cursor_of c st = format_generalized seen"
    and "late \<in> set (appended steps)" and "began late div 1000 \<le> seen div 1000"
  shows "stamp late \<notin> set (map ReqStart (snd (scan_history (stream_scan st server now keep_event) matches steps db c [])))"
proof -
  define E C where "E = set (db @ appended steps)" and "C = format_generalized ` Collect stampable"
  have st: "stampable (began e) \<and> stamp e = format_generalized (began e)" if "e \<in> E" for e
    using assms(1) that by (simp add: time_server_def E_def)
  obtain attrs where scn: "\<And>(search :: string \<Rightarrow> string list \<Rightarrow> _ \<Rightarrow> (string + Entry list) \<times> _) c s.
      stream_scan st server now keep_event search c s =
      scan_stream search st (stream_base st) attrs (stream_body st server now keep_event) c s"
    using stream_scan_eq [of st server now keep_event] by blast
  have "\<exists>xs. snd (scan_history (stream_scan st server now keep_event) matches steps db c []) =
      snd (run_bodies (stream_body st server now keep_event) xs 0 []) \<and>
      (\<forall>x\<in>set xs. x \<in> set (db @ appended steps) \<and> str_less (cursor_of c st) (stamp x))"
    by (rule scan_history_above [where C = C and E = E, OF _ _ scn])
      (use time_server_law [OF assms(1)] st assms(2,3) in \<open>auto simp: C_def E_def\<close>)
  then obtain xs where xs: "snd (scan_history (stream_scan st server now keep_event) matches steps db c []) =
      snd (run_bodies (stream_body st server now keep_event) xs 0 [])"
    "\<forall>x\<in>set xs. x \<in> E \<and> str_less (format_generalized seen) (stamp x)" using assms(3) by (auto simp: E_def)
  have "\<forall>x\<in>set xs. readable x" using xs(2) st readable_stamp by blast
  then have out: "snd (run_bodies (stream_body st server now keep_event) xs 0 []) = concat (map (entry_events st server) xs)"
    using kept.bodies_out [of xs st server now 0 "[]"] by simp
  have "\<not> str_less (format_generalized seen) (stamp late)"
    using st [of late] assms(2,4,5) stamp_order by (auto simp: E_def)
  then show ?thesis unfolding xs(1) out using xs(2) by (auto dest!: entry_events_ReqStart)
qed

lemma late_entries_are_lost_witness:
  "stamp (bind_at 5) \<notin> set (map ReqStart (snd (scan_history (stream_scan StreamBind ''ldap'' (fixed_clock 0) keep_event)
      binds_server [([bind_at 5], True), ([bind_at 6], True)] [] (Advance (NewCursorState 0) StreamBind (stamp (bind_at 5))) [])))"
proof -
  have "time_server binds_server (stream_base StreamBind) (\<lambda>e. int (length (DN e)) * second)
      (set ([] @ appended [([bind_at 5], True), ([bind_at 6], True)]))"
    unfolding stream_base.simps by (rule binds_server_time_server) auto
  then show ?thesis
    by (rule late_entries_are_lost [where seen = "5 * second"])
      (use stampable_early [of 5] in \<open>simp_all add: second_def cursor_of_def\<close>)
qed

end
