(* ===== verification/EventsOutput.thy ===== *)
theory EventsOutput
  imports Events
begin

section \<open>What the emitter writes, and where\<close>

text \<open>
  Properties of the strings of a serialised event (no control character, readable back) and of the file the rotator keeps
  open: the sequence of its operating system calls is accepted by an automaton that allows one
  open file at a time and only writes to the file of the day.
\<close>

subsection \<open>JSON strings\<close>

lemma next_rune_bytes:
  "s \<noteq> [] \<Longrightarrow> (\<exists>b. fst (next_rune s) = [b]) \<or> (\<forall>c\<in>set (fst (next_rune s)). 128 \<le> (of_char c :: nat))"
  by (cases s rule: next_rune.cases) (auto simp: byte_in_def rune_error_def split: list.splits)

lemma of_char_hex: "n < 16 \<Longrightarrow> 48 \<le> (of_char (hex_char n) :: nat)"
  by (simp add: hex_char_def)

lemma json_byte_visible: "c \<in> set (json_byte b) \<Longrightarrow> 32 \<le> (of_char c :: nat)"
proof -
  have "(of_char b :: nat) div 16 < 16" by (rule less_mult_imp_div_less) simp
  then have "48 \<le> (of_char (hex_char ((of_char b :: nat) div 16)) :: nat)" by (rule of_char_hex)
  moreover have "48 \<le> (of_char (hex_char ((of_char b :: nat) mod 16)) :: nat)" by (rule of_char_hex) simp
  ultimately show "c \<in> set (json_byte b) \<Longrightarrow> 32 \<le> (of_char c :: nat)"
    by (auto simp: json_byte_def Let_def split: if_splits)
qed

lemma json_rune_multi:
  "\<forall>c\<in>set r. 128 \<le> (of_char c :: nat) \<Longrightarrow>
     json_rune r = (if r = [CHR 0xE2, CHR 0x80, CHR 0xA8] then CHR 0x5C # ''u2028''
       else if r = [CHR 0xE2, CHR 0x80, CHR 0xA9] then CHR 0x5C # ''u2029'' else r)"
proof (cases r rule: list.exhaust)
  case (Cons b t)
  assume r: "\<forall>c\<in>set r. 128 \<le> (of_char c :: nat)"
  have "json_byte b = [b]" if "128 \<le> (of_char b :: nat)"
    using that by (auto simp: json_byte_def Let_def)
  then show ?thesis using r Cons by (cases t) (auto simp: json_rune_def)
qed (simp add: json_rune_def)

lemma json_runes_visible: "c \<in> set (json_runes s) \<Longrightarrow> 32 \<le> (of_char c :: nat)"
proof (induction s rule: json_runes.induct)
  case (1 s)
  show ?case
  proof (cases "s = []")
    case True
    then show ?thesis using 1(2) by (simp add: json_runes.simps)
  next
    case False
    obtain r t where n: "next_rune s = (r, t)" by fastforce
    have "json_runes s = (if r = rune_error \<and> take 3 s \<noteq> rune_error then CHR 0x5C # ''ufffd'' else json_rune r) @
        json_runes t" using False n by (subst json_runes.simps) simp
    then consider "c \<in> set (json_runes t)" | "c \<in> set (CHR 0x5C # ''ufffd'')" | "c \<in> set (json_rune r)"
      using 1(2) by (auto split: if_splits)
    then show ?thesis
    proof cases
      case 1
      then show ?thesis using "1.IH" [OF False n [symmetric] refl] by simp
    next
      case 3
      from next_rune_bytes [OF False] n
      consider b where "r = [b]" | "\<forall>c\<in>set r. 128 \<le> (of_char c :: nat)" by auto
      then show ?thesis
      proof cases
        case (1 b)
        then show ?thesis using 3 json_byte_visible by (simp add: json_rune_def)
      next
        case 2
        then show ?thesis using 3 unfolding json_rune_multi [OF 2] by (fastforce split: if_splits)
      qed
    qed auto
  qed
qed

definition visible :: "string \<Rightarrow> bool" where
  "visible s \<longleftrightarrow> (\<forall>c\<in>set s. 32 \<le> (of_char c :: nat))"

lemma visible_simps [simp]:
  "visible []" "visible (a @ b) \<longleftrightarrow> visible a \<and> visible b"
  "visible (c # s) \<longleftrightarrow> 32 \<le> (of_char c :: nat) \<and> visible s"
  by (auto simp: visible_def)

lemma visible_json_string [simp]: "visible (json_string s)"
  using json_runes_visible by (auto simp: json_string_def visible_def)

lemma visible_json_field [simp]: "visible (json_field n v) = visible v"
  by (simp add: json_field_def)

lemma visible_Join: "\<forall>x\<in>set xs. visible x \<Longrightarrow> visible sep \<Longrightarrow> visible (Join xs sep)"
  by (induction xs sep rule: Join.induct) auto

lemma visible_omitempty: "x \<in> set (omitempty n v) \<Longrightarrow> visible x"
  by (auto simp: omitempty_def split: if_splits)

lemma visible_json_array [simp]: "visible (json_array xs)"
  by (auto simp: json_array_def intro!: visible_Join)

lemma visible_event_fields: "x \<in> set (event_fields ev) \<Longrightarrow> visible x"
  by (auto simp: event_fields_def dest: visible_omitempty split: if_splits)

lemma Marshal_visible: "Marshal ev = Some p \<Longrightarrow> visible p"
  using visible_event_fields by (auto simp: Marshal_def intro!: visible_Join split: if_splits)

text \<open>A reader of JSON strings: the escapes of RFC 8259, a \u escape giving UTF-8.\<close>

definition hex_val :: "char \<Rightarrow> nat" where
  "hex_val c = (let n = of_char c in if n < 58 then n - 48 else n - 87)"

definition utf8_encode :: "nat \<Rightarrow> string" where
  "utf8_encode n =
     (if n < 0x80 then [char_of n]
      else if n < 0x800 then [char_of (0xC0 + n div 64), char_of (0x80 + n mod 64)]
      else [char_of (0xE0 + n div 4096), char_of (0x80 + n div 64 mod 64), char_of (0x80 + n mod 64)])"

definition short_escape :: "char \<Rightarrow> char" where
  "short_escape c =
     (if c = CHR ''b'' then CHR 0x08 else if c = CHR ''f'' then CHR 0x0C else if c = CHR ''n'' then CHR 0x0A
      else if c = CHR ''r'' then CHR 0x0D else if c = CHR ''t'' then CHR 0x09 else c)"

definition hex4 :: "string \<Rightarrow> nat" where
  "hex4 s = foldl (\<lambda>v c. 16 * v + hex_val c) 0 (take 4 s)"

fun json_read :: "string \<Rightarrow> string" where
  "json_read [] = []"
| "json_read (b # s) =
     (if b \<noteq> CHR 0x5C then b # json_read s
      else case s of
             [] \<Rightarrow> []
           | c # t \<Rightarrow>
               (if c = CHR ''u'' then utf8_encode (hex4 t) @ json_read (drop 4 t)
                else short_escape c # json_read t))"

lemma json_read_escape [simp]:
  "c \<noteq> CHR ''u'' \<Longrightarrow> json_read (CHR 0x5C # c # t) = short_escape c # json_read t"
  "json_read (CHR 0x5C # CHR ''u'' # t) = utf8_encode (hex4 t) @ json_read (drop 4 t)"
  by simp_all

lemma hex_val_char [simp]: "n < 16 \<Longrightarrow> hex_val (hex_char n) = n"
  by (simp add: hex_val_def hex_char_def Let_def)

lemma char_of_escapes [simp]:
  "char_of (8 :: nat) = CHR 0x08"
  "char_of (9 :: nat) = CHR 0x09"
  "char_of (10 :: nat) = CHR 0x0A"
  "char_of (12 :: nat) = CHR 0x0C"
  "char_of (13 :: nat) = CHR 0x0D"
  "char_of (239 :: nat) = CHR 0xEF"
  "char_of (191 :: nat) = CHR 0xBF"
  "char_of (189 :: nat) = CHR 0xBD"
  "char_of (226 :: nat) = CHR 0xE2"
  "char_of (128 :: nat) = CHR 0x80"
  "char_of (168 :: nat) = CHR 0xA8"
  "char_of (169 :: nat) = CHR 0xA9"
  by code_simp+

lemma json_read_byte: "(of_char b :: nat) < 128 \<Longrightarrow> json_read (json_byte b @ t) = b # json_read t"
proof -
  define n where "n = (of_char b :: nat)"
  assume "(of_char b :: nat) < 128"
  then have n: "n < 128" "b = char_of n" by (simp_all add: n_def)
  have d: "n div 16 < 16" using n by (simp add: div_less_iff_less_mult)
  have h: "hex4 (CHR ''0'' # CHR ''0'' # hex_char (n div 16) # hex_char (n mod 16) # t) = n"
    using d by (simp add: hex4_def) (simp add: hex_val_def)
  consider "n = 8" | "n = 9" | "n = 10" | "n = 12" | "n = 13" | "b = CHR 0x5C" | "b = CHR 0x22"
    | "n \<notin> {8, 9, 10, 12, 13}" "b \<noteq> CHR 0x5C" "b \<noteq> CHR 0x22" by blast
  then show ?thesis
  proof cases
    case 8
    then show ?thesis
      using n h by (simp add: json_byte_def Let_def n_def [symmetric] utf8_encode_def)
  qed (use n in \<open>auto simp: json_byte_def Let_def n_def [symmetric] short_escape_def\<close>)
qed

lemma json_read_high: "\<forall>c\<in>set r. 128 \<le> (of_char c :: nat) \<Longrightarrow> json_read (r @ t) = r @ json_read t"
  by (induction r) auto

lemma json_read_rune:
  assumes "(\<exists>b. r = [b] \<and> (of_char b :: nat) < 128) \<or> (\<forall>c\<in>set r. 128 \<le> (of_char c :: nat))"
  shows "json_read (json_rune r @ t) = r @ json_read t"
  using assms
proof
  assume "\<exists>b. r = [b] \<and> (of_char b :: nat) < 128"
  then show ?thesis using json_read_byte by (auto simp: json_rune_def)
next
  assume r: "\<forall>c\<in>set r. 128 \<le> (of_char c :: nat)"
  have "hex4 (CHR ''2'' # CHR ''0'' # CHR ''2'' # CHR ''8'' # t) = 0x2028"
    "hex4 (CHR ''2'' # CHR ''0'' # CHR ''2'' # CHR ''9'' # t) = 0x2029" by (simp_all add: hex4_def hex_val_def)
  then show ?thesis
    unfolding json_rune_multi [OF r] using json_read_high [OF r] by (auto simp: utf8_encode_def)
qed

lemma next_rune_split:
  "s \<noteq> [] \<Longrightarrow> (\<exists>b. fst (next_rune s) = [b] \<and> (of_char b :: nat) < 128) \<or>
     (\<forall>c\<in>set (fst (next_rune s)). 128 \<le> (of_char c :: nat))"
  by (cases s rule: next_rune.cases) (auto simp: byte_in_def rune_error_def split: list.splits)

text \<open>
  A string field of an event survives serialisation: a JSON reader gets back the runes of the
  string, with the replacement character in place of invalid bytes, so exactly the string when it
  is valid UTF-8. What is written contains no control character, so no value can start a new line.
\<close>

lemma json_strings_read_back:
  "json_read (json_runes s) = concat (runes s) \<and> list_all (\<lambda>c. 32 \<le> (of_char c :: nat)) (json_runes s)"
proof
  show "json_read (json_runes s) = concat (runes s)"
  proof (induction s rule: json_runes.induct)
    case (1 s)
    show ?case
    proof (cases "s = []")
      case True
      then show ?thesis by (simp add: json_runes.simps runes.simps)
    next
      case False
      obtain r t where n: "next_rune s = (r, t)" by fastforce
      have IH: "json_read (json_runes t) = concat (runes t)" by (rule 1 [OF False n [symmetric] refl])
      have "json_read ((if r = rune_error \<and> take 3 s \<noteq> rune_error then CHR 0x5C # ''ufffd'' else json_rune r) @ u) =
          r @ json_read u" for u
      proof (cases "r = rune_error \<and> take 3 s \<noteq> rune_error")
        case True
        have "hex4 (CHR ''f'' # CHR ''f'' # CHR ''f'' # CHR ''d'' # u) = 0xFFFD" by (simp add: hex4_def hex_val_def)
        then show ?thesis using True by (simp add: utf8_encode_def rune_error_def)
      next
        case F: False
        then show ?thesis using json_read_rune [of r u] next_rune_split [OF False] n by auto
      qed
      then have "json_read (json_runes s) = r @ json_read (json_runes t)"
        using False n by (subst json_runes.simps) simp
      then show ?thesis using IH False n by (subst runes.simps) simp
    qed
  qed
  show "list_all (\<lambda>c. 32 \<le> (of_char c :: nat)) (json_runes s)"
    using json_runes_visible by (auto simp: list_all_iff)
qed

subsection \<open>The file that is open\<close>

text \<open>
  The calls the rotator makes, recorded around any operating system, and an automaton over them:
  it knows the open file, if any, and the last reading of the clock. It opens a file only when
  none is open, closes only the open one, and accepts a write only to the open file when that is
  the file of the current time.
\<close>

datatype fs_op = Clock time | Opened string nat | Wrote nat string | Closed nat

definition traced :: "'w OS \<Rightarrow> ('w \<times> fs_op list) OS" where
  "traced os =
     \<lparr>os_now = (\<lambda>(w, l). let (t, w) = os_now os w in (t, w, l @ [Clock t])),
      MkdirAll = (\<lambda>d (w, l). let (e, w) = MkdirAll os d w in (e, w, l)),
      OpenFile = (\<lambda>p (w, l). case OpenFile os p w of
          (Inl e, w) \<Rightarrow> (Inl e, w, l) | (Inr h, w) \<Rightarrow> (Inr h, w, l @ [Opened p h])),
      FileWrite = (\<lambda>h d (w, l). let (e, w) = FileWrite os h d w in (e, w, l @ [Wrote h d])),
      FileClose = (\<lambda>h (w, l). let (e, w) = FileClose os h w in (e, w, l @ [Closed h])),
      StdoutWrite = (\<lambda>d (w, l). let (e, w) = StdoutWrite os d w in (e, w, l)),
      filepath_Dir = filepath_Dir os, Getuid = Getuid os, Getgid = Getgid os\<rparr>"

fun file_monitor :: "(time \<Rightarrow> string) \<Rightarrow> (string \<times> nat) option \<times> time \<Rightarrow> fs_op list \<Rightarrow> ((string \<times> nat) option \<times> time) option" where
  "file_monitor path (f, now) [] = Some (f, now)"
| "file_monitor path (f, now) (Clock t # ops) = file_monitor path (f, t) ops"
| "file_monitor path (f, now) (Opened p h # ops) =
     (if f = None then file_monitor path (Some (p, h), now) ops else None)"
| "file_monitor path (f, now) (Closed h # ops) =
     (case f of Some (p, h') \<Rightarrow> if h = h' then file_monitor path (None, now) ops else None | None \<Rightarrow> None)"
| "file_monitor path (f, now) (Wrote h d # ops) =
     (if f = Some (path now, h) then file_monitor path (f, now) ops else None)"

lemma file_monitor_append:
  "file_monitor path s (xs @ ys) = Option.bind (file_monitor path s xs) (\<lambda>s. file_monitor path s ys)"
  by (induction path s xs rule: file_monitor.induct) (auto split: option.splits)

datatype rotator_op = RWrite string | RClose

fun rotator_run :: "'w OS \<Rightarrow> rotator_op list \<Rightarrow> fileRotator \<times> 'w \<Rightarrow> fileRotator \<times> 'w" where
  "rotator_run os [] (r, w) = (r, w)"
| "rotator_run os (RWrite p # ops) (r, w) = rotator_run os ops (snd (Rotator_Write os p r w))"
| "rotator_run os (RClose # ops) (r, w) = rotator_run os ops (snd (Rotator_Close os r w))"

definition open_path :: "fileRotator \<Rightarrow> (string \<times> nat) option" where
  "open_path r = map_option (\<lambda>h. (currentPath r, h)) (open_file r)"

definition follows_protocol :: "fileRotator \<Rightarrow> fileRotator \<times> 'w \<times> fs_op list \<Rightarrow> bool" where
  "follows_protocol r0 = (\<lambda>(r, w, l).
     template r = template r0 \<and> daily r = daily r0 \<and>
     map_option fst (file_monitor (resolvePathFor r0) (None, 0) l) = Some (open_path r))"

lemma resolvePathFor_same: "template r = template r0 \<Longrightarrow> daily r = daily r0 \<Longrightarrow> resolvePathFor r = resolvePathFor r0"
  by (rule ext) (simp only: resolvePathFor_def)

lemma rollIfNeeded_protocol:
  assumes "follows_protocol r0 (r, w, l)" "rollIfNeeded (traced os) r (w, l) = (err, r', w', l')"
  shows "follows_protocol r0 (r', w', l') \<and>
    (err = None \<longrightarrow> (\<exists>h now. open_file r' = Some h \<and>
       file_monitor (resolvePathFor r0) (None, 0) l' = Some (Some (resolvePathFor r0 now, h), now)))"
proof -
  obtain f0 now0 where m: "file_monitor (resolvePathFor r0) (None, 0) l = Some (open_path r, now0)"
    using assms(1) by (auto simp: follows_protocol_def)
  have td: "template r = template r0" "daily r = daily r0" using assms(1) by (simp_all add: follows_protocol_def)
  obtain now w1 where now: "os_now os w = (now, w1)" by fastforce
  note p = resolvePathFor_same [OF td]
  show ?thesis
  proof (cases "open_file r \<noteq> None \<and> resolvePathFor r0 now = currentPath r \<and> (\<not> daily r \<or> format_date now = currentDay r)")
    case True
    then show ?thesis
      using assms(2) m td by (auto simp: rollIfNeeded_def traced_def now p follows_protocol_def file_monitor_append open_path_def)
  next
    case False
    define w2 where "w2 = (case open_file r of Some h \<Rightarrow> snd (FileClose os h w1) | None \<Rightarrow> w1)"
    define l2 where "l2 = l @ [Clock now] @ (case open_file r of Some h \<Rightarrow> [Closed h] | None \<Rightarrow> [])"
    have closed: "(case open_file r of Some h \<Rightarrow> snd (FileClose (traced os) h (w1, l @ [Clock now])) | None \<Rightarrow> (w1, l @ [Clock now]))
        = (w2, l2)" by (simp add: traced_def w2_def l2_def split: option.splits prod.splits)
    have m2: "file_monitor (resolvePathFor r0) (None, 0) l2 = Some (None, now)"
      using m by (auto simp: l2_def file_monitor_append open_path_def split: option.splits)
    have roll: "rollIfNeeded (traced os) r (w, l) =
        (case OpenFile (traced os) (resolvePathFor r0 now) (w2, l2) of
           (Inl err, w) \<Rightarrow> (Some (wrapPermError (traced os) ''open'' (resolvePathFor r0 now) err), r\<lparr>open_file := None\<rparr>, w)
         | (Inr h, w) \<Rightarrow> (None, r\<lparr>open_file := None, open_file := Some h, currentPath := resolvePathFor r0 now,
                currentDay := format_date now\<rparr>, w))"
    proof -
      have "os_now (traced os) (w, l) = (now, w1, l @ [Clock now])" by (simp add: traced_def now)
      then show ?thesis
        unfolding rollIfNeeded_def Let_def p using False by (simp only: prod.case if_False closed)
    qed
    show ?thesis
    proof (cases "OpenFile os (resolvePathFor r0 now) w2")
      case (Pair res w3)
      show ?thesis
      proof (cases res)
        case (Inl e)
        then show ?thesis
          using assms(2) m2 td Pair unfolding roll by (auto simp: traced_def follows_protocol_def open_path_def)
      next
        case (Inr h)
        then have "file_monitor (resolvePathFor r0) (None, 0) (l2 @ [Opened (resolvePathFor r0 now) h]) =
            Some (Some (resolvePathFor r0 now, h), now)" using m2 by (simp add: file_monitor_append)
        then show ?thesis
          using assms(2) td Pair Inr unfolding roll by (auto simp: traced_def follows_protocol_def open_path_def)
      qed
    qed
  qed
qed

lemma Rotator_Write_protocol:
  assumes "follows_protocol r0 (r, w, l)"
  shows "follows_protocol r0 (snd (Rotator_Write (traced os) p r (w, l)))"
proof -
  obtain err r' w' l' where roll: "rollIfNeeded (traced os) r (w, l) = (err, r', w', l')" by (metis prod_cases4)
  note ok = rollIfNeeded_protocol [OF assms roll]
  show ?thesis
  proof (cases err)
    case (Some e)
    then show ?thesis using ok roll by (simp add: Rotator_Write_def)
  next
    case None
    then obtain h now where h: "open_file r' = Some h"
      "file_monitor (resolvePathFor r0) (None, 0) l' = Some (Some (resolvePathFor r0 now, h), now)" using ok by blast
    then have "file_monitor (resolvePathFor r0) (None, 0) (l' @ [Wrote h p]) = Some (Some (resolvePathFor r0 now, h), now)"
      by (simp add: file_monitor_append)
    then have "follows_protocol r0 (r', w'', l' @ [Wrote h p])" for w'' :: 'a
      using ok h by (auto simp: follows_protocol_def)
    then show ?thesis
      using None roll h(1) by (auto simp: Rotator_Write_def traced_def split: prod.splits option.splits)
  qed
qed

lemma Rotator_Close_protocol:
  assumes "follows_protocol r0 (r, w, l)"
  shows "follows_protocol r0 (snd (Rotator_Close (traced os) r (w, l)))"
proof (cases "open_file r")
  case None
  then show ?thesis using assms by (simp add: Rotator_Close_def)
next
  case (Some h)
  then show ?thesis
    using assms by (auto simp: Rotator_Close_def traced_def follows_protocol_def open_path_def file_monitor_append
        split: prod.splits)
qed

lemma rotator_run_protocol:
  "follows_protocol r0 (r, w, l) \<Longrightarrow> follows_protocol r0 (rotator_run (traced os) ops (r, w, l))"
proof (induction ops arbitrary: r w l)
  case (Cons op ops)
  obtain r' w' l' where s: "(case op of RWrite p \<Rightarrow> snd (Rotator_Write (traced os) p r (w, l))
      | RClose \<Rightarrow> snd (Rotator_Close (traced os) r (w, l))) = (r', w', l')" by (metis prod_cases3)
  have "follows_protocol r0 (r', w', l')"
    unfolding s [symmetric]
    using Rotator_Write_protocol [OF Cons.prems] Rotator_Close_protocol [OF Cons.prems] by (cases op) simp_all
  then have "follows_protocol r0 (rotator_run (traced os) ops (r', w', l'))" by (rule Cons.IH)
  then show ?case using s by (cases op) simp_all
qed simp

text \<open>C19.
  Over any operating system, failing or not, and any sequence of writes and closes, the rotator
  never holds two files, closes only what it opened, and writes a line only to the file of the
  time it read for that line; the file it thinks is open is the one that is.
\<close>

theorem rotator_follows_file_protocol:
  assumes "newFileRotator (traced os) output dly (w, []) = (Inr r, w', l)"
    and "rotator_run (traced os) ops (r, w', l) = (r', w'', l')"
  shows "\<exists>now. file_monitor (resolvePathFor r) (None, 0) l' = Some (open_path r', now)"
proof -
  define r0 where "r0 = \<lparr>template = output, daily = dly, currentPath = '''', currentDay = '''', open_file = None\<rparr>"
  obtain e w1 l1 where d: "ensureDir (traced os) r0 (w, []) = (e, w1, l1)" by (metis prod_cases3)
  have l1: "\<exists>t. l1 = [Clock t]"
    using d by (auto simp: ensureDir_def traced_def Let_def split: prod.splits option.splits if_splits)
  have roll: "rollIfNeeded (traced os) r0 (w1, l1) = (None, r, w', l)"
    using assms(1) d by (auto simp: newFileRotator_def r0_def [symmetric] Let_def split: option.splits prod.splits)
  have "follows_protocol r0 (r0, w1, l1)"
    using l1 by (auto simp: follows_protocol_def r0_def open_path_def)
  from rollIfNeeded_protocol [OF this roll] have r: "follows_protocol r0 (r, w', l)" by (rule conjunct1)
  from rotator_run_protocol [OF this, of os ops] have "follows_protocol r0 (r', w'', l')" by (simp add: assms(2))
  moreover have "resolvePathFor r = resolvePathFor r0"
    using r by (intro resolvePathFor_same) (simp_all add: follows_protocol_def)
  ultimately show ?thesis by (auto simp: follows_protocol_def)
qed

text \<open>An operating system whose clock advances half a day per reading and whose handles count up.\<close>

definition half_day_os :: "nat OS" where
  "half_day_os =
     \<lparr>os_now = (\<lambda>w. (int w * (12 * hour), w + 1)), MkdirAll = (\<lambda>d w. (None, w)), OpenFile = (\<lambda>p w. (Inr w, w)),
      FileWrite = (\<lambda>h d w. (None, w)), FileClose = (\<lambda>h w. (None, w)), StdoutWrite = (\<lambda>d w. (None, w)),
      filepath_Dir = (\<lambda>p. ''.''), Getuid = 0, Getgid = 0\<rparr>"

lemma rotator_follows_file_protocol_witness:
  "\<exists>now. file_monitor (resolvePathFor \<lparr>template = ''ev'', daily = True, currentPath = ''ev.0001-01-01'',
        currentDay = ''0001-01-01'', open_file = Some 2\<rparr>) (None, 0)
      [Clock 0, Clock (12 * hour), Opened ''ev.0001-01-01'' 2, Clock (24 * hour), Closed 2,
       Opened ''ev.0001-01-02'' 3, Wrote 3 ''x'', Closed 3] = Some (None, now)"
proof -
  let ?r = "\<lparr>template = ''ev'', daily = True, currentPath = ''ev.0001-01-01'', currentDay = ''0001-01-01'',
      open_file = Some 2\<rparr>"
  have "newFileRotator (traced half_day_os) ''ev'' True (0, []) =
      (Inr ?r, 2, [Clock 0, Clock (12 * hour), Opened ''ev.0001-01-01'' 2])" by code_simp
  moreover have "rotator_run (traced half_day_os) [RWrite ''x'', RClose]
      (?r, 2, [Clock 0, Clock (12 * hour), Opened ''ev.0001-01-01'' 2]) =
      (\<lparr>template = ''ev'', daily = True, currentPath = ''ev.0001-01-02'', currentDay = ''0001-01-02'', open_file = None\<rparr>,
       3, [Clock 0, Clock (12 * hour), Opened ''ev.0001-01-01'' 2, Clock (24 * hour), Closed 2,
       Opened ''ev.0001-01-02'' 3, Wrote 3 ''x'', Closed 3])" by code_simp
  ultimately show ?thesis using rotator_follows_file_protocol by (fastforce simp: open_path_def)
qed

end
