(* ===== verification/EventsRoundtrip.thy ===== *)
theory EventsRoundtrip
  imports EventsOutput
begin

section \<open>Reading an event back\<close>

text \<open>
  A reader of JSON objects whose values are strings or arrays of strings, and of the record of an
  event out of them. It knows the grammar of RFC 8259 and the names of the members, not how the
  emitter writes them; the line of an event is shown to give the event back.
\<close>

subsection \<open>A JSON reader\<close>

datatype json = JString string | JArray "string list"

text \<open>The raw text up to the closing quote, and what follows it.\<close>

fun json_scan :: "string \<Rightarrow> (string \<times> string) option" where
  "json_scan [] = None"
| "json_scan (b # s) =
     (if b = CHR 0x22 then Some ([], s)
      else if b \<noteq> CHR 0x5C then map_option (apfst (Cons b)) (json_scan s)
      else case s of [] \<Rightarrow> None | c # t \<Rightarrow> map_option (apfst (\<lambda>r. b # c # r)) (json_scan t))"

definition json_text :: "string \<Rightarrow> (string \<times> string) option" where
  "json_text s =
     (case s of
        [] \<Rightarrow> None
      | b # t \<Rightarrow> if b = CHR 0x22 then map_option (apfst json_read) (json_scan t) else None)"

lemma json_scan_length: "json_scan s = Some (r, t) \<Longrightarrow> length t < length s"
proof (induction s arbitrary: r rule: json_scan.induct)
  case (2 b s)
  then show ?case by (fastforce split: if_splits list.splits)
qed simp

lemma json_text_length: "json_text s = Some (r, t) \<Longrightarrow> length t < length s"
  by (auto simp: json_text_def dest: json_scan_length split: list.splits if_splits)

text \<open>The texts of an array after its opening bracket, up to the closing one.\<close>

function json_texts :: "string \<Rightarrow> (string list \<times> string) option" where
  "json_texts s =
     (case json_text s of
        Some (x, c # t) \<Rightarrow>
          (if c = CHR '','' then map_option (apfst (Cons x)) (json_texts t)
           else if c = CHR '']'' then Some ([x], t) else None)
      | _ \<Rightarrow> None)"
  by auto
termination
  by (relation "measure length") (auto dest: json_text_length)

declare json_texts.simps [simp del]

lemma json_texts_length: "json_texts s = Some (xs, t) \<Longrightarrow> length t < length s"
proof (induction s arbitrary: xs rule: json_texts.induct)
  case (1 s)
  obtain x c u where x: "json_text s = Some (x, c # u)" "length u < length s"
    using 1(2) json_text_length by (subst (asm) json_texts.simps) (fastforce split: option.splits list.splits)
  show ?case
  proof (cases "c = CHR '','' ")
    case True
    then obtain ys where "json_texts u = Some (ys, t)"
      using 1(2) x(1) by (subst (asm) json_texts.simps) auto
    then show ?thesis using 1(1) [OF x(1) refl refl True] x(2) by simp
  next
    case False
    then show ?thesis using 1(2) x by (subst (asm) json_texts.simps) (auto split: if_splits)
  qed
qed

definition json_value :: "string \<Rightarrow> (json \<times> string) option" where
  "json_value s =
     (case s of
        [] \<Rightarrow> None
      | b # t \<Rightarrow>
          (if b \<noteq> CHR ''['' then map_option (apfst JString) (json_text s)
           else if take 1 t = '']'' then Some (JArray [], drop 1 t)
           else map_option (apfst JArray) (json_texts t)))"

lemma json_value_length: "json_value s = Some (v, t) \<Longrightarrow> length t < length s"
  by (auto simp: json_value_def dest!: json_texts_length json_text_length split: list.splits if_splits)

text \<open>The members of an object after its opening brace; nothing may follow the closing one.\<close>

function json_members :: "string \<Rightarrow> (string \<times> json) list option" where
  "json_members s =
     (case json_text s of
        Some (n, c # t) \<Rightarrow>
          (if c \<noteq> CHR '':'' then None
           else case json_value t of
             Some (v, d # u) \<Rightarrow>
               (if d = CHR '','' then map_option (Cons (n, v)) (json_members u)
                else if [d] @ u = ''}'' then Some [(n, v)] else None)
           | _ \<Rightarrow> None)
      | _ \<Rightarrow> None)"
  by auto
termination
  by (relation "measure length") (auto dest!: json_text_length json_value_length)

declare json_members.simps [simp del]

definition json_object :: "string \<Rightarrow> (string \<times> json) list option" where
  "json_object s =
     (case s of [] \<Rightarrow> None | b # t \<Rightarrow> if b \<noteq> CHR ''{'' then None else if t = ''}'' then Some [] else json_members t)"

subsection \<open>Reading the record of an event\<close>

text \<open>A member that is not there reads as the empty value of its type.\<close>

definition text_member :: "(string \<times> json) list \<Rightarrow> string \<Rightarrow> string" where
  "text_member m n = (case map_of m n of Some (JString s) \<Rightarrow> s | _ \<Rightarrow> '''')"

definition array_member :: "(string \<times> json) list \<Rightarrow> string \<Rightarrow> string list" where
  "array_member m n = (case map_of m n of Some (JArray xs) \<Rightarrow> xs | _ \<Rightarrow> [])"

text \<open>RFC 3339 in UTC with whole seconds.\<close>

definition read_rfc3339 :: "string \<Rightarrow> time option" where
  "read_rfc3339 s =
     (if map (\<lambda>i. s ! i) [4, 7, 10, 13, 16] = ''--T::'' \<and> drop 19 s = ''Z''
      then parse_time True True (filter is_digit s @ ''.000000Z'') else None)"

definition read_event :: "string \<Rightarrow> Event option" where
  "read_event line =
     (case json_object line of
        None \<Rightarrow> None
      | Some m \<Rightarrow>
          (case read_rfc3339 (text_member m ''ts'') of
             None \<Rightarrow> None
           | Some t \<Rightarrow>
               Some \<lparr>Timestamp = t, EventType = text_member m ''event'', Server = text_member m ''server'',
                 Source = text_member m ''source'', ReqStart = text_member m ''req_start'',
                 ReqSession = text_member m ''req_session'', Actor = text_member m ''actor'',
                 UserDN = text_member m ''user_dn'', TargetDN = text_member m ''target_dn'',
                 Result = text_member m ''result'', ResultCode = text_member m ''result_code'',
                 Operation = text_member m ''operation'', EventAttributes = array_member m ''attributes''\<rparr>))"

text \<open>A string as UTF-8: every byte that is not part of a rune is the replacement character.\<close>

definition as_utf8 :: "string \<Rightarrow> string" where
  "as_utf8 s = concat (runes s)"

definition event_as_utf8 :: "Event \<Rightarrow> Event" where
  "event_as_utf8 ev =
     ev\<lparr>EventType := as_utf8 (EventType ev), Server := as_utf8 (Server ev), Source := as_utf8 (Source ev),
        ReqStart := as_utf8 (ReqStart ev), ReqSession := as_utf8 (ReqSession ev), Actor := as_utf8 (Actor ev),
        UserDN := as_utf8 (UserDN ev), TargetDN := as_utf8 (TargetDN ev), Result := as_utf8 (Result ev),
        ResultCode := as_utf8 (ResultCode ev), Operation := as_utf8 (Operation ev),
        EventAttributes := map as_utf8 (EventAttributes ev)\<rparr>"

subsection \<open>The reader undoes the writer\<close>

text \<open>A text the scanner passes over as a whole: no quote in it closes the string.\<close>

definition sealed :: "string \<Rightarrow> bool" where
  "sealed w \<longleftrightarrow> (\<forall>u. json_scan (w @ u) = map_option (apfst ((@) w)) (json_scan u))"

lemma sealedI: "(\<And>u. json_scan (w @ u) = (case json_scan u of None \<Rightarrow> None | Some (r, v) \<Rightarrow> Some (w @ r, v))) \<Longrightarrow> sealed w"
  by (auto simp: sealed_def split: option.splits)

lemma sealedD: "sealed w \<Longrightarrow> json_scan (w @ u) = (case json_scan u of None \<Rightarrow> None | Some (r, v) \<Rightarrow> Some (w @ r, v))"
  by (auto simp: sealed_def split: option.splits)

lemma sealed_Nil [simp]: "sealed []"
  by (auto intro: sealedI split: option.splits)

lemma sealed_append: "sealed v \<Longrightarrow> sealed w \<Longrightarrow> sealed (v @ w)"
  by (auto intro!: sealedI simp: sealedD split: option.splits)

lemma sealed_Cons: "c \<noteq> CHR 0x22 \<Longrightarrow> c \<noteq> CHR 0x5C \<Longrightarrow> sealed w \<Longrightarrow> sealed (c # w)"
  by (auto intro!: sealedI simp: sealedD split: option.splits)

lemma sealed_escape: "sealed w \<Longrightarrow> sealed (CHR 0x5C # c # w)"
  by (auto intro!: sealedI simp: sealedD split: option.splits)

lemma sealed_plain: "\<forall>c\<in>set w. c \<noteq> CHR 0x22 \<and> c \<noteq> CHR 0x5C \<Longrightarrow> sealed w"
  by (induction w) (auto intro: sealed_Cons)

lemma sealed_u: "\<forall>c\<in>set w. c \<noteq> CHR 0x22 \<and> c \<noteq> CHR 0x5C \<Longrightarrow> sealed (CHR 0x5C # CHR ''u'' # w)"
  by (intro sealed_escape sealed_plain)

lemma hex_char_plain: "n < 16 \<Longrightarrow> hex_char n \<noteq> CHR 0x22 \<and> hex_char n \<noteq> CHR 0x5C"
proof -
  assume "n < 16"
  moreover have "\<forall>n\<in>set [0..<16]. hex_char n \<noteq> CHR 0x22 \<and> hex_char n \<noteq> CHR 0x5C" by code_simp
  ultimately show ?thesis by simp
qed

lemma sealed_json_byte: "sealed (json_byte b)"
proof -
  have "(of_char b :: nat) div 16 < 16" by (rule less_mult_imp_div_less) simp
  then have "sealed ([CHR ''0'', CHR ''0'', hex_char ((of_char b :: nat) div 16), hex_char ((of_char b :: nat) mod 16)])"
    using hex_char_plain by (intro sealed_plain) auto
  then show ?thesis by (auto simp: json_byte_def Let_def intro: sealed_escape sealed_Cons)
qed

lemma high_plain: "128 \<le> (of_char c :: nat) \<Longrightarrow> c \<noteq> CHR 0x22 \<and> c \<noteq> CHR 0x5C"
  by auto

lemma sealed_json_rune:
  "(\<exists>b. r = [b]) \<or> (\<forall>c\<in>set r. 128 \<le> (of_char c :: nat)) \<Longrightarrow> sealed (json_rune r)"
proof (elim disjE exE)
  fix b assume "r = [b]"
  then show "sealed (json_rune r)" using sealed_json_byte by (simp add: json_rune_def)
next
  assume r: "\<forall>c\<in>set r. 128 \<le> (of_char c :: nat)"
  then have "sealed r" using high_plain by (blast intro: sealed_plain)
  then show "sealed (json_rune r)"
    unfolding json_rune_multi [OF r] using sealed_u [of "''2028''"] sealed_u [of "''2029''"] by simp
qed

lemma sealed_json_runes: "sealed (json_runes s)"
proof (induction s rule: json_runes.induct)
  case (1 s)
  show ?case
  proof (cases "s = []")
    case False
    obtain r t where n: "next_rune s = (r, t)" by fastforce
    have "sealed (json_rune r)" using sealed_json_rune next_rune_bytes [OF False] n by simp
    moreover have "sealed (json_runes t)" by (rule 1 [OF False n [symmetric] refl])
    ultimately show ?thesis
      using False n sealed_u [of "''fffd''"] sealed_append [of "CHR 0x5C # ''ufffd''" "json_runes t"]
      by (subst json_runes.simps) (simp add: sealed_append)
  qed (simp add: json_runes.simps)
qed

lemma json_text_string [simp]: "json_text (json_string s @ u) = Some (as_utf8 s, u)"
  using sealed_json_runes [of s] json_strings_read_back [of s]
  by (simp add: json_text_def json_string_def as_utf8_def sealed_def)

lemma json_string_Cons: "json_string s = CHR 0x22 # json_runes s @ [CHR 0x22]"
  by (simp add: json_string_def)

lemma json_texts_Join:
  "xs \<noteq> [] \<Longrightarrow> json_texts (Join (map json_string xs) '','' @ '']'' @ u) = Some (map as_utf8 xs, u)"
proof (induction xs rule: induct_list012)
  case (2 x)
  then show ?case by (subst json_texts.simps) simp
next
  case (3 x y xs)
  then show ?case by (subst json_texts.simps) simp
qed simp

fun json_write :: "json \<Rightarrow> string" where
  "json_write (JString s) = json_string s"
| "json_write (JArray xs) = json_array xs"

fun json_as_utf8 :: "json \<Rightarrow> json" where
  "json_as_utf8 (JString s) = JString (as_utf8 s)"
| "json_as_utf8 (JArray xs) = JArray (map as_utf8 xs)"

lemma json_value_write: "json_value (json_write v @ u) = Some (json_as_utf8 v, u)"
proof (cases v)
  case (JString s)
  then show ?thesis using json_text_string [of s u] by (simp add: json_value_def json_string_Cons)
next
  case (JArray xs)
  show ?thesis
  proof (cases xs)
    case (Cons x ys)
    have "take 1 (Join (map json_string xs) '','' @ '']'' @ u) \<noteq> '']''"
      using Cons by (cases ys) (simp_all add: json_string_Cons)
    then show ?thesis using json_texts_Join [of xs u] Cons JArray by (simp add: json_value_def json_array_def)
  qed (use JArray in \<open>simp add: json_value_def json_array_def\<close>)
qed

definition member_write :: "string \<times> json \<Rightarrow> string" where
  "member_write m = json_field (fst m) (json_write (snd m))"

definition member_as_utf8 :: "string \<times> json \<Rightarrow> string \<times> json" where
  "member_as_utf8 m = (as_utf8 (fst m), json_as_utf8 (snd m))"

lemma json_members_write:
  "json_members (member_write m @ d # u) =
     (if d = CHR '','' then map_option (Cons (member_as_utf8 m)) (json_members u)
      else if [d] @ u = ''}'' then Some [member_as_utf8 m] else None)"
  using json_value_write [of "snd m" "d # u"]
  by (subst json_members.simps) (simp add: member_write_def member_as_utf8_def json_field_def)

lemma json_members_Join:
  "ms \<noteq> [] \<Longrightarrow> json_members (Join (map member_write ms) '','' @ ''}'') = Some (map member_as_utf8 ms)"
  by (induction ms rule: induct_list012) (simp_all add: json_members_write)

text \<open>The members of an event with the values they are written from.\<close>

definition text_unless_empty :: "string \<Rightarrow> string \<Rightarrow> (string \<times> json) list" where
  "text_unless_empty n s = (if s = '''' then [] else [(n, JString s)])"

definition event_members :: "Event \<Rightarrow> (string \<times> json) list" where
  "event_members ev =
     [(''ts'', JString (format_rfc3339 (Timestamp ev))), (''event'', JString (EventType ev)),
      (''server'', JString (Server ev)), (''source'', JString (Source ev))] @
     text_unless_empty ''req_start'' (ReqStart ev) @ text_unless_empty ''req_session'' (ReqSession ev) @
     text_unless_empty ''actor'' (Actor ev) @ text_unless_empty ''user_dn'' (UserDN ev) @
     text_unless_empty ''target_dn'' (TargetDN ev) @ text_unless_empty ''result'' (Result ev) @
     text_unless_empty ''result_code'' (ResultCode ev) @ text_unless_empty ''operation'' (Operation ev) @
     (if EventAttributes ev = [] then [] else [(''attributes'', JArray (EventAttributes ev))])"

lemma write_text_unless_empty:
  "map member_write (text_unless_empty n s) = omitempty n s"
  by (simp add: member_write_def text_unless_empty_def omitempty_def)

lemma event_fields_members: "event_fields ev = map member_write (event_members ev)"
  by (simp add: member_write_def event_fields_def event_members_def write_text_unless_empty)

lemma as_utf8_ascii: "list_all (\<lambda>c. (of_char c :: nat) < 128) s \<Longrightarrow> as_utf8 s = s"
proof (induction s)
  case (Cons c s)
  then show ?case by (simp add: as_utf8_def runes.simps [of "c # s"] byte_in_def)
qed (simp add: as_utf8_def runes.simps)

lemma as_utf8_Nil [simp]: "as_utf8 [] = []"
  by (simp add: as_utf8_ascii)

lemma as_utf8_rfc3339: "as_utf8 (format_rfc3339 t) = format_rfc3339 t"
proof (rule as_utf8_ascii)
  have d: "list_all (\<lambda>c. (of_char c :: nat) < 128) (digits w n)" for w n
    using digits_are_digits [of w n] by (auto simp: list_all_iff is_digit_def Let_def)
  show "list_all (\<lambda>c. (of_char c :: nat) < 128) (format_rfc3339 t)"
    by (simp add: format_rfc3339_def format_date_def Let_def d)
qed

text \<open>The members of an event as they are read: an optional text, and looking up a name.\<close>

definition optional :: "string \<Rightarrow> string \<Rightarrow> (string \<times> json) list" where
  "optional n s = (if s = '''' then [] else [(n, JString (as_utf8 s))])"

lemma read_text_unless_empty:
  "list_all (\<lambda>c. (of_char c :: nat) < 128) n \<Longrightarrow> map member_as_utf8 (text_unless_empty n s) = optional n s"
  by (simp add: text_unless_empty_def member_as_utf8_def optional_def as_utf8_ascii)

lemma read_members:
  "map member_as_utf8 (event_members ev) =
     (''ts'', JString (format_rfc3339 (Timestamp ev))) # (''event'', JString (as_utf8 (EventType ev))) #
     (''server'', JString (as_utf8 (Server ev))) # (''source'', JString (as_utf8 (Source ev))) #
     optional ''req_start'' (ReqStart ev) @ optional ''req_session'' (ReqSession ev) @
     optional ''actor'' (Actor ev) @ optional ''user_dn'' (UserDN ev) @ optional ''target_dn'' (TargetDN ev) @
     optional ''result'' (Result ev) @ optional ''result_code'' (ResultCode ev) @
     optional ''operation'' (Operation ev) @
     (if EventAttributes ev = [] then [] else [(''attributes'', JArray (map as_utf8 (EventAttributes ev)))])"
  by (simp add: event_members_def read_text_unless_empty)
     (simp add: member_as_utf8_def as_utf8_ascii as_utf8_rfc3339)

lemma text_member_Nil [simp]: "text_member [] k = ''''"
  by (simp add: text_member_def)

lemma text_member_Cons [simp]: "text_member ((n, JString s) # ms) k = (if n = k then s else text_member ms k)"
  by (simp add: text_member_def)

lemma text_member_array [simp]: "text_member [(n, JArray xs)] k = ''''"
  by (simp add: text_member_def)

lemma text_member_skip [simp]: "n \<noteq> k \<Longrightarrow> text_member (optional n s @ ms) k = text_member ms k"
  by (simp add: optional_def)

lemma text_member_optional [simp]: "text_member ms n = '''' \<Longrightarrow> text_member (optional n s @ ms) n = as_utf8 s"
  by (simp add: optional_def)

lemma array_member_Nil [simp]: "array_member [] k = []"
  by (simp add: array_member_def)

lemma array_member_array [simp]: "array_member ((n, JArray xs) # ms) n = xs"
  by (simp add: array_member_def)

lemma array_member_Cons [simp]: "n \<noteq> k \<Longrightarrow> array_member ((n, v) # ms) k = array_member ms k"
  by (simp add: array_member_def)

lemma array_member_skip [simp]: "n \<noteq> k \<Longrightarrow> array_member (optional n s @ ms) k = array_member ms k"
  by (simp add: optional_def)

lemma json_object_Marshal:
  assumes "Marshal ev = Some line"
  shows "json_object line = Some (map member_as_utf8 (event_members ev))"
proof -
  have ne: "event_members ev \<noteq> []" by (simp add: event_members_def)
  have l: "line = CHR ''{'' # Join (event_fields ev) '','' @ ''}''"
    using assms by (simp add: Marshal_def split: if_splits)
  have "Join (event_fields ev) '','' @ ''}'' \<noteq> ''}''"
    by (simp add: event_fields_def json_field_def json_string_Cons)
  then show ?thesis
    using json_members_Join [OF ne] by (simp add: l json_object_def event_fields_members)
qed

lemma stamp_rfc3339: "filter is_digit (format_rfc3339 t) = stamp_seconds t"
proof -
  have d: "filter is_digit (digits w n) = digits w n" for w n
    using digits_are_digits [of w n] by (simp add: filter_id_conv list_all_iff)
  show ?thesis by (simp add: format_rfc3339_def format_date_def stamp_seconds_def Let_def d is_digit_def)
qed

lemma read_format_rfc3339:
  assumes "stampable t" "second dvd t"
  shows "read_rfc3339 (format_rfc3339 t) = Some t"
proof -
  have "parse_time True True (stamp_seconds t @ ''.'' @ ''000000'' @ ''Z'') = Some (t + digits_val ''000000'' * 1000)"
    by (rule parse_stamp [OF assms]) (simp_all add: is_digit_def)
  moreover have "digits_val ''000000'' = 0" by code_simp
  moreover have l: "length (digits w n) = w" for w n by (induction w n rule: digits.induct) simp_all
  then have "map (\<lambda>i. format_rfc3339 t ! i) [4, 7, 10, 13, 16] = ''--T::'' \<and> drop 19 (format_rfc3339 t) = ''Z''"
    by (simp add: format_rfc3339_def format_date_def Let_def nth_append)
  ultimately show ?thesis by (simp add: read_rfc3339_def stamp_rfc3339)
qed

subsection \<open>The line of an event\<close>

text \<open>C20.
  The line written for an event gives the whole event back: a JSON reader finds every field under its
  own name with its own value, the instant included, and the fields left out read as empty.
  Strings come back as UTF-8, with the replacement character for invalid bytes. The line holds
  no control character, so no value of a log entry can start a line of its own. The time stamp
  is a whole second of the years 1 to 9999, as the scans make it.
\<close>

theorem event_lines_read_back:
  assumes "stampable (Timestamp ev)" and "second dvd Timestamp ev"
  shows "\<exists>line. Marshal ev = Some line \<and> read_event line = Some (event_as_utf8 ev) \<and>
     list_all (\<lambda>c. 32 \<le> (of_char c :: nat)) line"
proof -
  obtain line where l: "Marshal ev = Some line" using assms(1) by (simp add: Marshal_def stampable_def)
  have "read_event line = Some (event_as_utf8 ev)"
    using json_object_Marshal [OF l] read_format_rfc3339 [OF assms]
    by (simp add: read_event_def event_as_utf8_def read_members)
  moreover have "list_all (\<lambda>c. 32 \<le> (of_char c :: nat)) line"
    using Marshal_visible [OF l] by (simp add: visible_def list_all_iff)
  ultimately show ?thesis using l by blast
qed

definition demo_event :: Event where
  "demo_event =
     \<lparr>Timestamp = 60 * second, EventType = TypeBindFailure, Server = ''ldap'', Source = ''accesslog'', ReqStart = ''00010101000100.000001Z'',
      ReqSession = ''7'', Actor = ''cn=a'', UserDN = ''cn='' @ [CHR 0x22, CHR 0x0A], TargetDN = '''',
      Result = ''invalid_credentials'', ResultCode = ''49'', Operation = '''', EventAttributes = []\<rparr>"

lemma event_lines_read_back_witness:
  "\<exists>line. Marshal demo_event = Some line \<and> read_event line = Some demo_event \<and>
     list_all (\<lambda>c. 32 \<le> (of_char c :: nat)) line"
proof -
  have "stampable (60 * second)" by code_simp
  moreover have "event_as_utf8 demo_event = demo_event" by code_simp
  ultimately show ?thesis using event_lines_read_back [of demo_event] by (simp add: demo_event_def)
qed

end
